theory Spec2Isabelle
  imports Complex_Main
begin

section \<open>Python and numpy primitives used by the notebooks\<close>

text \<open>
  Exceptions are values. The notebooks' own code has no \<^verbatim>\<open>raise\<close> statement, so every
  exception originates in a library call; \<open>ValueError\<close> is what \<^verbatim>\<open>np.vstack\<close> raises on an
  empty sequence and what an optimiser raises when it is given no variable to optimise,
  \<open>LibraryError\<close> stands for any other exception of the library.
\<close>

datatype exn = ValueError | LibraryError string

text \<open>Python's \<^verbatim>\<open>a // b\<close> on integers is floor division, as \<open>div\<close> on \<open>int\<close> is.\<close>

definition py_floordiv :: "int \<Rightarrow> int \<Rightarrow> int" where
  "py_floordiv a b = a div b"

text \<open>\<^verbatim>\<open>range(n)\<close>: the integers \<open>0, ..., n - 1\<close>, none when \<open>n \<le> 0\<close>.\<close>

definition py_range :: "int \<Rightarrow> int list" where
  "py_range n = map int [0..<nat n]"

text \<open>
  \<^verbatim>\<open>xs[a:b]\<close> on the first axis (the notebook writes \<^verbatim>\<open>Xt[a:b, :]\<close>, all columns):
  a negative bound counts from the end, and both bounds are clipped to the array.
\<close>

definition slice_bound :: "int \<Rightarrow> int \<Rightarrow> int" where
  "slice_bound i n = (if i < 0 then max (i + n) 0 else min i n)"

definition py_slice :: "'a list \<Rightarrow> int \<Rightarrow> int \<Rightarrow> 'a list" where
  "py_slice xs a b =
     (let n = int (length xs); lo = slice_bound a n; hi = slice_bound b n
      in take (nat (hi - lo)) (drop (nat lo) xs))"

text \<open>
  \<^verbatim>\<open>np.vstack(arrays)\<close>: the rows of the arrays, in order; numpy raises ValueError
  when the sequence is empty. An array is the list of its rows.
\<close>

definition np_vstack :: "'a list list \<Rightarrow> exn + 'a list" where
  "np_vstack arrays = (if arrays = [] then Inl ValueError else Inr (concat arrays))"

text \<open>
  A list comprehension \<^verbatim>\<open>[f(x) for x in xs]\<close> whose body may raise: the elements are
  computed in order and the first exception ends the comprehension.
\<close>

fun comprehension :: "('a \<Rightarrow> exn + 'b) \<Rightarrow> 'a list \<Rightarrow> exn + 'b list" where
  "comprehension f [] = Inr []"
| "comprehension f (x # xs) =
     (case f x of
        Inl e \<Rightarrow> Inl e
      | Inr y \<Rightarrow> (case comprehension f xs of Inl e \<Rightarrow> Inl e | Inr ys \<Rightarrow> Inr (y # ys)))"

section \<open>monitor-tensorboard: \<open>CustomTensorBoardTask\<close>\<close>

text \<open>
  The library the task calls is a parameter: \<open>predict_y\<close> is \<^verbatim>\<open>model.predict_y\<close>
  (it returns the pair of predictive mean and variance, one row per input row when it
  returns), and \<open>np_rmse Yt preds\<close> is the numpy expression
  \<^verbatim>\<open>np.mean((Yt - preds) ** 2.0)**0.5\<close>, a floating-point computation inside numpy,
  which raises when the two shapes do not broadcast.
\<close>

record ('m, 'x) library =
  predict_y :: "'m \<Rightarrow> 'x list \<Rightarrow> exn + (real list \<times> real list)"
  np_rmse :: "real list \<Rightarrow> real list \<Rightarrow> exn + real"

text \<open>
  The object \<^verbatim>\<open>__init__\<close> builds. \<open>full_test_err\<close> and \<open>full_test_nlpp\<close> are the two
  placeholders; \<open>summary\<close> lists the scalar summaries merged by the constructor, each a tag
  with the placeholder it reads.
\<close>

datatype placeholder = Full_test_err | Full_test_nlpp

record ('w, 'm, 'x) CustomTensorBoardTask =
  file_writer :: 'w
  model :: 'm
  Xt :: "'x list"
  Yt :: "real list"
  full_test_err :: placeholder
  full_test_nlpp :: placeholder
  summary :: "(string \<times> placeholder) list"

definition CustomTensorBoardTask_init :: "'w \<Rightarrow> 'm \<Rightarrow> 'x list \<Rightarrow> real list \<Rightarrow> ('w, 'm, 'x) CustomTensorBoardTask" where
  "CustomTensorBoardTask_init fw m xt yt =
     \<lparr>file_writer = fw, model = m, Xt = xt, Yt = yt,
      full_test_err = Full_test_err, full_test_nlpp = Full_test_nlpp,
      summary = [(''test_rmse'', Full_test_err), (''test_nlpp'', Full_test_nlpp)]\<rparr>"

text \<open>
  The names \<^verbatim>\<open>Xt\<close> and \<^verbatim>\<open>Yt\<close> in the body of \<^verbatim>\<open>run\<close> are not attributes of
  \<^verbatim>\<open>self\<close>: Python resolves them in the notebook's global namespace.
\<close>

record 'x globals =
  global_Xt :: "'x list"
  global_Yt :: "real list"

text \<open>
  The context the monitor hands to a task, as far as \<^verbatim>\<open>run\<close> and \<^verbatim>\<open>_eval_summary\<close>
  use it: the number of the iteration, the value of the global step in the session, and
  the session, which evaluates a scalar summary in single precision
  (\<open>session_float32\<close> is the rounding it applies to a fed value).
\<close>

record MonitorContext =
  iteration_no :: nat
  global_step :: nat
  session_float32 :: "real \<Rightarrow> real"

text \<open>
  What \<^verbatim>\<open>_eval_summary(context, feed_dict)\<close> hands to the event-log writer: the writer,
  the global step of the context (\<^verbatim>\<open>add_summary(summary, context.global_step)\<close>), and
  the value of every scalar summary under the feed dictionary, as the session evaluates
  it. Evaluating a summary whose placeholder is not fed is an error of the library.
\<close>

record 'w summary_event =
  writer :: 'w
  step :: nat
  scalars :: "(string \<times> real) list"

definition eval_summary ::
  "('w, 'm, 'x) CustomTensorBoardTask \<Rightarrow> MonitorContext \<Rightarrow> (placeholder \<rightharpoonup> real)
     \<Rightarrow> exn + 'w summary_event" where
  "eval_summary self context feed_dict =
     (case comprehension
             (\<lambda>(tag, ph). case feed_dict ph of
                              None \<Rightarrow> Inl (LibraryError ''placeholder not fed'')
                            | Some v \<Rightarrow> Inr (tag, session_float32 context v))
             (summary self) of
        Inl e \<Rightarrow> Inl e
      | Inr vs \<Rightarrow>
          Inr \<lparr>writer = file_writer self, step = global_step context, scalars = vs\<rparr>)"

definition minibatch_size :: int where
  "minibatch_size = 100"

text \<open>\<^verbatim>\<open>-(-len(Xt) // minibatch_size)\<close>: unary minus binds tighter than \<^verbatim>\<open>//\<close>.\<close>

definition n_minibatches :: "'x list \<Rightarrow> int" where
  "n_minibatches xt = - (py_floordiv (- int (length xt)) minibatch_size)"

definition minibatch :: "'x list \<Rightarrow> int \<Rightarrow> 'x list" where
  "minibatch xt mb = py_slice xt (mb * minibatch_size) ((mb + 1) * minibatch_size)"

text \<open>
  \<^verbatim>\<open>preds\<close>: the comprehension over the minibatches takes component \<^verbatim>\<open>[0]\<close> (the mean)
  of each prediction, and \<^verbatim>\<open>np.vstack\<close> stacks them.
\<close>

definition preds :: "('m, 'x) library \<Rightarrow> 'm \<Rightarrow> 'x list \<Rightarrow> exn + real list" where
  "preds lib m xt =
     (case comprehension
             (\<lambda>mb. case predict_y lib m (minibatch xt mb) of
                      Inl e \<Rightarrow> Inl e
                    | Inr p \<Rightarrow> Inr (fst p))
             (py_range (n_minibatches xt)) of
        Inl e \<Rightarrow> Inl e
      | Inr arrays \<Rightarrow> np_vstack arrays)"

definition CustomTensorBoardTask_run ::
  "('m, 'x) library \<Rightarrow> 'x globals \<Rightarrow> ('w, 'm, 'x) CustomTensorBoardTask \<Rightarrow> MonitorContext
     \<Rightarrow> exn + 'w summary_event" where
  "CustomTensorBoardTask_run lib g self context =
     (case preds lib (model self) (global_Xt g) of
        Inl e \<Rightarrow> Inl e
      | Inr ps \<Rightarrow>
          (case np_rmse lib (global_Yt g) ps of
             Inl e \<Rightarrow> Inl e
           | Inr test_err \<Rightarrow>
               eval_summary self context
                 [full_test_err self \<mapsto> test_err, full_test_nlpp self \<mapsto> 0]))"

section \<open>The state the notebooks act on\<close>

text \<open>
  What a notebook does that can be observed, in the order it happens: a model of the
  library is constructed (\<open>Model\<close>, the class and the variable it is bound to); an
  optimiser, action, monitor, task, writer or session helper of the library is
  constructed (\<open>Tool\<close>); a training loop of the library is invoked (\<open>Training\<close>:
  \<^verbatim>\<open>Loop(...)()\<close> or \<^verbatim>\<open>minimize\<close>); text is printed or a cell displays its value
  (\<open>Output\<close>, the text without the numbers formatted into it, and \<open>Print_likelihood\<close> for
  the line of \<open>PrintAction.run\<close>); the library restores a session from a checkpoint
  directory (\<open>Restore\<close>); a warning issued through Python's \<^verbatim>\<open>warnings\<close> module is
  shown (\<open>Warning_shown\<close>). Which files the library writes while it does so is decided by
  code that is not part of the notebooks, and is not described here.
\<close>

datatype event =
    Model string string
  | Tool string
  | Training string
  | Output string
  | Print_likelihood string nat real
  | Restore string
  | Warning_shown string

text \<open>
  A \<^verbatim>\<open>Parameter\<close> object of the library is identified by a number; the store gives
  its current value and its trainable flag. Model objects and \<^verbatim>\<open>var_list\<close> entries
  hold such identities, so two references to one parameter alias.
\<close>

type_synonym pid = nat

record 'v parameter =
  pvalue :: 'v
  trainable :: bool

text \<open>
  The state of Python's \<^verbatim>\<open>warnings\<close> module as far as the notebooks change it: the
  filters Python starts with, or \<^verbatim>\<open>filterwarnings('ignore')\<close> in front of them.
\<close>

datatype warning_filter = Default_filter | Ignore

text \<open>
  The state of a run: the store, the trace of events, the exception that has ended the
  run, if any (\<open>failed\<close>), every exception that a call into the library has raised so
  far, in order (\<open>raised\<close>), and the warning filter.
\<close>

record 'v world =
  store :: "pid \<Rightarrow> 'v parameter"
  events :: "event list"
  failed :: "exn option"
  raised :: "exn list"
  warnings :: warning_filter

definition emit :: "event list \<Rightarrow> 'v world \<Rightarrow> 'v world" where
  "emit es w = w\<lparr>events := events w @ es\<rparr>"

text \<open>
  What a call into the library comes back with: the warnings it issued (those that
  Python's default filters would show), then an exception or a result.
\<close>

type_synonym 'r outcome = "string list \<times> (exn + 'r)"

text \<open>With the filter \<^verbatim>\<open>'ignore'\<close> in front, no warning is shown.\<close>

definition show_warnings :: "string list \<Rightarrow> 'v world \<Rightarrow> 'v world" where
  "show_warnings msgs w =
     (case warnings w of
        Ignore \<Rightarrow> w
      | Default_filter \<Rightarrow> emit (map Warning_shown msgs) w)"

text \<open>
  An exception ends the cell and the run of the notebook: once \<open>failed\<close> is set, no later
  statement executes. \<open>raise_exn\<close> is an exception raised inside the library.
  \<open>stmt\<close> is a statement that cannot raise. \<open>lib_call call cont\<close> is a
  call into the library: its warnings pass through the filter, its exception, if any,
  becomes the failure of the run (the notebooks have no \<^verbatim>\<open>try\<close>), and otherwise the
  run continues with the result.
\<close>

definition raise_exn :: "exn \<Rightarrow> 'v world \<Rightarrow> 'v world" where
  "raise_exn e w = w\<lparr>failed := Some e, raised := raised w @ [e]\<rparr>"

definition stmt :: "('v world \<Rightarrow> 'v world) \<Rightarrow> 'v world \<Rightarrow> 'v world" where
  "stmt f w = (if failed w = None then f w else w)"

definition lib_call ::
  "('v world \<Rightarrow> 'r outcome) \<Rightarrow> ('r \<Rightarrow> 'v world \<Rightarrow> 'v world) \<Rightarrow> 'v world \<Rightarrow> 'v world" where
  "lib_call call cont w =
     (if failed w = None
      then (let (msgs, r) = call w; w = show_warnings msgs w
            in case r of Inl e \<Rightarrow> raise_exn e w | Inr x \<Rightarrow> cont x w)
      else w)"

section \<open>The library's optimisers and actions\<close>

text \<open>
  A model object: its name and its \<^verbatim>\<open>Parameter\<close> objects. VGP and SVGP models also
  have the attributes \<^verbatim>\<open>q_mu\<close> and \<^verbatim>\<open>q_sqrt\<close>; GPR and SGPR models do not, so they
  cannot be given to \<open>run_nat_grads_with_adam\<close>.
\<close>

record gp_model =
  name :: string
  parameters :: "pid list"

record variational_model = gp_model +
  q_mu :: pid
  q_sqrt :: pid

datatype xi_transform = XiNat | XiSqrtMeanVar

text \<open>An entry of a \<^verbatim>\<open>var_list\<close>: \<^verbatim>\<open>(q_mu, q_sqrt)\<close> or \<^verbatim>\<open>(q_mu, q_sqrt, xi)\<close>.\<close>

type_synonym var_entry = "pid \<times> pid \<times> xi_transform option"

text \<open>
  The library is a parameter. \<open>adam_step lr i vars st\<close> and
  \<open>natgrad_step gamma i var_list st\<close> are the values one step at iteration \<open>i\<close> assigns,
  computed from the current store; \<open>likelihood_tensor name ps st\<close> is the value of a
  model's likelihood tensor; \<open>api c st\<close> is any other call into the library, named by
  the statement \<open>c\<close> that makes it: what it leaves in the store (a constructor
  initialises parameters, an assignment to an attribute sets one).
  \<open>session_global_step st\<close> is the value of the global step variable of the session,
  and \<open>float32\<close> the rounding to single precision of the session.
\<close>

record 'v gpflow =
  adam_step :: "real \<Rightarrow> nat \<Rightarrow> pid list \<Rightarrow> (pid \<Rightarrow> 'v parameter) \<Rightarrow> (pid \<Rightarrow> 'v) outcome"
  natgrad_step ::
    "real \<Rightarrow> nat \<Rightarrow> var_entry list \<Rightarrow> (pid \<Rightarrow> 'v parameter) \<Rightarrow> (pid \<Rightarrow> 'v) outcome"
  likelihood_tensor :: "string \<Rightarrow> pid list \<Rightarrow> (pid \<Rightarrow> 'v parameter) \<Rightarrow> real outcome"
  api :: "string \<Rightarrow> (pid \<Rightarrow> 'v parameter) \<Rightarrow> (pid \<Rightarrow> 'v parameter) outcome"
  session_global_step :: "(pid \<Rightarrow> 'v parameter) \<Rightarrow> nat"
  float32 :: "real \<Rightarrow> real"

text \<open>
  A statement of a notebook that is one call into the library: the call \<open>c\<close>, and the
  events by which it is observed when it returns.
\<close>

definition library :: "'v gpflow \<Rightarrow> string \<Rightarrow> event list \<Rightarrow> 'v world \<Rightarrow> 'v world" where
  "library lib c es w =
     lib_call (\<lambda>w. api lib c (store w)) (\<lambda>st w. emit es (w\<lparr>store := st\<rparr>)) w"

text \<open>
  An \<^verbatim>\<open>Action\<close> object. The optimise action of Adam holds the variables it was built
  for; the one of the natural-gradient optimiser holds its \<^verbatim>\<open>var_list\<close>; any other
  action is its \<^verbatim>\<open>run\<close> method, given the iteration of the context.
\<close>

datatype 'v action =
    Adam_action real "pid list"
  | NatGrad_action real "var_entry list"
  | Action "nat \<Rightarrow> 'v world \<Rightarrow> 'v world"

text \<open>\<^verbatim>\<open>parameter.set_trainable(flag)\<close>.\<close>

definition set_trainable :: "pid \<Rightarrow> bool \<Rightarrow> 'v world \<Rightarrow> 'v world" where
  "set_trainable p flag w = w\<lparr>store := (store w)(p := (store w p)\<lparr>trainable := flag\<rparr>)\<rparr>"

text \<open>
  \<^verbatim>\<open>AdamOptimizer(lr).make_optimize_action(model)\<close>, called without a \<^verbatim>\<open>var_list\<close>:
  the action minimises over the parameters of the model that are trainable when the
  action is built. When none is trainable the call raises
  \<^verbatim>\<open>ValueError('No variables to optimize.')\<close> and there is no action.
\<close>

definition AdamOptimizer_make_optimize_action ::
  "real \<Rightarrow> 'a gp_model_scheme \<Rightarrow> 'v world \<Rightarrow> exn + 'v action" where
  "AdamOptimizer_make_optimize_action lr m w =
     (let vars = filter (\<lambda>p. trainable (store w p)) (parameters m)
      in if vars = [] then Inl ValueError else Inr (Adam_action lr vars))"

text \<open>
  \<^verbatim>\<open>NatGradOptimizer(gamma).make_optimize_action(model, var_list=var_list)\<close>: the
  action updates the parameters its \<^verbatim>\<open>var_list\<close> names, whatever their trainable flag.
\<close>

definition NatGradOptimizer_make_optimize_action ::
  "real \<Rightarrow> 'a gp_model_scheme \<Rightarrow> var_entry list \<Rightarrow> 'v action" where
  "NatGradOptimizer_make_optimize_action gamma m var_list = NatGrad_action gamma var_list"

definition natgrad_vars :: "var_entry list \<Rightarrow> pid list" where
  "natgrad_vars var_list = concat (map (\<lambda>(mu, s, xi). [mu, s]) var_list)"

text \<open>A step assigns the new values to the variables of the action and to no other.\<close>

definition assign :: "pid list \<Rightarrow> (pid \<Rightarrow> 'v) \<Rightarrow> 'v world \<Rightarrow> 'v world" where
  "assign vars new w =
     w\<lparr>store := (\<lambda>p. if p \<in> set vars then (store w p)\<lparr>pvalue := new p\<rparr> else store w p)\<rparr>"

fun run_action :: "'v gpflow \<Rightarrow> 'v action \<Rightarrow> nat \<Rightarrow> 'v world \<Rightarrow> 'v world" where
  "run_action lib (Adam_action lr vars) i w =
     lib_call (\<lambda>w. adam_step lib lr i vars (store w)) (assign vars) w"
| "run_action lib (NatGrad_action gamma var_list) i w =
     lib_call (\<lambda>w. natgrad_step lib gamma i var_list (store w))
       (assign (natgrad_vars var_list)) w"
| "run_action lib (Action f) i w = stmt (f i) w"

text \<open>
  One iteration runs the actions in the order of the list; \<open>iterate\<close> is the iterations
  \<open>0, ..., n - 1\<close>.
\<close>

fun run_actions :: "'v gpflow \<Rightarrow> 'v action list \<Rightarrow> nat \<Rightarrow> 'v world \<Rightarrow> 'v world" where
  "run_actions lib [] i w = w"
| "run_actions lib (a # as) i w = run_actions lib as i (run_action lib a i w)"

definition iterate :: "'v gpflow \<Rightarrow> 'v action list \<Rightarrow> int \<Rightarrow> 'v world \<Rightarrow> 'v world" where
  "iterate lib actions n w = foldl (\<lambda>w i. run_actions lib actions i w) w [0..<nat n]"

text \<open>\<^verbatim>\<open>Loop(actions, stop=iterations)()\<close>.\<close>

definition Loop :: "'v gpflow \<Rightarrow> 'v action list \<Rightarrow> int \<Rightarrow> 'v world \<Rightarrow> 'v world" where
  "Loop lib actions stop w = iterate lib actions stop (stmt (emit [Training ''Loop'']) w)"

text \<open>
  \<^verbatim>\<open>model.anchor(model.enquire_session())\<close> copies the values of the session into the
  parameter objects. The store already holds the current values, and the call changes no
  trainable flag.
\<close>

definition anchor :: "'a gp_model_scheme \<Rightarrow> 'v world \<Rightarrow> 'v world" where
  "anchor m w = w"

section \<open>natural gradients: the code of the notebook\<close>

record 'a PrintAction =
  model :: "'a gp_model_scheme"
  text' :: string

definition PrintAction_init :: "'a gp_model_scheme \<Rightarrow> string \<Rightarrow> 'a PrintAction" where
  "PrintAction_init m t = \<lparr>model = m, text' = t\<rparr>"

definition PrintAction_run :: "'v gpflow \<Rightarrow> 'a PrintAction \<Rightarrow> nat \<Rightarrow> 'v world \<Rightarrow> 'v world" where
  "PrintAction_run lib self iteration w =
     lib_call (\<lambda>w. likelihood_tensor lib (name (model self)) (parameters (model self)) (store w))
       (\<lambda>likelihood. emit [Print_likelihood (text' self) iteration likelihood]) w"

text \<open>The statements of a cell or of a function body, run in order.\<close>

definition statements :: "('w \<Rightarrow> 'w) list \<Rightarrow> 'w \<Rightarrow> 'w" where
  "statements fs w = fold (\<lambda>f w. f w) fs w"

definition run_adam ::
  "'v gpflow \<Rightarrow> 'a gp_model_scheme \<Rightarrow> real \<Rightarrow> int \<Rightarrow> 'v action option \<Rightarrow> 'v world \<Rightarrow> 'v world" where
  "run_adam lib m lr iterations callback =
     statements
       [stmt (emit [Tool ''AdamOptimizer'']),
        lib_call (\<lambda>w. ([], AdamOptimizer_make_optimize_action lr m w))
          (\<lambda>adam. statements
             [Loop lib (case callback of None \<Rightarrow> [adam] | Some cb \<Rightarrow> [adam, cb]) iterations,
              stmt (anchor m)])]"

text \<open>
  \<open>run_nat_grads_with_adam\<close>, statement by statement: the default \<^verbatim>\<open>var_list\<close>, the two
  \<^verbatim>\<open>set_trainable(False)\<close>, the optimise action of Adam (the call that may raise), the
  one of the natural-gradient optimiser, the optional callback, the loop and the
  anchoring.
\<close>

definition run_nat_grads_with_adam ::
  "'v gpflow \<Rightarrow> 'a variational_model_scheme \<Rightarrow> real \<Rightarrow> real \<Rightarrow> int \<Rightarrow> var_entry list option
     \<Rightarrow> 'v action option \<Rightarrow> 'v world \<Rightarrow> 'v world" where
  "run_nat_grads_with_adam lib m lr gamma iterations var_list callback =
     (let var_list = (case var_list of
                        None \<Rightarrow> [(q_mu m, q_sqrt m, None)]
                      | Some vl \<Rightarrow> vl)
      in statements
           [stmt (set_trainable (q_mu m) False),
            stmt (set_trainable (q_sqrt m) False),
            stmt (emit [Tool ''AdamOptimizer'']),
            lib_call (\<lambda>w. ([], AdamOptimizer_make_optimize_action lr m w))
              (\<lambda>adam. statements
                 [stmt (emit [Tool ''NatGradOptimizer'']),
                  (let natgrad = NatGradOptimizer_make_optimize_action gamma m var_list;
                       actions = [adam, natgrad];
                       actions = (case callback of None \<Rightarrow> actions | Some cb \<Rightarrow> actions @ [cb])
                   in Loop lib actions iterations),
                  stmt (anchor m)])])"

section \<open>The library's \<^verbatim>\<open>minimize\<close> and monitor\<close>

text \<open>
  \<^verbatim>\<open>optimiser.minimize(model, maxiter=n, step_callback=cb)\<close> of Adam: \<open>n\<close> steps of
  Adam on the parameters that are trainable at the call (\<^verbatim>\<open>ValueError\<close> when there is
  none), the callback after each step with the number of steps done so far, then the
  anchoring of the model.
\<close>

definition AdamOptimizer_minimize ::
  "'v gpflow \<Rightarrow> real \<Rightarrow> 'a gp_model_scheme \<Rightarrow> int \<Rightarrow> (nat \<Rightarrow> 'v world \<Rightarrow> 'v world) option
     \<Rightarrow> 'v world \<Rightarrow> 'v world" where
  "AdamOptimizer_minimize lib lr m maxiter step_callback =
     statements
       [stmt (emit [Training ''minimize'']),
        lib_call (\<lambda>w. ([], AdamOptimizer_make_optimize_action lr m w))
          (\<lambda>adam. statements
             [iterate lib (case step_callback of
                             None \<Rightarrow> [adam]
                           | Some cb \<Rightarrow> [adam, Action (\<lambda>i. cb (Suc i))]) maxiter,
              stmt (anchor m)])]"

text \<open>\<^verbatim>\<open>minimize(model, maxiter=n, var_list=var_list)\<close> of \<^verbatim>\<open>NatGradOptimizer(gamma)\<close>.\<close>

definition NatGradOptimizer_minimize ::
  "'v gpflow \<Rightarrow> real \<Rightarrow> 'a gp_model_scheme \<Rightarrow> int \<Rightarrow> var_entry list \<Rightarrow> 'v world \<Rightarrow> 'v world" where
  "NatGradOptimizer_minimize lib gamma m maxiter var_list w =
     (if failed w = None
      then (let natgrad = NatGradOptimizer_make_optimize_action gamma m var_list;
                w = emit [Training ''minimize''] w;
                w = iterate lib [natgrad] maxiter w
            in stmt (anchor m) w)
      else w)"

text \<open>
  The monitor, as the notebook describes it: "a monitor is a function that is provided
  as a callback to an optimiser. It consists of a number of tasks that may be executed at
  each step, subject to their running condition"; \<^verbatim>\<open>with_condition\<close> "controls
  execution of the task at each iteration", and \<^verbatim>\<open>with_exit_condition\<close> is "a simple
  boolean flag indicating that the task should also run at the end of optimisation".
  An event-log writer is identified by its directory.
\<close>

type_synonym LogdirWriter = string

datatype 'x task_kind =
    PrintTimingsTask
  | SleepTask real
  | CheckpointTask string
  | ModelToTensorBoardTask LogdirWriter gp_model
  | LmlToTensorBoardTask LogdirWriter gp_model
  | Custom_task "(LogdirWriter, gp_model, 'x) CustomTensorBoardTask"

record 'x monitor_task =
  kind :: "'x task_kind"
  task_name :: "string option"
  condition :: "nat \<Rightarrow> bool"
  exit_condition :: bool

definition new_task :: "'x task_kind \<Rightarrow> 'x monitor_task" where
  "new_task k = \<lparr>kind = k, task_name = None, condition = (\<lambda>i. True), exit_condition = False\<rparr>"

definition with_name :: "string \<Rightarrow> 'x monitor_task \<Rightarrow> 'x monitor_task" where
  "with_name n t = t\<lparr>task_name := Some n\<rparr>"

definition with_condition :: "(nat \<Rightarrow> bool) \<Rightarrow> 'x monitor_task \<Rightarrow> 'x monitor_task" where
  "with_condition c t = t\<lparr>condition := c\<rparr>"

definition with_exit_condition :: "bool \<Rightarrow> 'x monitor_task \<Rightarrow> 'x monitor_task" where
  "with_exit_condition b t = t\<lparr>exit_condition := b\<rparr>"

definition PeriodicIterationCondition :: "nat \<Rightarrow> nat \<Rightarrow> bool" where
  "PeriodicIterationCondition interval i = (i mod interval = 0)"

text \<open>
  What a task does when it runs. The tasks of the library are calls into the library,
  observed by what they print: the timings line, and the progress bar of the full
  likelihood for \<^verbatim>\<open>LmlToTensorBoardTask\<close>. The custom task is
  \<open>CustomTensorBoardTask_run\<close>, with the library as it predicts in the current state of
  the session and the context of the monitor; the monitor does nothing with what
  \<^verbatim>\<open>run\<close> returns.
\<close>

definition run_task ::
  "'v gpflow \<Rightarrow> ((pid \<Rightarrow> 'v parameter) \<Rightarrow> (gp_model, 'x) library) \<Rightarrow> 'x globals
     \<Rightarrow> 'x monitor_task \<Rightarrow> nat \<Rightarrow> 'v world \<Rightarrow> 'v world" where
  "run_task lib predictor g t i w =
     (case kind t of
        PrintTimingsTask \<Rightarrow> library lib ''PrintTimingsTask'' [Output ''Iteration''] w
      | SleepTask seconds \<Rightarrow> library lib ''SleepTask'' [] w
      | CheckpointTask dir \<Rightarrow> library lib ''CheckpointTask'' [] w
      | ModelToTensorBoardTask fw m \<Rightarrow> library lib ''ModelToTensorBoardTask'' [] w
      | LmlToTensorBoardTask fw m \<Rightarrow>
          library lib ''LmlToTensorBoardTask'' [Output ''progress bar''] w
      | Custom_task self \<Rightarrow>
          lib_call
            (\<lambda>w. ([], CustomTensorBoardTask_run (predictor (store w)) g self
                         \<lparr>iteration_no = i, global_step = session_global_step lib (store w),
                          session_float32 = float32 lib\<rparr>))
            (\<lambda>ev w. w) w)"

text \<open>The monitor called as a step callback: the tasks whose condition holds, in order.\<close>

fun Monitor_call ::
  "'v gpflow \<Rightarrow> ((pid \<Rightarrow> 'v parameter) \<Rightarrow> (gp_model, 'x) library) \<Rightarrow> 'x globals
     \<Rightarrow> 'x monitor_task list \<Rightarrow> nat \<Rightarrow> 'v world \<Rightarrow> 'v world" where
  "Monitor_call lib predictor g [] i w = w"
| "Monitor_call lib predictor g (t # ts) i w =
     Monitor_call lib predictor g ts i
       (if condition t i then run_task lib predictor g t i w else w)"

text \<open>
  Leaving the \<^verbatim>\<open>with\<close> block of the monitor: the tasks with an exit condition run once
  more, then the summary of the timings is printed (\<^verbatim>\<open>print_summary=True\<close>).
\<close>

definition Monitor_exit ::
  "'v gpflow \<Rightarrow> ((pid \<Rightarrow> 'v parameter) \<Rightarrow> (gp_model, 'x) library) \<Rightarrow> 'x globals
     \<Rightarrow> 'x monitor_task list \<Rightarrow> bool \<Rightarrow> nat \<Rightarrow> 'v world \<Rightarrow> 'v world" where
  "Monitor_exit lib predictor g tasks print_summary i w =
     (let w = Monitor_call lib predictor g (map (\<lambda>t. t\<lparr>condition := (\<lambda>i. exit_condition t)\<rparr>) tasks) i w
      in if print_summary
         then library lib ''print_summary'' [Output ''Tasks execution time summary''] w
         else w)"

text \<open>
  Python's \<^verbatim>\<open>with\<close>: the exit of the context manager runs when the body has raised as
  well, and the exception of the body then goes on, unless the exit raises one of its
  own.
\<close>

definition with_block :: "('v world \<Rightarrow> 'v world) \<Rightarrow> ('v world \<Rightarrow> 'v world) \<Rightarrow> 'v world \<Rightarrow> 'v world" where
  "with_block body exit w =
     (if failed w = None
      then (let w = body w
            in case failed w of
                 None \<Rightarrow> exit w
               | Some e \<Rightarrow>
                   (let w = exit (w\<lparr>failed := None\<rparr>)
                    in case failed w of None \<Rightarrow> w\<lparr>failed := Some e\<rparr> | Some e' \<Rightarrow> w))
      else w)"

section \<open>monitor-tensorboard: the cells of the notebook\<close>

text \<open>
  The run of the notebook depends on the library \<open>lib\<close> and on how it predicts
  (\<open>predictor\<close>), on which directories exist (\<open>isdir\<close>, what \<^verbatim>\<open>os.path.isdir\<close>
  answers), on the test data drawn in cell 2 (the globals \<^verbatim>\<open>Xt\<close>, \<^verbatim>\<open>Yt\<close>) and on
  the model object \<open>m\<close> that the constructor of \<^verbatim>\<open>SVGP\<close> returns.
\<close>

definition file_writer_dir :: LogdirWriter where
  "file_writer_dir = ''./model-tensorboard''"

definition print_task :: "'x monitor_task" where
  "print_task =
     with_exit_condition True (with_condition (PeriodicIterationCondition 10)
       (with_name ''print'' (new_task PrintTimingsTask)))"

definition sleep_task :: "'x monitor_task" where
  "sleep_task = with_name ''sleep'' (with_name ''sleep'' (new_task (SleepTask 0.01)))"

definition saver_task :: "'x monitor_task" where
  "saver_task =
     with_exit_condition True (with_condition (PeriodicIterationCondition 10)
       (with_name ''saver'' (new_task (CheckpointTask ''./monitor-saves''))))"

definition model_tboard_task :: "gp_model \<Rightarrow> 'x monitor_task" where
  "model_tboard_task m =
     with_exit_condition True (with_condition (PeriodicIterationCondition 10)
       (with_name ''model_tboard'' (new_task (ModelToTensorBoardTask file_writer_dir m))))"

definition lml_tboard_task :: "gp_model \<Rightarrow> 'x monitor_task" where
  "lml_tboard_task m =
     with_exit_condition True (with_condition (PeriodicIterationCondition 100)
       (with_name ''lml_tboard'' (new_task (LmlToTensorBoardTask file_writer_dir m))))"

definition custom_tboard_task :: "gp_model \<Rightarrow> 'x globals \<Rightarrow> 'x monitor_task" where
  "custom_tboard_task m g =
     with_exit_condition True (with_condition (PeriodicIterationCondition 100)
       (with_name ''custom_tboard''
         (new_task (Custom_task
            (CustomTensorBoardTask_init file_writer_dir m (global_Xt g) (global_Yt g))))))"

definition monitor_tasks :: "gp_model \<Rightarrow> 'x globals \<Rightarrow> 'x monitor_task list" where
  "monitor_tasks m g =
     [print_task, model_tboard_task m, lml_tboard_task m, custom_tboard_task m g,
      saver_task, sleep_task]"

definition monitor_cell_1 :: "'v gpflow \<Rightarrow> 'v world \<Rightarrow> 'v world" where
  "monitor_cell_1 lib = statements [library lib ''import'' []]"

definition monitor_cell_2 :: "'v gpflow \<Rightarrow> 'v world \<Rightarrow> 'v world" where
  "monitor_cell_2 lib =
     statements
       [library lib ''np.random'' [],
        library lib ''RBF'' [],
        library lib ''Gaussian'' [],
        library lib ''SVGP'' [Model ''SVGP'' ''m''],
        library lib ''m.likelihood.variance = 0.01'' [],
        library lib ''m.compile'' []]"

definition monitor_cell_3 :: "'v gpflow \<Rightarrow> 'v world \<Rightarrow> 'v world" where
  "monitor_cell_3 lib =
     statements
       [library lib ''m.compute_log_likelihood'' [Output ''LML before the optimisation'']]"

definition monitor_cell_4 :: "'v gpflow \<Rightarrow> 'v world \<Rightarrow> 'v world" where
  "monitor_cell_4 lib =
     statements
       [library lib ''m.enquire_session'' [],
        library lib ''create_global_step'' [Tool ''global_step'']]"

definition monitor_cell_5 :: "'v gpflow \<Rightarrow> 'v world \<Rightarrow> 'v world" where
  "monitor_cell_5 lib =
     statements
       [library lib ''PrintTimingsTask()'' [Tool ''PrintTimingsTask''],
        library lib ''SleepTask()'' [Tool ''SleepTask''],
        library lib ''CheckpointTask()'' [Tool ''CheckpointTask''],
        library lib ''LogdirWriter()'' [Tool ''LogdirWriter''],
        library lib ''ModelToTensorBoardTask()'' [Tool ''ModelToTensorBoardTask''],
        library lib ''LmlToTensorBoardTask()'' [Tool ''LmlToTensorBoardTask'']]"

definition monitor_cell_6 :: "'v gpflow \<Rightarrow> 'v world \<Rightarrow> 'v world" where
  "monitor_cell_6 lib =
     statements [library lib ''CustomTensorBoardTask()'' [Tool ''CustomTensorBoardTask'']]"

definition monitor_cell_7 :: "'v gpflow \<Rightarrow> 'v world \<Rightarrow> 'v world" where
  "monitor_cell_7 lib = statements [library lib ''Monitor()'' [Tool ''Monitor'']]"

definition monitor_cell_8 :: "'v gpflow \<Rightarrow> (string \<Rightarrow> bool) \<Rightarrow> 'v world \<Rightarrow> 'v world" where
  "monitor_cell_8 lib isdir w =
     (if isdir ''./monitor-saves''
      then library lib ''restore_session'' [Restore ''./monitor-saves''] w
      else w)"

definition monitor_cell_9 ::
  "'v gpflow \<Rightarrow> ((pid \<Rightarrow> 'v parameter) \<Rightarrow> (gp_model, 'x) library) \<Rightarrow> 'x globals \<Rightarrow> gp_model
     \<Rightarrow> 'v world \<Rightarrow> 'v world" where
  "monitor_cell_9 lib predictor g m =
     statements
       [library lib ''AdamOptimizer()'' [Tool ''AdamOptimizer''],
        library lib ''Monitor()'' [Tool ''Monitor''],
        with_block
          (AdamOptimizer_minimize lib 0.01 m 450
             (Some (Monitor_call lib predictor g (monitor_tasks m g))))
          (Monitor_exit lib predictor g (monitor_tasks m g) True 450),
        library lib ''file_writer.close'' []]"

definition monitor_cell_10 :: "'v gpflow \<Rightarrow> 'v world \<Rightarrow> 'v world" where
  "monitor_cell_10 lib =
     statements
       [library lib ''m.compute_log_likelihood'' [Output ''LML after the optimisation'']]"

definition initial :: "(pid \<Rightarrow> 'v parameter) \<Rightarrow> 'v world" where
  "initial st =
     \<lparr>store = st, events = [], failed = None, raised = [], warnings = Default_filter\<rparr>"

definition monitor_tensorboard ::
  "'v gpflow \<Rightarrow> ((pid \<Rightarrow> 'v parameter) \<Rightarrow> (gp_model, 'x) library) \<Rightarrow> (string \<Rightarrow> bool)
     \<Rightarrow> 'x globals \<Rightarrow> gp_model \<Rightarrow> (pid \<Rightarrow> 'v parameter) \<Rightarrow> 'v world" where
  "monitor_tensorboard lib predictor isdir g m st =
     statements
       [monitor_cell_1 lib, monitor_cell_2 lib, monitor_cell_3 lib, monitor_cell_4 lib,
        monitor_cell_5 lib, monitor_cell_6 lib, monitor_cell_7 lib, monitor_cell_8 lib isdir,
        monitor_cell_9 lib predictor g m, monitor_cell_10 lib]
       (initial st)"

section \<open>natural gradients: the cells of the notebook\<close>

text \<open>
  The run of the notebook depends on the library, on the model objects its constructors
  return, and on what \<^verbatim>\<open>notebook_niter(100)\<close> and \<^verbatim>\<open>notebook_range(1000)\<close> of the
  library's test utilities give (\<open>niter\<close>, and the length \<open>nrange\<close> of the range).
  \<open>svgp_minibatch\<close> is the second object bound to the name \<^verbatim>\<open>svgp\<close>, in cell 15.
\<close>

record natgrads_objects =
  vgp :: variational_model
  gpr :: gp_model
  svgp :: variational_model
  sgpr :: gp_model
  svgp_minibatch :: variational_model
  svgp_ordinary :: variational_model
  svgp_nat :: variational_model
  vgp_bernoulli :: variational_model
  vgp_bernoulli_natgrads :: variational_model
  vgp_bernoulli_natgrads_xi :: variational_model

definition learning_rate :: real where
  "learning_rate = 0.01"

definition iterations :: int where
  "iterations = 5"

definition make_matern_kernel :: "'v gpflow \<Rightarrow> 'v world \<Rightarrow> 'v world" where
  "make_matern_kernel lib = library lib ''Matern52'' []"

text \<open>\<^verbatim>\<open>warnings.filterwarnings('ignore')\<close>.\<close>

definition filterwarnings_ignore :: "'v world \<Rightarrow> 'v world" where
  "filterwarnings_ignore w = w\<lparr>warnings := Ignore\<rparr>"

text \<open>A cell whose last expression is \<^verbatim>\<open>model.compute_log_likelihood()\<close>.\<close>

definition show_log_likelihood :: "'v gpflow \<Rightarrow> string \<Rightarrow> 'v world \<Rightarrow> 'v world" where
  "show_log_likelihood lib model_name =
     library lib (model_name @ ''.compute_log_likelihood'')
       [Output (model_name @ ''.compute_log_likelihood()'')]"

text \<open>
  \<^verbatim>\<open>np.average([model.compute_log_likelihood() for _ in notebook_range(1000)])\<close>
  as the value of a cell.
\<close>

definition show_average_log_likelihood ::
  "'v gpflow \<Rightarrow> string \<Rightarrow> nat \<Rightarrow> 'v world \<Rightarrow> 'v world" where
  "show_average_log_likelihood lib model_name nrange =
     statements
       (replicate nrange (library lib (model_name @ ''.compute_log_likelihood'') [])
        @ [library lib ''np.average'' [Output (''np.average of '' @ model_name)]])"

definition natgrads_cell_1 :: "'v gpflow \<Rightarrow> 'v world \<Rightarrow> 'v world" where
  "natgrads_cell_1 lib =
     statements
       [library lib ''import'' [],
        stmt filterwarnings_ignore,
        library lib ''np.random'' []]"

definition natgrads_cell_2 :: "'v gpflow \<Rightarrow> 'v world \<Rightarrow> 'v world" where
  "natgrads_cell_2 lib =
     statements
       [make_matern_kernel lib,
        library lib ''Gaussian'' [],
        library lib ''VGP'' [Model ''VGP'' ''vgp''],
        make_matern_kernel lib,
        library lib ''GPR'' [Model ''GPR'' ''gpr'']]"

definition natgrads_cell_3 :: "'v gpflow \<Rightarrow> 'v world \<Rightarrow> 'v world" where
  "natgrads_cell_3 lib = statements [show_log_likelihood lib ''gpr'']"

definition natgrads_cell_4 :: "'v gpflow \<Rightarrow> 'v world \<Rightarrow> 'v world" where
  "natgrads_cell_4 lib = statements [show_log_likelihood lib ''vgp'']"

definition natgrads_cell_5 :: "'v gpflow \<Rightarrow> natgrads_objects \<Rightarrow> 'v world \<Rightarrow> 'v world" where
  "natgrads_cell_5 lib obj =
     statements
       [library lib ''NatGradOptimizer()'' [Tool ''NatGradOptimizer''],
        NatGradOptimizer_minimize lib 1 (vgp obj) 1 [(q_mu (vgp obj), q_sqrt (vgp obj), None)],
        show_log_likelihood lib ''vgp'']"

definition natgrads_cell_8 :: "'v gpflow \<Rightarrow> natgrads_objects \<Rightarrow> 'v world \<Rightarrow> 'v world" where
  "natgrads_cell_8 lib obj =
     statements
       [run_adam lib (gpr obj) learning_rate iterations
          (Some (Action (PrintAction_run lib (PrintAction_init (gpr obj) ''GPR with Adam''))))]"

definition natgrads_cell_9 :: "'v gpflow \<Rightarrow> natgrads_objects \<Rightarrow> 'v world \<Rightarrow> 'v world" where
  "natgrads_cell_9 lib obj =
     statements
       [run_nat_grads_with_adam lib (vgp obj) learning_rate 1 iterations None
          (Some (Action (PrintAction_run lib
                   (PrintAction_init (vgp obj) ''VGP with nat grads with Adam''))))]"

definition natgrads_cell_10 :: "'v gpflow \<Rightarrow> 'v world \<Rightarrow> 'v world" where
  "natgrads_cell_10 lib =
     statements
       [library lib ''gpr.kern.lengthscales.read_value'' [],
        library lib ''vgp.kern.lengthscales.read_value''
          [Output ''GPR lengthscales = , VGP lengthscales = '']]"

definition natgrads_cell_11 :: "'v gpflow \<Rightarrow> 'v world \<Rightarrow> 'v world" where
  "natgrads_cell_11 lib =
     statements
       [make_matern_kernel lib,
        library lib ''Gaussian'' [],
        library lib ''SVGP'' [Model ''SVGP'' ''svgp''],
        make_matern_kernel lib,
        library lib ''SGPR'' [Model ''SGPR'' ''sgpr''],
        library lib ''svgp.likelihood.variance = 0.1'' [],
        library lib ''sgpr.likelihood.variance = 0.1'' []]"

definition natgrads_cell_12 :: "'v gpflow \<Rightarrow> 'v world \<Rightarrow> 'v world" where
  "natgrads_cell_12 lib = statements [show_log_likelihood lib ''sgpr'']"

definition natgrads_cell_13 :: "'v gpflow \<Rightarrow> 'v world \<Rightarrow> 'v world" where
  "natgrads_cell_13 lib = statements [show_log_likelihood lib ''svgp'']"

definition natgrads_cell_14 :: "'v gpflow \<Rightarrow> natgrads_objects \<Rightarrow> 'v world \<Rightarrow> 'v world" where
  "natgrads_cell_14 lib obj =
     statements
       [library lib ''NatGradOptimizer()'' [Tool ''NatGradOptimizer''],
        NatGradOptimizer_minimize lib 1 (svgp obj) 1
          [(q_mu (svgp obj), q_sqrt (svgp obj), None)],
        show_log_likelihood lib ''svgp'']"

definition natgrads_cell_15 ::
  "'v gpflow \<Rightarrow> natgrads_objects \<Rightarrow> int \<Rightarrow> 'v world \<Rightarrow> 'v world" where
  "natgrads_cell_15 lib obj niter =
     statements
       [make_matern_kernel lib,
        library lib ''Gaussian'' [],
        library lib ''SVGP'' [Model ''SVGP'' ''svgp''],
        library lib ''svgp.likelihood.variance = 0.1'' [],
        library lib ''NatGradOptimizer()'' [Tool ''NatGradOptimizer''],
        library lib ''notebook_niter'' [],
        NatGradOptimizer_minimize lib 0.1 (svgp_minibatch obj) niter
          [(q_mu (svgp_minibatch obj), q_sqrt (svgp_minibatch obj), None)]]"

definition natgrads_cell_16 :: "'v gpflow \<Rightarrow> nat \<Rightarrow> 'v world \<Rightarrow> 'v world" where
  "natgrads_cell_16 lib nrange = statements [show_average_log_likelihood lib ''svgp'' nrange]"

definition natgrads_cell_17 :: "'v gpflow \<Rightarrow> 'v world \<Rightarrow> 'v world" where
  "natgrads_cell_17 lib = statements [library lib ''reset_default_graph_and_session'' []]"

definition natgrads_cell_18 :: "'v gpflow \<Rightarrow> natgrads_objects \<Rightarrow> 'v world \<Rightarrow> 'v world" where
  "natgrads_cell_18 lib obj =
     statements
       [make_matern_kernel lib,
        library lib ''Gaussian'' [],
        library lib ''SVGP'' [Model ''SVGP'' ''svgp_ordinary''],
        make_matern_kernel lib,
        library lib ''Gaussian'' [],
        library lib ''SVGP'' [Model ''SVGP'' ''svgp_nat''],
        library lib ''AdamOptimizer()'' [Tool ''AdamOptimizer''],
        AdamOptimizer_minimize lib learning_rate (svgp_ordinary obj) iterations None,
        run_nat_grads_with_adam lib (svgp_nat obj) learning_rate 0.1 iterations None None]"

definition natgrads_cell_19 :: "'v gpflow \<Rightarrow> nat \<Rightarrow> 'v world \<Rightarrow> 'v world" where
  "natgrads_cell_19 lib nrange =
     statements [show_average_log_likelihood lib ''svgp_ordinary'' nrange]"

definition natgrads_cell_20 :: "'v gpflow \<Rightarrow> nat \<Rightarrow> 'v world \<Rightarrow> 'v world" where
  "natgrads_cell_20 lib nrange =
     statements [show_average_log_likelihood lib ''svgp_nat'' nrange]"

definition natgrads_cell_21 :: "'v gpflow \<Rightarrow> 'v world \<Rightarrow> 'v world" where
  "natgrads_cell_21 lib = statements [library lib ''reset_default_graph_and_session'' []]"

definition natgrads_cell_22 :: "'v gpflow \<Rightarrow> natgrads_objects \<Rightarrow> 'v world \<Rightarrow> 'v world" where
  "natgrads_cell_22 lib obj =
     statements
       [library lib ''np.random.choice'' [],
        make_matern_kernel lib,
        library lib ''Bernoulli'' [],
        library lib ''VGP'' [Model ''VGP'' ''vgp_bernoulli''],
        make_matern_kernel lib,
        library lib ''Bernoulli'' [],
        library lib ''VGP'' [Model ''VGP'' ''vgp_bernoulli_natgrads''],
        library lib ''AdamOptimizer()'' [Tool ''AdamOptimizer''],
        AdamOptimizer_minimize lib learning_rate (vgp_bernoulli obj) iterations None,
        run_nat_grads_with_adam lib (vgp_bernoulli_natgrads obj) learning_rate 0.1 iterations
          None None]"

definition natgrads_cell_23 :: "'v gpflow \<Rightarrow> 'v world \<Rightarrow> 'v world" where
  "natgrads_cell_23 lib = statements [show_log_likelihood lib ''vgp_bernoulli'']"

definition natgrads_cell_24 :: "'v gpflow \<Rightarrow> 'v world \<Rightarrow> 'v world" where
  "natgrads_cell_24 lib = statements [show_log_likelihood lib ''vgp_bernoulli_natgrads'']"

definition natgrads_cell_25 :: "'v gpflow \<Rightarrow> natgrads_objects \<Rightarrow> 'v world \<Rightarrow> 'v world" where
  "natgrads_cell_25 lib obj =
     statements
       [make_matern_kernel lib,
        library lib ''Bernoulli'' [],
        library lib ''VGP'' [Model ''VGP'' ''vgp_bernoulli_natgrads_xi''],
        library lib ''XiSqrtMeanVar()'' [],
        run_nat_grads_with_adam lib (vgp_bernoulli_natgrads_xi obj) learning_rate 0.01 iterations
          (Some [(q_mu (vgp_bernoulli_natgrads_xi obj), q_sqrt (vgp_bernoulli_natgrads_xi obj),
                  Some XiSqrtMeanVar)])
          None]"

definition natgrads_cell_26 :: "'v gpflow \<Rightarrow> 'v world \<Rightarrow> 'v world" where
  "natgrads_cell_26 lib = statements [show_log_likelihood lib ''vgp_bernoulli_natgrads_xi'']"

text \<open>Cells 6 and 7 only define \<open>run_adam\<close> and \<open>run_nat_grads_with_adam\<close>.\<close>

definition natural_gradients ::
  "'v gpflow \<Rightarrow> natgrads_objects \<Rightarrow> int \<Rightarrow> nat \<Rightarrow> (pid \<Rightarrow> 'v parameter) \<Rightarrow> 'v world" where
  "natural_gradients lib obj niter nrange st =
     statements
       [natgrads_cell_1 lib, natgrads_cell_2 lib, natgrads_cell_3 lib, natgrads_cell_4 lib,
        natgrads_cell_5 lib obj, natgrads_cell_8 lib obj, natgrads_cell_9 lib obj,
        natgrads_cell_10 lib, natgrads_cell_11 lib, natgrads_cell_12 lib, natgrads_cell_13 lib,
        natgrads_cell_14 lib obj, natgrads_cell_15 lib obj niter, natgrads_cell_16 lib nrange,
        natgrads_cell_17 lib, natgrads_cell_18 lib obj, natgrads_cell_19 lib nrange,
        natgrads_cell_20 lib nrange, natgrads_cell_21 lib, natgrads_cell_22 lib obj,
        natgrads_cell_23 lib, natgrads_cell_24 lib, natgrads_cell_25 lib obj,
        natgrads_cell_26 lib]
       (initial st)"


section \<open>What a run may add to the trace\<close>

fun is_warning :: "event \<Rightarrow> bool" where
  "is_warning (Warning_shown msg) = True"
| "is_warning e = False"

fun is_model :: "event \<Rightarrow> bool" where
  "is_model (Model c v) = True"
| "is_model e = False"

fun is_tool :: "event \<Rightarrow> bool" where
  "is_tool (Tool c) = True"
| "is_tool e = False"

fun is_training :: "event \<Rightarrow> bool" where
  "is_training (Training c) = True"
| "is_training e = False"

fun is_output :: "event \<Rightarrow> bool" where
  "is_output (Output t) = True"
| "is_output (Print_likelihood t i l) = True"
| "is_output e = False"

text \<open>
  \<open>extends P w w'\<close>: the state \<open>w'\<close> comes from \<open>w\<close> by adding events that satisfy \<open>P\<close>,
  or warnings where they are not filtered; the filter is the same; and nothing at all
  has happened when an exception was already pending in \<open>w\<close>.
\<close>

definition extends :: "(event \<Rightarrow> bool) \<Rightarrow> 'v world \<Rightarrow> 'v world \<Rightarrow> bool" where
  "extends P w w' =
     ((\<exists>es. events w' = events w @ es
            \<and> list_all (\<lambda>e. P e \<or> (warnings w = Default_filter \<and> is_warning e)) es)
      \<and> warnings w' = warnings w
      \<and> (failed w \<noteq> None \<longrightarrow> w' = w))"

text \<open>\<open>precedes P Q es\<close>: no event \<open>Q\<close> occurs in \<open>es\<close> before the first event \<open>P\<close>.\<close>

fun precedes :: "(event \<Rightarrow> bool) \<Rightarrow> (event \<Rightarrow> bool) \<Rightarrow> event list \<Rightarrow> bool" where
  "precedes P Q [] = True"
| "precedes P Q (e # es) = (P e \<or> (\<not> Q e \<and> precedes P Q es))"

fun warnings_shown :: "event list \<Rightarrow> string list" where
  "warnings_shown [] = []"
| "warnings_shown (Warning_shown msg # es) = msg # warnings_shown es"
| "warnings_shown (e # es) = warnings_shown es"

fun restores :: "event list \<Rightarrow> string list" where
  "restores [] = []"
| "restores (Restore d # es) = d # restores es"
| "restores (e # es) = restores es"

text \<open>What a monitor task may add to the trace when it runs.\<close>

fun task_events :: "'x task_kind \<Rightarrow> event list" where
  "task_events PrintTimingsTask = [Output ''Iteration'']"
| "task_events (SleepTask seconds) = []"
| "task_events (CheckpointTask dir) = []"
| "task_events (ModelToTensorBoardTask fw m) = []"
| "task_events (LmlToTensorBoardTask fw m) = [Output ''progress bar'']"
| "task_events (Custom_task self) = []"

text \<open>
  The events of monitor-tensorboard: no restore but from \<^verbatim>\<open>./monitor-saves\<close> when that
  directory exists, and no line of \<open>PrintAction\<close>, which this notebook does not have.
\<close>

fun monitor_event :: "(string \<Rightarrow> bool) \<Rightarrow> event \<Rightarrow> bool" where
  "monitor_event isdir (Restore d) = (d = ''./monitor-saves'' \<and> isdir d)"
| "monitor_event isdir (Warning_shown msg) = False"
| "monitor_event isdir (Print_likelihood t i l) = False"
| "monitor_event isdir e = True"

text \<open>The events of natural gradients after its first cell: no restore, no warning.\<close>

fun natgrads_event :: "event \<Rightarrow> bool" where
  "natgrads_event (Restore d) = False"
| "natgrads_event (Warning_shown msg) = False"
| "natgrads_event e = True"

text \<open>
  \<open>grows P w w'\<close>: as \<open>extends\<close>, but warnings may be added whatever the filter, and the
  filter may change.
\<close>

definition grows :: "(event \<Rightarrow> bool) \<Rightarrow> 'v world \<Rightarrow> 'v world \<Rightarrow> bool" where
  "grows P w w' =
     ((\<exists>es. events w' = events w @ es \<and> list_all (\<lambda>e. P e \<or> is_warning e) es)
      \<and> (failed w \<noteq> None \<longrightarrow> w' = w))"

section \<open>Runs in which the library raises nothing\<close>

definition never_raises :: "'v gpflow \<Rightarrow> bool" where
  "never_raises lib =
     ((\<forall>lr i vars st. \<not> isl (snd (adam_step lib lr i vars st)))
      \<and> (\<forall>gamma i vl st. \<not> isl (snd (natgrad_step lib gamma i vl st)))
      \<and> (\<forall>n ps st. \<not> isl (snd (likelihood_tensor lib n ps st)))
      \<and> (\<forall>c st. \<not> isl (snd (api lib c st))))"

definition predicts :: "((pid \<Rightarrow> 'v parameter) \<Rightarrow> ('m, 'x) library) \<Rightarrow> bool" where
  "predicts predictor =
     ((\<forall>st m xs. \<not> isl (predict_y (predictor st) m xs))
      \<and> (\<forall>st ys ps. \<not> isl (np_rmse (predictor st) ys ps)))"

text \<open>
  A statement completes when it raises nothing where nothing was raised before; \<open>T\<close> is
  a set of parameters that are trainable before and still trainable after, so that an
  optimiser of Adam built for a model with a parameter in \<open>T\<close> has a variable to optimise.
  The library keeps them trainable when none of its calls clears their flag.
\<close>

definition all_trainable :: "pid set \<Rightarrow> (pid \<Rightarrow> 'v parameter) \<Rightarrow> bool" where
  "all_trainable T st = (\<forall>p\<in>T. trainable (st p))"

definition completes :: "pid set \<Rightarrow> ('v world \<Rightarrow> 'v world) \<Rightarrow> bool" where
  "completes T f =
     (\<forall>u. failed u = None \<and> all_trainable T (store u)
          \<longrightarrow> failed (f u) = None \<and> all_trainable T (store (f u)))"

definition keeps_trainable :: "'v gpflow \<Rightarrow> pid set \<Rightarrow> bool" where
  "keeps_trainable lib T =
     (\<forall>c st st'. all_trainable T st \<and> snd (api lib c st) = Inr st' \<longrightarrow> all_trainable T st')"

text \<open>
  What the completion of natural gradients needs of the model objects: every model given
  to Adam has a parameter in \<open>T\<close>, and \<open>q_mu\<close> and \<open>q_sqrt\<close> of the models given to
  \<open>run_nat_grads_with_adam\<close> are not in \<open>T\<close>.
\<close>

definition hyperparameters_in :: "natgrads_objects \<Rightarrow> pid set \<Rightarrow> bool" where
  "hyperparameters_in obj T =
     (set (parameters (gpr obj)) \<inter> T \<noteq> {}
      \<and> set (parameters (svgp_ordinary obj)) \<inter> T \<noteq> {}
      \<and> set (parameters (vgp_bernoulli obj)) \<inter> T \<noteq> {}
      \<and> list_all (\<lambda>m. set (parameters m) \<inter> T \<noteq> {} \<and> q_mu m \<notin> T \<and> q_sqrt m \<notin> T)
            [vgp obj, svgp_nat obj, vgp_bernoulli_natgrads obj, vgp_bernoulli_natgrads_xi obj])"

text \<open>
  \<open>surfaces w w'\<close>: going from \<open>w\<close> to \<open>w'\<close>, an exception that the library has raised is
  the exception the run ends with, and nothing was raised after it; and nothing at all
  has happened when an exception was already pending in \<open>w\<close>.
\<close>

definition surfaces :: "'v world \<Rightarrow> 'v world \<Rightarrow> bool" where
  "surfaces w w' =
     ((failed w = None \<longrightarrow>
         raised w' = raised w @ (case failed w' of None \<Rightarrow> [] | Some e \<Rightarrow> [e]))
      \<and> (failed w \<noteq> None \<longrightarrow> w' = w))"

text \<open>An action keeps a property of the store when every run of it does.\<close>

definition keeps :: "'v gpflow \<Rightarrow> ((pid \<Rightarrow> 'v parameter) \<Rightarrow> bool) \<Rightarrow> 'v action \<Rightarrow> bool" where
  "keeps lib J a = (\<forall>i u. J (store u) \<longrightarrow> J (store (run_action lib a i u)))"

section \<open>A small library, model and state to run the definitions on\<close>

definition lib0 :: "int gpflow" where
  "lib0 = \<lparr>adam_step = \<lambda>lr i vars st. ([], Inr (\<lambda>p. pvalue (st p) + 1)),
           natgrad_step = \<lambda>gamma i vl st. ([], Inr (\<lambda>p. pvalue (st p) + 10)),
           likelihood_tensor = \<lambda>n ps st. ([], Inr 0),
           api = \<lambda>c st. ([], Inr st),
           session_global_step = \<lambda>st. 0,
           float32 = \<lambda>x. x\<rparr>"

definition vgp0 :: variational_model where
  "vgp0 = \<lparr>name = ''vgp'', parameters = [0, 1, 2], q_mu = 0, q_sqrt = 1\<rparr>"

definition world0 :: "int world" where
  "world0 = \<lparr>store = \<lambda>p. \<lparr>pvalue = 0, trainable = True\<rparr>, events = [], failed = None,
         raised = [], warnings = Default_filter\<rparr>"

definition store0 :: "pid \<Rightarrow> int parameter" where
  "store0 = (\<lambda>p. \<lparr>pvalue = 0, trainable = True\<rparr>)"

definition svgp0 :: gp_model where
  "svgp0 = \<lparr>name = ''SVGP'', parameters = [0, 1, 2]\<rparr>"

definition predictor0 :: "(pid \<Rightarrow> int parameter) \<Rightarrow> (gp_model, nat) library" where
  "predictor0 = (\<lambda>st. \<lparr>predict_y = \<lambda>m xs. Inr (map real xs, map real xs),
                        np_rmse = \<lambda>ys ps. Inr 0\<rparr>)"

definition globals0 :: "nat globals" where
  "globals0 = \<lparr>global_Xt = [0, 1, 2], global_Yt = [0, 1, 2]\<rparr>"

definition objects0 :: natgrads_objects where
  "objects0 = \<lparr>vgp = vgp0, gpr = svgp0, svgp = vgp0, sgpr = svgp0, svgp_minibatch = vgp0,
                svgp_ordinary = vgp0, svgp_nat = vgp0, vgp_bernoulli = vgp0,
                vgp_bernoulli_natgrads = vgp0, vgp_bernoulli_natgrads_xi = vgp0\<rparr>"

text \<open>A library whose constructor of \<^verbatim>\<open>VGP\<close> issues a warning.\<close>

definition lib_warning :: "int gpflow" where
  "lib_warning = lib0\<lparr>api := \<lambda>c st. (if c = ''VGP'' then [''deprecated''] else [], Inr st)\<rparr>"

text \<open>The notebook monitor-tensorboard up to the \<^verbatim>\<open>with\<close> block of cell 9.\<close>

definition monitor_before_training ::
  "'v gpflow \<Rightarrow> (string \<Rightarrow> bool) \<Rightarrow> (pid \<Rightarrow> 'v parameter) \<Rightarrow> 'v world" where
  "monitor_before_training lib isdir st =
     statements
       [monitor_cell_1 lib, monitor_cell_2 lib, monitor_cell_3 lib, monitor_cell_4 lib,
        monitor_cell_5 lib, monitor_cell_6 lib, monitor_cell_7 lib, monitor_cell_8 lib isdir,
        library lib ''AdamOptimizer()'' [Tool ''AdamOptimizer''],
        library lib ''Monitor()'' [Tool ''Monitor'']]
       (initial st)"

text \<open>Natural gradients up to its first call of \<^verbatim>\<open>minimize\<close>, in cell 5.\<close>

definition natgrads_before_training ::
  "'v gpflow \<Rightarrow> (pid \<Rightarrow> 'v parameter) \<Rightarrow> 'v world" where
  "natgrads_before_training lib st =
     statements
       [natgrads_cell_1 lib, natgrads_cell_2 lib, natgrads_cell_3 lib, natgrads_cell_4 lib,
        library lib ''NatGradOptimizer()'' [Tool ''NatGradOptimizer'']]
       (initial st)"






text \<open>
  A model whose only parameters are \<open>q_mu\<close> and \<open>q_sqrt\<close>, and a callback whose
  \<^verbatim>\<open>run\<close> is \<^verbatim>\<open>model.q_mu.set_trainable(True)\<close>.
\<close>

definition vgp_only :: variational_model where
  "vgp_only = \<lparr>name = ''vgp'', parameters = [0, 1], q_mu = 0, q_sqrt = 1\<rparr>"

definition unfreeze :: "int action" where
  "unfreeze = Action (\<lambda>i. set_trainable (q_mu vgp0) True)"


section \<open>The minibatches of \<open>CustomTensorBoardTask.run\<close>\<close>

lemma n_minibatches_nat: "n_minibatches xt = int ((length xt + 99) div 100)"
  unfolding n_minibatches_def py_floordiv_def minibatch_size_def by linarith








lemma n_minibatches_pos: "xt \<noteq> [] \<Longrightarrow> 0 < (length xt + 99) div 100"
  by (simp add: div_greater_zero_iff Suc_le_eq)






section \<open>What \<open>CustomTensorBoardTask.run\<close> reads\<close>

text \<open>
  C9. The summary \<open>run\<close> writes does not depend on the \<open>Xt\<close> and \<open>Yt\<close> given to the
  constructor: two instances built with different test arrays and run in the same
  notebook state (same globals, same library, same monitor context) log the same
  values, and no later assignment to \<open>self.Xt\<close> or \<open>self.Yt\<close> changes them either.
\<close>

theorem run_independent_of_constructor_arrays:
  "CustomTensorBoardTask_run lib g (CustomTensorBoardTask_init fw m xt1 yt1) context
     = CustomTensorBoardTask_run lib g (CustomTensorBoardTask_init fw m xt2 yt2) context
   \<and> CustomTensorBoardTask_run lib g (self\<lparr>Xt := xt, Yt := yt\<rparr>) context
     = CustomTensorBoardTask_run lib g self context"
  by (simp add: CustomTensorBoardTask_run_def CustomTensorBoardTask_init_def eval_summary_def
      cong: sum.case_cong)

section \<open>The state: what each primitive changes\<close>

lemma statements_simps:
  "statements [] w = w" "statements (f # fs) w = statements fs (f w)"
  by (simp_all add: statements_def)

lemma statements_append: "statements (fs @ gs) w = statements gs (statements fs w)"
  by (simp add: statements_def)

lemma emit_simps [simp]:
  "store (emit es w) = store w" "failed (emit es w) = failed w"
  "warnings (emit es w) = warnings w" "events (emit es w) = events w @ es"
  "raised (emit es w) = raised w"
  by (simp_all add: emit_def)

lemma show_warnings_simps [simp]:
  "store (show_warnings msgs w) = store w" "failed (show_warnings msgs w) = failed w"
  "warnings (show_warnings msgs w) = warnings w" "raised (show_warnings msgs w) = raised w"
  by (simp_all add: show_warnings_def split: warning_filter.splits)

lemma show_warnings_Nil [simp]: "show_warnings [] w = w"
  by (cases w) (simp add: show_warnings_def emit_def split: warning_filter.splits)

lemma raise_exn_simps [simp]:
  "store (raise_exn e w) = store w" "failed (raise_exn e w) = Some e"
  "warnings (raise_exn e w) = warnings w" "events (raise_exn e w) = events w"
  "raised (raise_exn e w) = raised w @ [e]"
  by (simp_all add: raise_exn_def)

lemma assign_simps [simp]:
  "failed (assign vars new w) = failed w" "events (assign vars new w) = events w"
  "warnings (assign vars new w) = warnings w" "raised (assign vars new w) = raised w"
  "trainable (store (assign vars new w) p) = trainable (store w p)"
  "p \<notin> set vars \<Longrightarrow> store (assign vars new w) p = store w p"
  by (simp_all add: assign_def)

lemma set_trainable_simps [simp]:
  "failed (set_trainable p b w) = failed w" "events (set_trainable p b w) = events w"
  "warnings (set_trainable p b w) = warnings w" "raised (set_trainable p b w) = raised w"
  "trainable (store (set_trainable p b w) q) = (if q = p then b else trainable (store w q))"
  "pvalue (store (set_trainable p b w) q) = pvalue (store w q)"
  by (simp_all add: set_trainable_def)

lemma stmt_anchor [simp]: "stmt (anchor m) w = w"
  by (simp add: stmt_def anchor_def)

text \<open>A property of the store that the continuation keeps is kept by the call.\<close>

lemma lib_call_store:
  assumes "\<And>x u. J (store u) \<Longrightarrow> J (store (cont x u))" and "J (store w)"
  shows "J (store (lib_call call cont w))"
  using assms by (auto simp: lib_call_def Let_def split: prod.splits sum.splits)

lemma stmt_store:
  assumes "\<And>u. J (store u) \<Longrightarrow> J (store (f u))" and "J (store w)"
  shows "J (store (stmt f w))"
  using assms by (simp add: stmt_def)

lemma run_actions_store:
  assumes "\<And>a. a \<in> set actions \<Longrightarrow> keeps lib J a" and "J (store w)"
  shows "J (store (run_actions lib actions i w))"
  using assms by (induction actions arbitrary: w) (auto simp: keeps_def)

lemma iterate_store:
  assumes "\<And>a. a \<in> set actions \<Longrightarrow> keeps lib J a" and "J (store w)"
  shows "J (store (iterate lib actions n w))"
proof -
  have "J (store (foldl (\<lambda>w i. run_actions lib actions i w) w is))" for "is"
    using assms(2)
  proof (induction "is" arbitrary: w)
    case Nil
    then show ?case by simp
  next
    case (Cons i "is")
    have "J (store (run_actions lib actions i w))"
      using assms(1) Cons.prems by (rule run_actions_store)
    then show ?case using Cons.IH by simp
  qed
  then show ?thesis by (simp add: iterate_def)
qed

lemma Loop_store:
  assumes "\<And>a. a \<in> set actions \<Longrightarrow> keeps lib J a" and "J (store w)"
  shows "J (store (Loop lib actions n w))"
  unfolding Loop_def
proof (rule iterate_store)
  show "keeps lib J a" if "a \<in> set actions" for a using that by (rule assms(1))
  show "J (store (stmt (emit [Training ''Loop'']) w))" using assms(2) by (simp add: stmt_def)
qed

text \<open>A step changes no trainable flag, and a step of Adam changes only its variables.\<close>

lemma keeps_Adam: "keeps lib (\<lambda>st. \<not> trainable (st p)) (Adam_action lr vars)"
  unfolding keeps_def
proof (intro allI impI)
  fix i and u :: "'a world"
  assume "\<not> trainable (store u p)"
  then have "\<not> trainable (store (lib_call (\<lambda>w. adam_step lib lr i vars (store w)) (assign vars) u) p)"
    by (rule lib_call_store [where J = "\<lambda>st. \<not> trainable (st p)", rotated]) simp
  then show "\<not> trainable (store (run_action lib (Adam_action lr vars) i u) p)" by simp
qed

lemma keeps_NatGrad: "keeps lib (\<lambda>st. \<not> trainable (st p)) (NatGrad_action g vl)"
  unfolding keeps_def
proof (intro allI impI)
  fix i and u :: "'a world"
  assume "\<not> trainable (store u p)"
  then have "\<not> trainable (store (lib_call (\<lambda>w. natgrad_step lib g i vl (store w))
      (assign (natgrad_vars vl)) u) p)"
    by (rule lib_call_store [where J = "\<lambda>st. \<not> trainable (st p)", rotated]) simp
  then show "\<not> trainable (store (run_action lib (NatGrad_action g vl) i u) p)" by simp
qed

lemma Adam_frame:
  assumes "p \<notin> set vars"
  shows "store (run_action lib (Adam_action lr vars) i u) p = store u p"
proof -
  define v where "v = store u p"
  have "store (lib_call (\<lambda>w. adam_step lib lr i vars (store w)) (assign vars) u) p = v"
  proof (rule lib_call_store [where J = "\<lambda>st. st p = v"])
    show "store (assign vars x ua) p = v" if "store ua p = v" for x and ua :: "'a world"
      using that assms by simp
    show "store u p = v" by (simp add: v_def)
  qed
  then show ?thesis by (simp add: v_def)
qed

lemma keeps_Adam_frame:
  assumes "a \<notin> set vars" and "b \<notin> set vars"
  shows "keeps lib (\<lambda>st. Q (st a) (st b)) (Adam_action lr vars)"
  unfolding keeps_def using assms by (simp only: Adam_frame simp_thms)

lemma PrintAction_run_store: "store (PrintAction_run lib self i u) = store u"
proof -
  define st where "st = store u"
  have "store (lib_call
      (\<lambda>w. likelihood_tensor lib (name (model self)) (parameters (model self)) (store w))
      (\<lambda>likelihood. emit [Print_likelihood (text' self) i likelihood]) u) = st"
    by (rule lib_call_store [where J = "\<lambda>s. s = st"]) (simp_all add: st_def)
  then show ?thesis by (simp add: PrintAction_run_def st_def)
qed

lemma keeps_PrintAction: "keeps lib J (Action (PrintAction_run lib self))"
  by (simp add: keeps_def stmt_def PrintAction_run_store)

text \<open>\<open>run_nat_grads_with_adam\<close>, unfolded: what it builds and what it runs.\<close>

lemma run_nat_grads_with_adam_eq:
  assumes "failed w = None"
  shows "run_nat_grads_with_adam lib m lr gamma n var_list callback w =
     (let vl = (case var_list of None \<Rightarrow> [(q_mu m, q_sqrt m, None)] | Some vl \<Rightarrow> vl);
          vars = filter (\<lambda>p. trainable (store w p) \<and> p \<noteq> q_mu m \<and> p \<noteq> q_sqrt m) (parameters m);
          w1 = emit [Tool ''AdamOptimizer'']
                 (set_trainable (q_sqrt m) False (set_trainable (q_mu m) False w))
      in if vars = [] then raise_exn ValueError w1
         else stmt (anchor m)
                (Loop lib
                   (Adam_action lr vars # NatGrad_action gamma vl
                      # (case callback of None \<Rightarrow> [] | Some cb \<Rightarrow> [cb]))
                   n (emit [Tool ''NatGradOptimizer''] w1)))"
proof -
  have "filter (\<lambda>p. trainable (store (emit [Tool ''AdamOptimizer'']
            (set_trainable (q_sqrt m) False (set_trainable (q_mu m) False w))) p)) (parameters m)
        = filter (\<lambda>p. trainable (store w p) \<and> p \<noteq> q_mu m \<and> p \<noteq> q_sqrt m) (parameters m)"
    by (rule filter_cong) auto
  then show ?thesis
    using assms
    by (simp add: run_nat_grads_with_adam_def AdamOptimizer_make_optimize_action_def
        NatGradOptimizer_make_optimize_action_def Let_def stmt_def lib_call_def anchor_def
        statements_simps split: option.splits)
qed

text \<open>
  C4, as the function runs. Called in a run that has not failed,
  \<open>run_nat_grads_with_adam\<close> sets \<open>q_mu\<close> and \<open>q_sqrt\<close> of the model to non-trainable
  before it asks Adam for its optimise action, with or without a \<^verbatim>\<open>var_list\<close> from the
  caller. If the model then has no trainable parameter, that call raises \<^verbatim>\<open>ValueError\<close>
  and nothing is optimised. Otherwise what the function runs is the loop over the Adam
  action for the other trainable parameters, the natural-gradient action on the
  \<^verbatim>\<open>var_list\<close>, and the callback if there is one. No step of that Adam action changes
  \<open>q_mu\<close> or \<open>q_sqrt\<close>, and whatever the library's Adam does, a property \<open>Q\<close> of the two
  values that the natural-gradient action and the callback keep holds on return if it
  held at the call. The function never sets the two flags back: they are non-trainable
  when it returns or raises, if the callback keeps them so, as a \<open>PrintAction\<close> and no
  callback do.
\<close>

theorem run_nat_grads_with_adam_freezes:
  fixes w :: "'v world" and m :: "'a variational_model_scheme"
    and print_action :: "'b PrintAction option"
  assumes run: "failed w = None"
  shows "let vl = (case var_list of None \<Rightarrow> [(q_mu m, q_sqrt m, None)] | Some vl \<Rightarrow> vl);
             vars = filter (\<lambda>p. trainable (store w p) \<and> p \<noteq> q_mu m \<and> p \<noteq> q_sqrt m)
                      (parameters m);
             w1 = emit [Tool ''AdamOptimizer'']
                    (set_trainable (q_sqrt m) False (set_trainable (q_mu m) False w));
             final = run_nat_grads_with_adam lib m lr gamma n var_list callback w
         in final =
              (if vars = [] then raise_exn ValueError w1
               else stmt (anchor m)
                      (Loop lib
                         (Adam_action lr vars # NatGrad_action gamma vl
                            # (case callback of None \<Rightarrow> [] | Some cb \<Rightarrow> [cb]))
                         n (emit [Tool ''NatGradOptimizer''] w1)))
          \<and> q_mu m \<notin> set vars \<and> q_sqrt m \<notin> set vars
          \<and> (\<forall>i u. store (run_action lib (Adam_action lr vars) i u) (q_mu m) = store u (q_mu m)
                  \<and> store (run_action lib (Adam_action lr vars) i u) (q_sqrt m)
                      = store u (q_sqrt m))
          \<and> (Q (pvalue (store w (q_mu m))) (pvalue (store w (q_sqrt m)))
               \<and> keeps lib (\<lambda>st. Q (pvalue (st (q_mu m))) (pvalue (st (q_sqrt m))))
                   (NatGrad_action gamma vl)
               \<and> (\<forall>cb. callback = Some cb \<longrightarrow>
                     keeps lib (\<lambda>st. Q (pvalue (st (q_mu m))) (pvalue (st (q_sqrt m)))) cb)
             \<longrightarrow> Q (pvalue (store final (q_mu m))) (pvalue (store final (q_sqrt m))))
          \<and> ((\<forall>cb. callback = Some cb \<longrightarrow>
                  keeps lib (\<lambda>st. \<not> trainable (st (q_mu m))) cb
                \<and> keeps lib (\<lambda>st. \<not> trainable (st (q_sqrt m))) cb)
             \<longrightarrow> \<not> trainable (store final (q_mu m)) \<and> \<not> trainable (store final (q_sqrt m)))
          \<and> \<not> trainable (store (run_nat_grads_with_adam lib m lr gamma n var_list
                  (map_option (\<lambda>self. Action (PrintAction_run lib self)) print_action) w) (q_mu m))
          \<and> \<not> trainable (store (run_nat_grads_with_adam lib m lr gamma n var_list
                  (map_option (\<lambda>self. Action (PrintAction_run lib self)) print_action) w) (q_sqrt m))"
proof -
  define vl where "vl = (case var_list of None \<Rightarrow> [(q_mu m, q_sqrt m, None)] | Some vl \<Rightarrow> vl)"
  define vars where
    "vars = filter (\<lambda>p. trainable (store w p) \<and> p \<noteq> q_mu m \<and> p \<noteq> q_sqrt m) (parameters m)"
  define w1 where "w1 = emit [Tool ''AdamOptimizer'']
      (set_trainable (q_sqrt m) False (set_trainable (q_mu m) False w))"
  define actions where "actions = (\<lambda>callback :: 'v action option.
      Adam_action lr vars # NatGrad_action gamma vl # (case callback of None \<Rightarrow> [] | Some cb \<Rightarrow> [cb]))"
  define final where "final = (\<lambda>callback. run_nat_grads_with_adam lib m lr gamma n var_list callback w)"
  have eq: "final cb = (if vars = [] then raise_exn ValueError w1
      else stmt (anchor m) (Loop lib (actions cb) n (emit [Tool ''NatGradOptimizer''] w1)))" for cb
    using run_nat_grads_with_adam_eq [OF run, of lib m lr gamma n var_list cb]
    by (simp only: final_def vl_def vars_def w1_def actions_def Let_def)
  have notin: "q_mu m \<notin> set vars" "q_sqrt m \<notin> set vars" by (simp_all add: vars_def)
  have frame: "store (run_action lib (Adam_action lr vars) i u) (q_mu m) = store u (q_mu m)
      \<and> store (run_action lib (Adam_action lr vars) i u) (q_sqrt m) = store u (q_sqrt m)"
    for i and u :: "'v world"
    using notin by (simp only: Adam_frame simp_thms)
  \<comment> \<open>a property of the store that holds after the two flags are set and that the
      natural-gradient action and the callback keep, holds at the end\<close>
  have inv: "J (store (final cb))"
    if J1: "J (store w1)" and JA: "keeps lib J (Adam_action lr vars)"
      and JN: "keeps lib J (NatGrad_action gamma vl)"
      and JC: "\<And>c. cb = Some c \<Longrightarrow> keeps lib J c"
    for J and cb :: "'v action option"
  proof (cases "vars = []")
    case True
    with J1 show ?thesis by (simp add: eq)
  next
    case False
    have "keeps lib J a" if "a \<in> set (actions cb)" for a
      using that JA JN JC by (auto simp: actions_def split: option.splits)
    moreover have "J (store (emit [Tool ''NatGradOptimizer''] w1))" using J1 by simp
    ultimately have "J (store (Loop lib (actions cb) n (emit [Tool ''NatGradOptimizer''] w1)))"
      by (rule Loop_store)
    with False show ?thesis by (simp add: eq)
  qed
  have vals: "Q (pvalue (store (final callback) (q_mu m))) (pvalue (store (final callback) (q_sqrt m)))"
    if Q0: "Q (pvalue (store w (q_mu m))) (pvalue (store w (q_sqrt m)))"
      and QN: "keeps lib (\<lambda>st. Q (pvalue (st (q_mu m))) (pvalue (st (q_sqrt m)))) (NatGrad_action gamma vl)"
      and QC: "\<forall>cb. callback = Some cb \<longrightarrow>
        keeps lib (\<lambda>st. Q (pvalue (st (q_mu m))) (pvalue (st (q_sqrt m)))) cb"
  proof (rule inv [where J = "\<lambda>st. Q (pvalue (st (q_mu m))) (pvalue (st (q_sqrt m)))"])
    show "Q (pvalue (store w1 (q_mu m))) (pvalue (store w1 (q_sqrt m)))"
      using Q0 by (simp add: w1_def)
    show "keeps lib (\<lambda>st. Q (pvalue (st (q_mu m))) (pvalue (st (q_sqrt m)))) (Adam_action lr vars)"
      using notin
      by (rule keeps_Adam_frame [where Q = "\<lambda>a b. Q (pvalue a) (pvalue b)"])
    show "keeps lib (\<lambda>st. Q (pvalue (st (q_mu m))) (pvalue (st (q_sqrt m)))) (NatGrad_action gamma vl)"
      by (rule QN)
    show "keeps lib (\<lambda>st. Q (pvalue (st (q_mu m))) (pvalue (st (q_sqrt m)))) c"
      if "callback = Some c" for c
      using that QC by blast
  qed
  have frozen: "\<not> trainable (store (final cb) p)"
    if p: "p = q_mu m \<or> p = q_sqrt m" and c: "\<And>c. cb = Some c \<Longrightarrow> keeps lib (\<lambda>st. \<not> trainable (st p)) c"
    for p and cb :: "'v action option"
  proof (rule inv [where J = "\<lambda>st. \<not> trainable (st p)"])
    show "\<not> trainable (store w1 p)" using p by (auto simp: w1_def)
    show "keeps lib (\<lambda>st. \<not> trainable (st p)) (Adam_action lr vars)" by (rule keeps_Adam)
    show "keeps lib (\<lambda>st. \<not> trainable (st p)) (NatGrad_action gamma vl)" by (rule keeps_NatGrad)
    show "keeps lib (\<lambda>st. \<not> trainable (st p)) c'" if "cb = Some c'" for c'
      using that by (rule c)
  qed
  have persists: "\<not> trainable (store (final callback) (q_mu m))
      \<and> \<not> trainable (store (final callback) (q_sqrt m))"
    if "\<forall>cb. callback = Some cb \<longrightarrow>
        keeps lib (\<lambda>st. \<not> trainable (st (q_mu m))) cb
      \<and> keeps lib (\<lambda>st. \<not> trainable (st (q_sqrt m))) cb"
    using that by (simp add: frozen)
  have printing: "\<not> trainable (store (final
      (map_option (\<lambda>self. Action (PrintAction_run lib self)) print_action)) p)"
    if "p = q_mu m \<or> p = q_sqrt m" for p
    using that by (rule frozen) (auto simp: keeps_PrintAction)
  show ?thesis
    unfolding Let_def
    using eq [of callback] notin frame vals persists printing
    unfolding final_def vl_def vars_def w1_def actions_def
    by blast
qed

theorem run_nat_grads_with_adam_freezes_witness:
  "failed world0 = None
   \<and> map (store (run_nat_grads_with_adam lib0 vgp0 0.01 0.1 2 (Some [(0, 1, Some XiSqrtMeanVar)])
                  (Some (Action (PrintAction_run lib0 (PrintAction_init vgp0 ''VGP'')))) world0))
         [0, 1, 2]
       = [\<lparr>pvalue = 20, trainable = False\<rparr>, \<lparr>pvalue = 20, trainable = False\<rparr>,
          \<lparr>pvalue = 2, trainable = True\<rparr>]
   \<and> \<not> trainable (store (run_nat_grads_with_adam lib0 vgp0 0.01 0.1 2
                            (Some [(0, 1, Some XiSqrtMeanVar)])
                            (Some (Action (PrintAction_run lib0 (PrintAction_init vgp0 ''VGP'')))) world0)
                     (q_mu vgp0))
   \<and> pvalue (store (run_nat_grads_with_adam lib0 vgp0 0.01 0.1 2
                            (Some [(0, 1, Some XiSqrtMeanVar)])
                            (Some (Action (PrintAction_run lib0 (PrintAction_init vgp0 ''VGP'')))) world0)
                     (q_mu vgp0)) mod 10 = 0
   \<and> run_nat_grads_with_adam lib0 vgp_only 0.01 0.1 2 None None world0
       = raise_exn ValueError (emit [Tool ''AdamOptimizer'']
           (set_trainable 1 False (set_trainable 0 False world0)))"
proof -
  let ?cb = "Action (PrintAction_run lib0 (PrintAction_init vgp0 ''VGP''))"
  let ?vl = "[(0, 1, Some XiSqrtMeanVar)] :: var_entry list"
  let ?J = "\<lambda>st :: pid \<Rightarrow> int parameter. pvalue (st (q_mu vgp0)) mod 10 = 0 \<and> pvalue (st (q_sqrt vgp0)) mod 10 = 0"
  let ?final = "run_nat_grads_with_adam lib0 vgp0 0.01 0.1 2 (Some ?vl) (Some ?cb) world0"
  have run: "failed world0 = None" by (simp add: world0_def)
  have Q0: "pvalue (store world0 (q_mu vgp0)) mod 10 = 0 \<and> pvalue (store world0 (q_sqrt vgp0)) mod 10 = 0"
    by (simp add: world0_def)
  have QN: "keeps lib0 ?J (NatGrad_action 0.1 ?vl)"
    by (simp add: keeps_def lib_call_def lib0_def natgrad_vars_def vgp0_def assign_def)
  have QC: "\<forall>cb. Some ?cb = Some cb \<longrightarrow> keeps lib0 ?J cb"
    by (simp add: keeps_PrintAction)
  have TC: "\<forall>cb. Some ?cb = Some cb \<longrightarrow>
      keeps lib0 (\<lambda>st. \<not> trainable (st (q_mu vgp0))) cb
    \<and> keeps lib0 (\<lambda>st. \<not> trainable (st (q_sqrt vgp0))) cb"
    by (simp add: keeps_PrintAction)
  note inst = run_nat_grads_with_adam_freezes
    [where w = world0 and callback = "Some ?cb" and m = vgp0 and lib = lib0 and lr = "0.01"
      and gamma = "0.1" and var_list = "Some ?vl" and n = 2
      and Q = "\<lambda>a b. a mod 10 = 0 \<and> b mod 10 = 0"
      and print_action = "None :: unit PrintAction option",
      OF run, unfolded Let_def option.case]
  from inst Q0 QN QC have vals: "pvalue (store ?final (q_mu vgp0)) mod 10 = 0"
    by blast
  from inst TC have frozen: "\<not> trainable (store ?final (q_mu vgp0))"
    by blast
  have explicit: "map (store ?final) [0, 1, 2]
       = [\<lparr>pvalue = 20, trainable = False\<rparr>, \<lparr>pvalue = 20, trainable = False\<rparr>,
          \<lparr>pvalue = 2, trainable = True\<rparr>]"
    by (simp add: run_nat_grads_with_adam_def lib0_def vgp0_def statements_simps
        world0_def Loop_def iterate_def upt_rec Let_def stmt_def lib_call_def emit_def
        show_warnings_def set_trainable_def AdamOptimizer_make_optimize_action_def
        NatGradOptimizer_make_optimize_action_def assign_def natgrad_vars_def anchor_def
        PrintAction_run_def PrintAction_init_def)
  have "run_nat_grads_with_adam lib0 vgp_only 0.01 0.1 2 None None world0
       = raise_exn ValueError (emit [Tool ''AdamOptimizer'']
           (set_trainable 1 False (set_trainable 0 False world0)))"
    using run_nat_grads_with_adam_freezes
      [where w = world0 and callback = None and m = vgp_only and lib = lib0 and lr = "0.01"
        and gamma = "0.1" and var_list = None and n = 2
        and print_action = "None :: unit PrintAction option", OF run, unfolded Let_def]
    by (simp add: vgp_only_def)
  with run vals frozen explicit show ?thesis by simp
qed

text \<open>
  C4 as claimed fails where it says that the setting persists after the function
  returns, whatever the caller passes: with a callback whose \<^verbatim>\<open>run\<close> is
  \<^verbatim>\<open>model.q_mu.set_trainable(True)\<close> the function returns and \<open>q_mu\<close> is trainable. And
  for a model whose only parameters are \<open>q_mu\<close> and \<open>q_sqrt\<close> no Adam action is built at
  all: the function raises \<^verbatim>\<open>ValueError\<close> before any loop, after the optimiser of Adam
  has been constructed.
\<close>

theorem callback_can_unfreeze:
  "failed (run_nat_grads_with_adam lib0 vgp0 0.01 0.1 2 None (Some unfreeze) world0) = None
   \<and> trainable (store (run_nat_grads_with_adam lib0 vgp0 0.01 0.1 2 None (Some unfreeze) world0)
        (q_mu vgp0))
   \<and> failed (run_nat_grads_with_adam lib0 vgp_only 0.01 0.1 2 None None world0) = Some ValueError
   \<and> events (run_nat_grads_with_adam lib0 vgp_only 0.01 0.1 2 None None world0)
       = [Tool ''AdamOptimizer'']"
  by (simp add: run_nat_grads_with_adam_def lib0_def vgp0_def vgp_only_def unfreeze_def
      statements_simps world0_def Loop_def iterate_def upt_rec Let_def stmt_def lib_call_def emit_def
      show_warnings_def set_trainable_def AdamOptimizer_make_optimize_action_def
      NatGradOptimizer_make_optimize_action_def assign_def natgrad_vars_def anchor_def
      raise_exn_def)

section \<open>The trace: what each primitive adds\<close>

lemma extendsI:
  assumes "events w' = events w @ es"
    and "list_all (\<lambda>e. P e \<or> (warnings w = Default_filter \<and> is_warning e)) es"
    and "warnings w' = warnings w" and "failed w \<noteq> None \<Longrightarrow> w' = w"
  shows "extends P w w'"
  using assms unfolding extends_def by blast

lemma extends_refl: "extends P w w"
  by (rule extendsI [where es = "[]"]) simp_all

lemma extends_trans:
  assumes "extends P w u" and "extends P u v"
  shows "extends P w v"
proof -
  from assms(1) obtain es where es: "events u = events w @ es"
      "list_all (\<lambda>e. P e \<or> (warnings w = Default_filter \<and> is_warning e)) es"
      "warnings u = warnings w" "failed w \<noteq> None \<longrightarrow> u = w"
    unfolding extends_def by blast
  from assms(2) obtain es' where es': "events v = events u @ es'"
      "list_all (\<lambda>e. P e \<or> (warnings u = Default_filter \<and> is_warning e)) es'"
      "warnings v = warnings u" "failed u \<noteq> None \<longrightarrow> v = u"
    unfolding extends_def by blast
  show ?thesis
  proof (rule extendsI [where es = "es @ es'"])
    show "events v = events w @ es @ es'" using es(1) es'(1) by simp
    show "list_all (\<lambda>e. P e \<or> (warnings w = Default_filter \<and> is_warning e)) (es @ es')"
      using es(2) es'(2) es(3) by simp
    show "warnings v = warnings w" using es(3) es'(3) by simp
    show "v = w" if "failed w \<noteq> None" using that es(4) es'(4) by auto
  qed
qed

lemma extends_mono:
  assumes "extends P w w'" and "\<And>e. P e \<Longrightarrow> Q e"
  shows "extends Q w w'"
proof -
  from assms(1) obtain es where es: "events w' = events w @ es"
      "list_all (\<lambda>e. P e \<or> (warnings w = Default_filter \<and> is_warning e)) es"
      "warnings w' = warnings w" "failed w \<noteq> None \<longrightarrow> w' = w"
    unfolding extends_def by blast
  from es(2) assms(2) have "list_all (\<lambda>e. Q e \<or> (warnings w = Default_filter \<and> is_warning e)) es"
    by (auto simp: list_all_iff)
  with es show ?thesis by (intro extendsI [where es = es]) auto
qed

lemma extends_emit:
  assumes "failed w = None" and "list_all P es"
  shows "extends P w (emit es w)"
  using assms by (intro extendsI [where es = es]) (auto simp: list_all_iff)

lemma extends_show_warnings:
  assumes "failed w = None"
  shows "extends P w (show_warnings msgs w)"
proof (cases "warnings w")
  case Default_filter
  then show ?thesis using assms
    by (intro extendsI [where es = "map Warning_shown msgs"])
      (auto simp: show_warnings_def list_all_iff)
next
  case Ignore
  then show ?thesis by (simp add: show_warnings_def extends_refl)
qed

lemma extends_raise_exn:
  assumes "failed w = None"
  shows "extends P w (raise_exn e w)"
  using assms by (intro extendsI [where es = "[]"]) simp_all

lemma extends_stmt:
  assumes "\<And>u. failed u = None \<Longrightarrow> extends P u (f u)"
  shows "extends P w (stmt f w)"
  using assms by (simp add: stmt_def extends_refl)

lemma extends_lib_call:
  assumes "\<And>x u. failed u = None \<Longrightarrow> extends P u (cont x u)"
  shows "extends P w (lib_call call cont w)"
proof (cases "failed w = None")
  case False
  then have "lib_call call cont w = w" by (auto simp: lib_call_def)
  then show ?thesis by (simp add: extends_refl)
next
  case True
  obtain msgs r where c: "call w = (msgs, r)" by (cases "call w")
  let ?w1 = "show_warnings msgs w"
  have w1: "extends P w ?w1" using True by (rule extends_show_warnings)
  have f1: "failed ?w1 = None" using True by simp
  show ?thesis
  proof (cases r)
    case (Inl e)
    have "extends P ?w1 (raise_exn e ?w1)" using f1 by (rule extends_raise_exn)
    with w1 have "extends P w (raise_exn e ?w1)" by (rule extends_trans)
    then show ?thesis using True c Inl by (simp add: lib_call_def)
  next
    case (Inr x)
    have "extends P ?w1 (cont x ?w1)" using f1 by (rule assms)
    with w1 have "extends P w (cont x ?w1)" by (rule extends_trans)
    then show ?thesis using True c Inr by (simp add: lib_call_def)
  qed
qed

lemma extends_library:
  assumes "list_all P es"
  shows "extends P w (library lib c es w)"
  unfolding library_def
proof (rule extends_lib_call)
  fix st and u :: "'a world"
  assume u: "failed u = None"
  have "extends P (u\<lparr>store := st\<rparr>) (emit es (u\<lparr>store := st\<rparr>))"
    using u assms by (intro extends_emit) simp_all
  moreover have "extends P u (u\<lparr>store := st\<rparr>)"
    using u by (intro extendsI [where es = "[]"]) simp_all
  ultimately show "extends P u (emit es (u\<lparr>store := st\<rparr>))" by (rule extends_trans [rotated])
qed

lemma extends_statements:
  assumes "\<And>f u. f \<in> set fs \<Longrightarrow> extends P u (f u)"
  shows "extends P w (statements fs w)"
  using assms
proof (induction fs arbitrary: w)
  case Nil
  then show ?case by (simp add: statements_def extends_refl)
next
  case (Cons f fs)
  have "extends P w (f w)" by (rule Cons.prems) simp
  moreover have "extends P (f w) (statements fs (f w))"
    by (rule Cons.IH) (simp add: Cons.prems)
  ultimately have "extends P w (statements fs (f w))" by (rule extends_trans)
  then show ?case by (simp add: statements_def)
qed

lemma extends_statements_all:
  assumes "list_all (\<lambda>f. \<forall>u. extends P u (f u)) fs"
  shows "extends P w (statements fs w)"
  using assms by (intro extends_statements) (simp add: list_all_iff)

section \<open>The trace: what the optimisers and the functions of the notebook add\<close>

lemma extends_assign:
  assumes "failed u = None"
  shows "extends P u (assign vars new u)"
  using assms by (intro extendsI [where es = "[]"]) simp_all

lemma extends_run_action:
  assumes "\<And>f i u. a = Action f \<Longrightarrow> failed u = None \<Longrightarrow> extends P u (f i u)"
  shows "extends P w (run_action lib a i w)"
proof (cases a)
  case (Adam_action lr vars)
  then show ?thesis by (simp add: extends_lib_call extends_assign)
next
  case (NatGrad_action gamma vl)
  then show ?thesis by (simp add: extends_lib_call extends_assign)
next
  case (Action f)
  then show ?thesis using assms by (simp add: extends_stmt)
qed

lemma extends_run_actions:
  assumes "\<And>a i u. a \<in> set actions \<Longrightarrow> extends P u (run_action lib a i u)"
  shows "extends P w (run_actions lib actions i w)"
  using assms
proof (induction actions arbitrary: w)
  case Nil
  then show ?case by (simp add: extends_refl)
next
  case (Cons a actions)
  have "extends P w (run_action lib a i w)" by (rule Cons.prems) simp
  moreover have "extends P (run_action lib a i w) (run_actions lib actions i (run_action lib a i w))"
    by (rule Cons.IH) (simp add: Cons.prems)
  ultimately have "extends P w (run_actions lib actions i (run_action lib a i w))"
    by (rule extends_trans)
  then show ?case by simp
qed

lemma extends_iterate:
  assumes "\<And>a i u. a \<in> set actions \<Longrightarrow> extends P u (run_action lib a i u)"
  shows "extends P w (iterate lib actions n w)"
proof -
  have "extends P w (foldl (\<lambda>w i. run_actions lib actions i w) w is)" for "is"
  proof (induction "is" arbitrary: w)
    case Nil
    then show ?case by (simp add: extends_refl)
  next
    case (Cons i "is")
    have "extends P w (run_actions lib actions i w)"
      using assms by (rule extends_run_actions)
    moreover have "extends P (run_actions lib actions i w)
        (foldl (\<lambda>w i. run_actions lib actions i w) (run_actions lib actions i w) is)"
      by (rule Cons.IH)
    ultimately have "extends P w
        (foldl (\<lambda>w i. run_actions lib actions i w) (run_actions lib actions i w) is)"
      by (rule extends_trans)
    then show ?case by simp
  qed
  then show ?thesis by (simp add: iterate_def)
qed

lemma extends_Loop:
  assumes "\<And>a i u. a \<in> set actions \<Longrightarrow> extends P u (run_action lib a i u)"
    and "P (Training ''Loop'')"
  shows "extends P w (Loop lib actions n w)"
proof -
  have "extends P w (stmt (emit [Training ''Loop'']) w)"
    using assms(2) by (intro extends_stmt extends_emit) simp_all
  moreover have "extends P (stmt (emit [Training ''Loop'']) w) (Loop lib actions n w)"
    unfolding Loop_def using assms(1) by (rule extends_iterate)
  ultimately show ?thesis by (rule extends_trans)
qed

lemma extends_anchor: "extends P w (stmt (anchor m) w)"
  by (simp add: stmt_def anchor_def extends_refl)

lemma extends_PrintAction_run:
  assumes "\<And>l. P (Print_likelihood (text' self) i l)"
  shows "extends P w (PrintAction_run lib self i w)"
  unfolding PrintAction_run_def
  by (rule extends_lib_call) (simp add: extends_emit assms)

lemma extends_optimise_action:
  "extends P w (run_action lib (Adam_action lr vars) i w)"
  "extends P w (run_action lib (NatGrad_action gamma vl) i w)"
  "extends P w (run_action lib (NatGradOptimizer_make_optimize_action gamma m vl) i w)"
  by (simp_all add: NatGradOptimizer_make_optimize_action_def extends_lib_call extends_assign)

lemma AdamOptimizer_make_optimize_action_Inr:
  assumes "AdamOptimizer_make_optimize_action lr m u = Inr adam"
  shows "\<exists>vars. adam = Adam_action lr vars \<and> vars \<noteq> []
      \<and> vars = filter (\<lambda>p. trainable (store u p)) (parameters m)"
  using assms by (auto simp: AdamOptimizer_make_optimize_action_def Let_def split: if_splits)

text \<open>
  The optimise action of Adam is asked for, and the statements \<open>rest\<close> go on with it
  when there is one.
\<close>

lemma extends_with_adam:
  assumes "\<And>vars u. extends P u (rest (Adam_action lr vars) u)"
  shows "extends P w
      (lib_call (\<lambda>w. ([], AdamOptimizer_make_optimize_action lr m w)) rest w)"
proof (cases "failed w = None")
  case False
  then show ?thesis by (auto simp: lib_call_def extends_refl)
next
  case True
  show ?thesis
  proof (cases "AdamOptimizer_make_optimize_action lr m w")
    case (Inl e)
    with True show ?thesis by (simp add: lib_call_def extends_raise_exn)
  next
    case (Inr adam)
    then obtain vars where "adam = Adam_action lr vars"
      using AdamOptimizer_make_optimize_action_Inr by blast
    with True Inr assms [of w vars] show ?thesis by (simp add: lib_call_def)
  qed
qed

lemma extends_run_adam:
  assumes "\<And>cb i u. callback = Some cb \<Longrightarrow> extends P u (run_action lib cb i u)"
    and "P (Tool ''AdamOptimizer'')" and "P (Training ''Loop'')"
  shows "extends P w (run_adam lib m lr n callback w)"
  unfolding run_adam_def
proof (rule extends_statements_all, simp add: extends_refl, intro conjI allI)
  fix u :: "'a world"
  show "extends P u (stmt (emit [Tool ''AdamOptimizer'']) u)"
    using assms(2) by (intro extends_stmt extends_emit) simp_all
  show "extends P u (lib_call (\<lambda>w. ([], AdamOptimizer_make_optimize_action lr m w))
      (\<lambda>adam. statements
         [Loop lib (case callback of None \<Rightarrow> [adam] | Some cb \<Rightarrow> [adam, cb]) n,
          stmt (anchor m)]) u)"
  proof (rule extends_with_adam)
    fix vars and v :: "'a world"
    let ?actions = "case callback of None \<Rightarrow> [Adam_action lr vars]
      | Some cb \<Rightarrow> [Adam_action lr vars, cb]"
    have "extends P u' (run_action lib a i u')" if "a \<in> set ?actions" for a i and u' :: "'a world"
      using that assms(1)
      by (cases callback) (auto simp: extends_lib_call extends_assign)
    then have "extends P v (Loop lib ?actions n v)"
      using assms(3) by (rule extends_Loop)
    then show "extends P v (statements [Loop lib ?actions n, stmt (anchor m)] v)"
      by (simp add: statements_simps)
  qed
qed

lemma extends_set_trainable:
  assumes "failed u = None"
  shows "extends P u (set_trainable p b u)"
  using assms by (intro extendsI [where es = "[]"]) simp_all

lemma extends_run_nat_grads_with_adam:
  assumes "\<And>cb i u. callback = Some cb \<Longrightarrow> extends P u (run_action lib cb i u)"
    and "P (Tool ''AdamOptimizer'')" and "P (Tool ''NatGradOptimizer'')" and "P (Training ''Loop'')"
  shows "extends P w (run_nat_grads_with_adam lib m lr gamma n var_list callback w)"
proof -
  define vl where "vl = (case var_list of None \<Rightarrow> [(q_mu m, q_sqrt m, None)] | Some vl \<Rightarrow> vl)"
  define actions where "actions = (\<lambda>adam :: 'a action.
      case callback of None \<Rightarrow> [adam, NatGrad_action gamma vl]
      | Some cb \<Rightarrow> [adam, NatGrad_action gamma vl] @ [cb])"
  have loop: "extends P v (Loop lib (actions (Adam_action lr vars)) n v)"
    for vars and v :: "'a world"
  proof (rule extends_Loop)
    show "extends P u (run_action lib a i u)"
      if "a \<in> set (actions (Adam_action lr vars))" for a i and u :: "'a world"
      using that assms(1)
      by (cases callback) (auto simp: actions_def extends_lib_call extends_assign)
  qed (rule assms(4))
  have rest: "extends P v (statements
      [stmt (emit [Tool ''NatGradOptimizer'']), Loop lib (actions (Adam_action lr vars)) n,
       stmt (anchor m)] v)" for vars and v :: "'a world"
  proof (rule extends_statements_all, simp add: extends_refl, intro conjI allI)
    show "extends P u (stmt (emit [Tool ''NatGradOptimizer'']) u)" for u :: "'a world"
      using assms(3) by (intro extends_stmt extends_emit) simp_all
    show "extends P u (Loop lib (actions (Adam_action lr vars)) n u)" for u :: "'a world"
      by (rule loop)
  qed
  have "extends P w (statements
      [stmt (set_trainable (q_mu m) False), stmt (set_trainable (q_sqrt m) False),
       stmt (emit [Tool ''AdamOptimizer'']),
       lib_call (\<lambda>w. ([], AdamOptimizer_make_optimize_action lr m w))
         (\<lambda>adam. statements
            [stmt (emit [Tool ''NatGradOptimizer'']), Loop lib (actions adam) n,
             stmt (anchor m)])] w)"
  proof (rule extends_statements_all, simp add: extends_refl, intro conjI allI)
    fix u :: "'a world"
    show "extends P u (stmt (set_trainable (q_mu m) False) u)"
      by (intro extends_stmt extends_set_trainable)
    show "extends P u (stmt (set_trainable (q_sqrt m) False) u)"
      by (intro extends_stmt extends_set_trainable)
    show "extends P u (stmt (emit [Tool ''AdamOptimizer'']) u)"
      using assms(2) by (intro extends_stmt extends_emit) simp_all
    show "extends P u (lib_call (\<lambda>w. ([], AdamOptimizer_make_optimize_action lr m w))
        (\<lambda>adam. statements
           [stmt (emit [Tool ''NatGradOptimizer'']), Loop lib (actions adam) n,
            stmt (anchor m)]) u)"
      by (rule extends_with_adam) (rule rest)
  qed
  then show ?thesis
    by (simp add: run_nat_grads_with_adam_def vl_def actions_def Let_def
        NatGradOptimizer_make_optimize_action_def cong: option.case_cong)
qed

section \<open>The trace: what minimize and the monitor tasks add\<close>

lemma extends_AdamOptimizer_minimize:
  assumes "\<And>cb i u. step_callback = Some cb \<Longrightarrow> failed u = None \<Longrightarrow> extends P u (cb i u)"
    and "P (Training ''minimize'')"
  shows "extends P w (AdamOptimizer_minimize lib lr m n step_callback w)"
  unfolding AdamOptimizer_minimize_def
proof (rule extends_statements_all, simp add: extends_refl, intro conjI allI)
  fix u :: "'a world"
  show "extends P u (stmt (emit [Training ''minimize'']) u)"
    using assms(2) by (intro extends_stmt extends_emit) simp_all
  show "extends P u (lib_call (\<lambda>w. ([], AdamOptimizer_make_optimize_action lr m w))
      (\<lambda>adam. statements
         [iterate lib (case step_callback of None \<Rightarrow> [adam]
            | Some cb \<Rightarrow> [adam, Action (\<lambda>i. cb (Suc i))]) n,
          stmt (anchor m)]) u)"
  proof (rule extends_with_adam)
    fix vars and v :: "'a world"
    let ?actions = "case step_callback of None \<Rightarrow> [Adam_action lr vars]
      | Some cb \<Rightarrow> [Adam_action lr vars, Action (\<lambda>i. cb (Suc i))]"
    have "extends P u' (run_action lib a i u')" if "a \<in> set ?actions" for a i and u' :: "'a world"
      using that assms(1)
      by (cases step_callback) (auto simp: extends_lib_call extends_assign intro!: extends_stmt)
    then have "extends P v (iterate lib ?actions n v)" by (rule extends_iterate)
    then show "extends P v (statements [iterate lib ?actions n, stmt (anchor m)] v)"
      by (simp add: statements_simps)
  qed
qed

lemma extends_NatGradOptimizer_minimize:
  assumes "P (Training ''minimize'')"
  shows "extends P w (NatGradOptimizer_minimize lib gamma m n vl w)"
proof (cases "failed w = None")
  case False
  then show ?thesis by (auto simp: NatGradOptimizer_minimize_def extends_refl)
next
  case True
  let ?actions = "[NatGradOptimizer_make_optimize_action gamma m vl]"
  let ?w1 = "emit [Training ''minimize''] w"
  have 1: "extends P w ?w1" using True assms by (intro extends_emit) simp_all
  have "extends P u (run_action lib a i u)" if "a \<in> set ?actions" for a i and u :: "'a world"
    using that by (auto simp: extends_optimise_action)
  then have 2: "extends P ?w1 (iterate lib ?actions n ?w1)"
    by (rule extends_iterate)
  have 3: "extends P (iterate lib ?actions n ?w1) (stmt (anchor m) (iterate lib ?actions n ?w1))"
    by (rule extends_anchor)
  have "extends P w (stmt (anchor m) (iterate lib ?actions n ?w1))"
    by (rule extends_trans [OF extends_trans [OF 1 2] 3])
  then show ?thesis using True by (simp add: NatGradOptimizer_minimize_def Let_def)
qed

lemma comprehension_Inr_length:
  "comprehension f xs = Inr ys \<Longrightarrow> length ys = length xs"
  by (induction xs arbitrary: ys) (auto split: sum.splits)

lemma extends_run_task:
  fixes w :: "'v world" and t :: "'x monitor_task"
  assumes "list_all P (task_events (kind t))"
  shows "extends P w (run_task lib predictor g t i w)"
proof (cases "kind t")
  case (Custom_task self)
  have "extends P w (lib_call
      (\<lambda>w. ([], CustomTensorBoardTask_run (predictor (store w)) g self
                   \<lparr>iteration_no = i, global_step = session_global_step lib (store w),
                    session_float32 = float32 lib\<rparr>))
      (\<lambda>ev w. w) w)"
    by (rule extends_lib_call) (rule extends_refl)
  then show ?thesis using Custom_task by (simp add: run_task_def)
qed (use assms in \<open>simp_all add: run_task_def extends_library\<close>)

lemma extends_Monitor_call:
  fixes w :: "'v world" and tasks :: "'x monitor_task list"
  assumes "\<And>t. t \<in> set tasks \<Longrightarrow> list_all P (task_events (kind t))"
  shows "extends P w (Monitor_call lib predictor g tasks i w)"
  using assms
proof (induction tasks arbitrary: w)
  case Nil
  then show ?case by (simp add: extends_refl)
next
  case (Cons t tasks)
  let ?w1 = "if condition t i then run_task lib predictor g t i w else w"
  have "extends P w ?w1"
    using Cons.prems [of t] by (simp add: extends_run_task extends_refl)
  moreover have "extends P ?w1 (Monitor_call lib predictor g tasks i ?w1)"
    by (rule Cons.IH) (simp add: Cons.prems)
  ultimately have "extends P w (Monitor_call lib predictor g tasks i ?w1)"
    by (rule extends_trans)
  then show ?case by simp
qed

lemma extends_Monitor_exit:
  fixes w :: "'v world" and tasks :: "'x monitor_task list"
  assumes "\<And>t. t \<in> set tasks \<Longrightarrow> list_all P (task_events (kind t))"
    and "P (Output ''Tasks execution time summary'')"
  shows "extends P w (Monitor_exit lib predictor g tasks print_summary i w)"
proof -
  let ?tasks = "map (\<lambda>t. t\<lparr>condition := (\<lambda>i. exit_condition t)\<rparr>) tasks"
  let ?w1 = "Monitor_call lib predictor g ?tasks i w"
  have 1: "extends P w ?w1"
    using assms(1) by (intro extends_Monitor_call) auto
  have 2: "extends P ?w1 (library lib ''print_summary'' [Output ''Tasks execution time summary''] ?w1)"
    using assms(2) by (intro extends_library) simp
  show ?thesis
    using 1 extends_trans [OF 1 2] by (simp add: Monitor_exit_def Let_def)
qed

lemma extends_clear_failed:
  assumes "extends P (u\<lparr>failed := None\<rparr>) v" and "failed u = Some e"
  shows "\<exists>es. events v = events u @ es
      \<and> list_all (\<lambda>e. P e \<or> (warnings u = Default_filter \<and> is_warning e)) es
      \<and> warnings v = warnings u"
  using assms unfolding extends_def by auto

lemma extends_with_block:
  assumes body: "\<And>u. extends P u (body u)" and exit: "\<And>u. extends P u (exit u)"
  shows "extends P w (with_block body exit w)"
proof (cases "failed w = None")
  case False
  then show ?thesis by (auto simp: with_block_def extends_refl)
next
  case True
  let ?w1 = "body w"
  have 1: "extends P w ?w1" by (rule body)
  show ?thesis
  proof (cases "failed ?w1")
    case None
    have "extends P w (exit ?w1)" by (rule extends_trans [OF 1 exit])
    then show ?thesis using True None by (simp add: with_block_def Let_def)
  next
    case (Some e)
    let ?w2 = "exit (?w1\<lparr>failed := None\<rparr>)"
    from 1 obtain es1 where es1: "events ?w1 = events w @ es1"
        "list_all (\<lambda>e. P e \<or> (warnings w = Default_filter \<and> is_warning e)) es1"
        "warnings ?w1 = warnings w"
      unfolding extends_def by blast
    from extends_clear_failed [OF exit Some] obtain es2 where es2: "events ?w2 = events ?w1 @ es2"
        "list_all (\<lambda>e. P e \<or> (warnings ?w1 = Default_filter \<and> is_warning e)) es2"
        "warnings ?w2 = warnings ?w1"
      by blast
    have "extends P w v" if "events v = events ?w2" "warnings v = warnings ?w2" for v
    proof (rule extendsI [where es = "es1 @ es2"])
      show "events v = events w @ es1 @ es2" using that es1 es2 by simp
      show "list_all (\<lambda>e. P e \<or> (warnings w = Default_filter \<and> is_warning e)) (es1 @ es2)"
        using es1 es2 by simp
      show "warnings v = warnings w" using that es1 es2 by simp
      show "v = w" if "failed w \<noteq> None" using that True by simp
    qed
    then have "extends P w ?w2" "extends P w (?w2\<lparr>failed := Some e\<rparr>)" by simp_all
    then show ?thesis
      using True Some by (simp add: with_block_def Let_def split: option.splits)
  qed
qed

section \<open>The trace of monitor-tensorboard\<close>

lemma extends_monitor_cells:
  "extends (monitor_event isdir) w (monitor_cell_1 lib w)"
  "extends (monitor_event isdir) w (monitor_cell_2 lib w)"
  "extends (monitor_event isdir) w (monitor_cell_3 lib w)"
  "extends (monitor_event isdir) w (monitor_cell_4 lib w)"
  "extends (monitor_event isdir) w (monitor_cell_5 lib w)"
  "extends (monitor_event isdir) w (monitor_cell_6 lib w)"
  "extends (monitor_event isdir) w (monitor_cell_7 lib w)"
  "extends (monitor_event isdir) w (monitor_cell_8 lib isdir w)"
  "extends (monitor_event isdir) w (monitor_cell_10 lib w)"
  unfolding monitor_cell_1_def monitor_cell_2_def monitor_cell_3_def monitor_cell_4_def
    monitor_cell_5_def monitor_cell_6_def monitor_cell_7_def monitor_cell_8_def
    monitor_cell_10_def file_writer_dir_def
  by (simp_all add: extends_statements_all extends_library extends_refl)

lemma monitor_tasks_events:
  assumes "t \<in> set (monitor_tasks m g)"
  shows "list_all (monitor_event isdir) (task_events (kind t))"
  using assms
  by (auto simp: monitor_tasks_def print_task_def model_tboard_task_def lml_tboard_task_def
      custom_tboard_task_def saver_task_def sleep_task_def new_task_def with_name_def
      with_condition_def with_exit_condition_def file_writer_dir_def
      CustomTensorBoardTask_init_def)

lemma extends_monitor_block:
  fixes v :: "'v world" and g :: "'x globals"
  shows "extends (monitor_event isdir) v
      (with_block
         (AdamOptimizer_minimize lib lr m n
            (Some (Monitor_call lib predictor g (monitor_tasks m g))))
         (Monitor_exit lib predictor g (monitor_tasks m g) b k) v)"
proof (rule extends_with_block)
  fix u :: "'v world"
  show "extends (monitor_event isdir) u
      (AdamOptimizer_minimize lib lr m n
         (Some (Monitor_call lib predictor g (monitor_tasks m g))) u)"
  proof (rule extends_AdamOptimizer_minimize)
    show "monitor_event isdir (Training ''minimize'')" by simp
    fix cb i and u :: "'v world"
    assume "Some (Monitor_call lib predictor g (monitor_tasks m g)) = Some cb"
    then have cb: "cb = Monitor_call lib predictor g (monitor_tasks m g)" by simp
    show "extends (monitor_event isdir) u (cb i u)"
      unfolding cb by (rule extends_Monitor_call) (rule monitor_tasks_events)
  qed
  show "extends (monitor_event isdir) u
      (Monitor_exit lib predictor g (monitor_tasks m g) b k u)"
  proof (rule extends_Monitor_exit)
    show "monitor_event isdir (Output ''Tasks execution time summary'')" by simp
    show "list_all (monitor_event isdir) (task_events (kind t))"
      if "t \<in> set (monitor_tasks m g)" for t :: "'x monitor_task"
      using that by (rule monitor_tasks_events)
  qed
qed

lemma extends_monitor_cell_9:
  fixes w :: "'v world" and g :: "'x globals"
  shows "extends (monitor_event isdir) w (monitor_cell_9 lib predictor g m w)"
  unfolding monitor_cell_9_def
  by (rule extends_statements_all) (simp add: extends_library extends_monitor_block)

lemma extends_monitor_tensorboard:
  "extends (monitor_event isdir) (initial st) (monitor_tensorboard lib predictor isdir g m st)"
  unfolding monitor_tensorboard_def
  by (rule extends_statements_all) (simp add: extends_monitor_cells extends_monitor_cell_9)

section \<open>The trace of natural gradients\<close>

declare statements_simps [simp]

lemma extends_PrintAction_action:
  assumes "\<And>i l. P (Print_likelihood (text' self) i l)"
  shows "extends P u (run_action lib (Action (PrintAction_run lib self)) i u)"
  using assms by (simp add: extends_stmt extends_PrintAction_run)

lemma extends_show_log_likelihood:
  assumes "\<And>t. P (Output t)"
  shows "extends P w (show_log_likelihood lib v w)"
  unfolding show_log_likelihood_def by (rule extends_library) (simp add: assms)

lemma extends_show_average_log_likelihood:
  assumes "\<And>t. P (Output t)"
  shows "extends P w (show_average_log_likelihood lib v n w)"
  unfolding show_average_log_likelihood_def
proof (rule extends_statements)
  fix f and u :: "'a world"
  assume "f \<in> set (replicate n (library lib (v @ ''.compute_log_likelihood'') [])
      @ [library lib ''np.average'' [Output (''np.average of '' @ v)]])"
  then consider "f = library lib (v @ ''.compute_log_likelihood'') []"
    | "f = library lib ''np.average'' [Output (''np.average of '' @ v)]"
    by (auto simp: set_replicate_conv_if split: if_splits)
  then show "extends P u (f u)"
    by cases (simp_all add: extends_library assms)
qed

lemma extends_run_adam_print:
  assumes "P (Tool ''AdamOptimizer'')" and "P (Training ''Loop'')"
    and "\<And>i l. P (Print_likelihood t i l)"
  shows "extends P w (run_adam lib m lr n
      (Some (Action (PrintAction_run lib (PrintAction_init m' t)))) w)"
proof (rule extends_run_adam)
  fix cb i and u :: "'a world"
  assume "Some (Action (PrintAction_run lib (PrintAction_init m' t))) = Some cb"
  then have cb: "cb = Action (PrintAction_run lib (PrintAction_init m' t))" by simp
  show "extends P u (run_action lib cb i u)"
    unfolding cb by (rule extends_PrintAction_action) (simp add: PrintAction_init_def assms(3))
qed (rule assms)+

lemma extends_run_nat_grads_with_adam_print:
  assumes "P (Tool ''AdamOptimizer'')" and "P (Tool ''NatGradOptimizer'')"
    and "P (Training ''Loop'')" and "\<And>i l. P (Print_likelihood t i l)"
  shows "extends P w (run_nat_grads_with_adam lib m lr gamma n vl
      (Some (Action (PrintAction_run lib (PrintAction_init m' t)))) w)"
proof (rule extends_run_nat_grads_with_adam)
  fix cb i and u :: "'a world"
  assume "Some (Action (PrintAction_run lib (PrintAction_init m' t))) = Some cb"
  then have cb: "cb = Action (PrintAction_run lib (PrintAction_init m' t))" by simp
  show "extends P u (run_action lib cb i u)"
    unfolding cb by (rule extends_PrintAction_action) (simp add: PrintAction_init_def assms(4))
qed (rule assms)+

lemma extends_run_nat_grads_with_adam_None:
  assumes "P (Tool ''AdamOptimizer'')" and "P (Tool ''NatGradOptimizer'')"
    and "P (Training ''Loop'')"
  shows "extends P w (run_nat_grads_with_adam lib m lr gamma n vl None w)"
  by (rule extends_run_nat_grads_with_adam) (simp_all add: assms)

lemma extends_AdamOptimizer_minimize_None:
  assumes "P (Training ''minimize'')"
  shows "extends P w (AdamOptimizer_minimize lib lr m n None w)"
  by (rule extends_AdamOptimizer_minimize) (simp_all add: assms)

lemma extends_natgrads_cells:
  "extends natgrads_event w (natgrads_cell_2 lib w)"
  "extends natgrads_event w (natgrads_cell_3 lib w)"
  "extends natgrads_event w (natgrads_cell_4 lib w)"
  "extends natgrads_event w (natgrads_cell_5 lib obj w)"
  "extends natgrads_event w (natgrads_cell_8 lib obj w)"
  "extends natgrads_event w (natgrads_cell_9 lib obj w)"
  "extends natgrads_event w (natgrads_cell_10 lib w)"
  "extends natgrads_event w (natgrads_cell_11 lib w)"
  "extends natgrads_event w (natgrads_cell_12 lib w)"
  "extends natgrads_event w (natgrads_cell_13 lib w)"
  "extends natgrads_event w (natgrads_cell_14 lib obj w)"
  "extends natgrads_event w (natgrads_cell_15 lib obj niter w)"
  "extends natgrads_event w (natgrads_cell_16 lib nrange w)"
  "extends natgrads_event w (natgrads_cell_17 lib w)"
  "extends natgrads_event w (natgrads_cell_18 lib obj w)"
  "extends natgrads_event w (natgrads_cell_19 lib nrange w)"
  "extends natgrads_event w (natgrads_cell_20 lib nrange w)"
  "extends natgrads_event w (natgrads_cell_21 lib w)"
  "extends natgrads_event w (natgrads_cell_22 lib obj w)"
  "extends natgrads_event w (natgrads_cell_23 lib w)"
  "extends natgrads_event w (natgrads_cell_24 lib w)"
  "extends natgrads_event w (natgrads_cell_25 lib obj w)"
  "extends natgrads_event w (natgrads_cell_26 lib w)"
  unfolding natgrads_cell_2_def natgrads_cell_3_def natgrads_cell_4_def natgrads_cell_5_def
    natgrads_cell_8_def natgrads_cell_9_def natgrads_cell_10_def natgrads_cell_11_def
    natgrads_cell_12_def natgrads_cell_13_def natgrads_cell_14_def natgrads_cell_15_def
    natgrads_cell_16_def natgrads_cell_17_def natgrads_cell_18_def natgrads_cell_19_def
    natgrads_cell_20_def natgrads_cell_21_def natgrads_cell_22_def natgrads_cell_23_def
    natgrads_cell_24_def natgrads_cell_25_def natgrads_cell_26_def make_matern_kernel_def
  by (rule extends_statements_all,
      simp add: extends_library extends_show_log_likelihood extends_show_average_log_likelihood
        extends_NatGradOptimizer_minimize extends_AdamOptimizer_minimize_None
        extends_run_adam_print extends_run_nat_grads_with_adam_print
        extends_run_nat_grads_with_adam_None)+

section \<open>Warnings and restores in the traces\<close>







lemma warnings_shown_map [simp]: "warnings_shown (map Warning_shown msgs) = msgs"
  by (induction msgs) simp_all



lemma monitor_tensorboard_trace:
  "list_all (\<lambda>e. monitor_event isdir e \<or> is_warning e)
     (events (monitor_tensorboard lib predictor isdir g m st))"
proof -
  have "extends (monitor_event isdir) (initial st) (monitor_tensorboard lib predictor isdir g m st)"
    by (rule extends_monitor_tensorboard)
  then obtain es where "events (monitor_tensorboard lib predictor isdir g m st) = events (initial st) @ es"
      "list_all (\<lambda>e. monitor_event isdir e \<or> (warnings (initial st) = Default_filter \<and> is_warning e)) es"
    unfolding extends_def by blast
  then show ?thesis by (simp add: initial_def)
qed

section \<open>Order in a trace\<close>

lemma growsI:
  assumes "events w' = events w @ es" and "list_all (\<lambda>e. P e \<or> is_warning e) es"
    and "failed w \<noteq> None \<Longrightarrow> w' = w"
  shows "grows P w w'"
  using assms unfolding grows_def by blast

lemma grows_refl: "grows P w w"
  by (rule growsI [where es = "[]"]) simp_all

lemma grows_trans:
  assumes "grows P w u" and "grows P u v"
  shows "grows P w v"
proof -
  from assms(1) obtain es where es: "events u = events w @ es"
      "list_all (\<lambda>e. P e \<or> is_warning e) es" "failed w \<noteq> None \<longrightarrow> u = w"
    unfolding grows_def by blast
  from assms(2) obtain es' where es': "events v = events u @ es'"
      "list_all (\<lambda>e. P e \<or> is_warning e) es'" "failed u \<noteq> None \<longrightarrow> v = u"
    unfolding grows_def by blast
  show ?thesis
  proof (rule growsI [where es = "es @ es'"])
    show "events v = events w @ es @ es'" using es(1) es'(1) by simp
    show "list_all (\<lambda>e. P e \<or> is_warning e) (es @ es')" using es(2) es'(2) by simp
    show "v = w" if "failed w \<noteq> None" using that es(3) es'(3) by auto
  qed
qed

lemma extends_grows:
  assumes "extends P w w'"
  shows "grows P w w'"
proof -
  from assms obtain es where es: "events w' = events w @ es"
      "list_all (\<lambda>e. P e \<or> (warnings w = Default_filter \<and> is_warning e)) es"
      "failed w \<noteq> None \<longrightarrow> w' = w"
    unfolding extends_def by blast
  from es(2) have "list_all (\<lambda>e. P e \<or> is_warning e) es" by (auto simp: list_all_iff)
  with es show ?thesis by (intro growsI [where es = es]) auto
qed

lemma grows_any:
  assumes "extends P w w'"
  shows "grows (\<lambda>e. True) w w'"
proof -
  from extends_grows [OF assms] obtain es where "events w' = events w @ es"
      "failed w \<noteq> None \<longrightarrow> w' = w"
    unfolding grows_def by blast
  then show ?thesis by (intro growsI [where es = es]) (auto simp: list_all_iff)
qed

lemma grows_filterwarnings: "grows P w (stmt filterwarnings_ignore w)"
  by (rule growsI [where es = "[]"]) (auto simp: stmt_def filterwarnings_ignore_def)

lemma grows_statements_all:
  assumes "list_all (\<lambda>f. \<forall>u. grows P u (f u)) fs"
  shows "grows P w (statements fs w)"
  using assms
proof (induction fs arbitrary: w)
  case Nil
  then show ?case by (simp add: grows_refl)
next
  case (Cons f fs)
  from Cons.prems have "grows P w (f w)" by simp
  moreover have "grows P (f w) (statements fs (f w))"
    using Cons.prems by (intro Cons.IH) simp
  ultimately have "grows P w (statements fs (f w))" by (rule grows_trans)
  then show ?case by simp
qed

lemma grows_library:
  assumes "list_all P es"
  shows "grows P w (library lib c es w)"
  using assms by (intro extends_grows extends_library)

lemma precedes_append:
  "precedes P Q (xs @ ys) \<longleftrightarrow> precedes P Q xs \<and> (list_ex P xs \<or> precedes P Q ys)"
  by (induction xs) auto

lemma precedes_none:
  assumes "list_all (\<lambda>e. \<not> Q e) xs"
  shows "precedes P Q xs"
  using assms by (induction xs) auto

lemma library_events:
  assumes "failed w = None" and "api lib c (store w) = (msgs, r)"
  shows "events (library lib c es w)
      = events w @ (case warnings w of Ignore \<Rightarrow> [] | Default_filter \<Rightarrow> map Warning_shown msgs)
          @ (case r of Inl e \<Rightarrow> [] | Inr st \<Rightarrow> es)"
    and "failed (library lib c es w) = (case r of Inl e \<Rightarrow> Some e | Inr st \<Rightarrow> None)"
  using assms
  by (cases r; cases "warnings w";
      simp add: library_def lib_call_def show_warnings_def Let_def raise_exn_def)+

lemma library_failed: "failed w \<noteq> None \<Longrightarrow> library lib c es w = w"
  by (auto simp: library_def lib_call_def)

text \<open>
  Statements that add no event \<open>Q\<close>, then a call into the library that is observed by an
  event \<open>P\<close> first, then anything: no \<open>Q\<close> comes before the first \<open>P\<close>, and a run that is
  still going has its \<open>P\<close>.
\<close>

lemma precedes_established:
  assumes pre: "grows (\<lambda>e. \<not> Q e) u0 u1" and start: "events u0 = []"
    and P: "P e" and post: "grows (\<lambda>e. True) (library lib c (e # es) u1) u3"
    and Q: "\<And>msg. \<not> Q (Warning_shown msg)"
  shows "precedes P Q (events u3)" and "failed u3 = None \<Longrightarrow> list_ex P (events u3)"
proof -
  let ?u2 = "library lib c (e # es) u1"
  from pre start obtain xs where xs: "events u1 = xs" "list_all (\<lambda>e. \<not> Q e \<or> is_warning e) xs"
    unfolding grows_def by auto
  have "\<not> Q x" if "is_warning x" for x using that Q by (cases x) simp_all
  with xs(2) have noQ: "list_all (\<lambda>e. \<not> Q e) xs" by (auto simp: list_all_iff)
  from post obtain zs where zs: "events u3 = events ?u2 @ zs" "failed ?u2 \<noteq> None \<longrightarrow> u3 = ?u2"
    unfolding grows_def by blast
  have "precedes P Q (events u3) \<and> (failed u3 = None \<longrightarrow> list_ex P (events u3))"
  proof (cases "failed u1 = None")
    case False
    then have "?u2 = u1" by (rule library_failed)
    with zs(2) False have "u3 = u1" by simp
    with xs(1) noQ False show ?thesis by (auto simp: precedes_none)
  next
    case True
    obtain msgs r where c: "api lib c (store u1) = (msgs, r)" by (cases "api lib c (store u1)")
    note ev = library_events [OF True c, of "e # es"]
    let ?ws = "case warnings u1 of Ignore \<Rightarrow> [] | Default_filter \<Rightarrow> map Warning_shown msgs"
    have ws: "list_all (\<lambda>e. \<not> Q e) ?ws"
      using Q by (cases "warnings u1") (simp_all add: list_all_iff)
    show ?thesis
    proof (cases r)
      case (Inl x)
      with ev zs(2) have "u3 = ?u2" "failed ?u2 \<noteq> None" by simp_all
      moreover have "events ?u2 = xs @ ?ws" using ev(1) Inl xs(1) by simp
      ultimately show ?thesis using noQ ws by (auto simp: precedes_none)
    next
      case (Inr x)
      then have "events u3 = (xs @ ?ws) @ (e # es @ zs)" using ev(1) zs(1) xs(1) by simp
      moreover have "precedes P Q (xs @ ?ws)" using noQ ws by (simp add: precedes_none)
      ultimately show ?thesis using P by (simp add: precedes_append del: append_assoc)
    qed
  qed
  then show "precedes P Q (events u3)" and "failed u3 = None \<Longrightarrow> list_ex P (events u3)"
    by simp_all
qed

section \<open>The order of the phases in monitor-tensorboard\<close>

lemmas monitor_cells_grow =
  extends_monitor_cells [THEN grows_any] extends_monitor_cell_9 [THEN grows_any]

lemmas natgrads_cells_grow = extends_natgrads_cells [THEN grows_any]

lemma grows_any_library: "grows (\<lambda>e. True) w (library lib c es w)"
  by (rule grows_library) (simp add: list_all_iff)

lemma library_last:
  assumes "failed (library lib c es w) = None" and "es \<noteq> []"
  shows "last (events (library lib c es w)) = last es"
proof (cases "failed w = None")
  case True
  obtain msgs r where c: "api lib c (store w) = (msgs, r)" by (cases "api lib c (store w)")
  from library_events [OF True c, of es] assms show ?thesis
    by (cases r) simp_all
next
  case False
  with assms(1) show ?thesis by (simp add: library_failed)
qed

lemma not_warning [simp]:
  "\<not> is_tool (Warning_shown msg)" "\<not> is_training (Warning_shown msg)"
  by simp_all

lemma monitor_tensorboard_order:
  fixes g :: "'x globals" and st :: "pid \<Rightarrow> 'v parameter"
  shows "precedes is_model is_tool (events (monitor_tensorboard lib predictor isdir g m st))"
    and "precedes is_output is_training (events (monitor_tensorboard lib predictor isdir g m st))"
    and "precedes is_tool is_training (events (monitor_tensorboard lib predictor isdir g m st))"
proof -
  define final where "final = monitor_tensorboard lib predictor isdir g m st"
  let ?rest = "[monitor_cell_5 lib, monitor_cell_6 lib, monitor_cell_7 lib,
      monitor_cell_8 lib isdir, monitor_cell_9 lib predictor g m, monitor_cell_10 lib]"
  have rest: "list_all (\<lambda>f. \<forall>u. grows (\<lambda>e. True) u (f u)) ?rest"
    by (simp add: monitor_cells_grow)
  have start: "events (initial st) = []" by (simp add: initial_def)
  \<comment> \<open>the constructor of the model\<close>
  let ?pre1 = "[library lib ''import'' [], library lib ''np.random'' [], library lib ''RBF'' [],
      library lib ''Gaussian'' []]"
  let ?post1 = "[library lib ''m.likelihood.variance = 0.01'' [], library lib ''m.compile'' [],
      monitor_cell_3 lib, monitor_cell_4 lib] @ ?rest"
  have split1: "final = statements ?post1
      (library lib ''SVGP'' [Model ''SVGP'' ''m''] (statements ?pre1 (initial st)))"
    by (simp add: final_def monitor_tensorboard_def monitor_cell_1_def monitor_cell_2_def)
  have pre1: "grows (\<lambda>e. \<not> is_tool e) (initial st) (statements ?pre1 (initial st))"
    by (rule grows_statements_all) (simp add: grows_library)
  have post1: "grows (\<lambda>e. True)
      (library lib ''SVGP'' [Model ''SVGP'' ''m''] (statements ?pre1 (initial st))) final"
    unfolding split1
    by (rule grows_statements_all) (simp add: monitor_cells_grow grows_any_library)
  have "precedes is_model is_tool (events final)"
    by (rule precedes_established(1) [OF pre1 start _ post1]) simp_all
  then show "precedes is_model is_tool (events (monitor_tensorboard lib predictor isdir g m st))"
    by (simp add: final_def)
  \<comment> \<open>the likelihood printed before the optimisation\<close>
  let ?pre2 = "[library lib ''import'' [], library lib ''np.random'' [], library lib ''RBF'' [],
      library lib ''Gaussian'' [], library lib ''SVGP'' [Model ''SVGP'' ''m''],
      library lib ''m.likelihood.variance = 0.01'' [], library lib ''m.compile'' []]"
  let ?post2 = "monitor_cell_4 lib # ?rest"
  have split2: "final = statements ?post2
      (library lib ''m.compute_log_likelihood'' [Output ''LML before the optimisation'']
        (statements ?pre2 (initial st)))"
    by (simp add: final_def monitor_tensorboard_def monitor_cell_1_def monitor_cell_2_def
        monitor_cell_3_def)
  have pre2: "grows (\<lambda>e. \<not> is_training e) (initial st) (statements ?pre2 (initial st))"
    by (rule grows_statements_all) (simp add: grows_library)
  have post2: "grows (\<lambda>e. True)
      (library lib ''m.compute_log_likelihood'' [Output ''LML before the optimisation'']
        (statements ?pre2 (initial st))) final"
    unfolding split2
    by (rule grows_statements_all) (simp add: monitor_cells_grow grows_any_library)
  have "precedes is_output is_training (events final)"
    by (rule precedes_established(1) [OF pre2 start _ post2]) simp_all
  then show "precedes is_output is_training (events (monitor_tensorboard lib predictor isdir g m st))"
    by (simp add: final_def)
  \<comment> \<open>the first object built for the optimisation\<close>
  let ?pre3 = "?pre2 @ [library lib ''m.compute_log_likelihood'' [Output ''LML before the optimisation''],
      library lib ''m.enquire_session'' []]"
  have split3: "final = statements ?rest
      (library lib ''create_global_step'' [Tool ''global_step''] (statements ?pre3 (initial st)))"
    by (simp add: final_def monitor_tensorboard_def monitor_cell_1_def monitor_cell_2_def
        monitor_cell_3_def monitor_cell_4_def)
  have pre3: "grows (\<lambda>e. \<not> is_training e) (initial st) (statements ?pre3 (initial st))"
    by (rule grows_statements_all) (simp add: grows_library)
  have post3: "grows (\<lambda>e. True)
      (library lib ''create_global_step'' [Tool ''global_step''] (statements ?pre3 (initial st)))
      final"
    unfolding split3 by (rule grows_statements_all) (rule rest)
  have "precedes is_tool is_training (events final)"
    by (rule precedes_established(1) [OF pre3 start _ post3]) simp_all
  then show "precedes is_tool is_training (events (monitor_tensorboard lib predictor isdir g m st))"
    by (simp add: final_def)
qed

lemma monitor_tensorboard_last:
  assumes "failed (monitor_tensorboard lib predictor isdir g m st) = None"
  shows "last (events (monitor_tensorboard lib predictor isdir g m st))
      = Output ''LML after the optimisation''"
proof -
  let ?cells = "[monitor_cell_1 lib, monitor_cell_2 lib, monitor_cell_3 lib, monitor_cell_4 lib,
      monitor_cell_5 lib, monitor_cell_6 lib, monitor_cell_7 lib, monitor_cell_8 lib isdir,
      monitor_cell_9 lib predictor g m]"
  have split: "monitor_tensorboard lib predictor isdir g m st =
      library lib ''m.compute_log_likelihood'' [Output ''LML after the optimisation'']
        (statements ?cells (initial st))"
    by (simp add: monitor_tensorboard_def monitor_cell_10_def)
  from assms show ?thesis
    unfolding split by (simp add: library_last)
qed

section \<open>The order of the phases in natural gradients\<close>

lemma grows_any_statements:
  "grows (\<lambda>e. True) w (NatGradOptimizer_minimize lib gamma m n vl w)"
  "grows (\<lambda>e. True) w (show_log_likelihood lib v w)"
  "grows (\<lambda>e. True) w (make_matern_kernel lib w)"
  by (simp_all add: grows_any [OF extends_NatGradOptimizer_minimize]
      grows_any [OF extends_show_log_likelihood] make_matern_kernel_def grows_any_library)

lemma natural_gradients_order:
  fixes st :: "pid \<Rightarrow> 'v parameter"
  shows "precedes is_model is_tool (events (natural_gradients lib obj niter nrange st))"
    and "precedes is_output is_training (events (natural_gradients lib obj niter nrange st))"
    and "precedes is_tool is_training (events (natural_gradients lib obj niter nrange st))"
proof -
  define final where "final = natural_gradients lib obj niter nrange st"
  let ?rest = "[natgrads_cell_8 lib obj, natgrads_cell_9 lib obj,
      natgrads_cell_10 lib, natgrads_cell_11 lib, natgrads_cell_12 lib, natgrads_cell_13 lib,
      natgrads_cell_14 lib obj, natgrads_cell_15 lib obj niter, natgrads_cell_16 lib nrange,
      natgrads_cell_17 lib, natgrads_cell_18 lib obj, natgrads_cell_19 lib nrange,
      natgrads_cell_20 lib nrange, natgrads_cell_21 lib, natgrads_cell_22 lib obj,
      natgrads_cell_23 lib, natgrads_cell_24 lib, natgrads_cell_25 lib obj,
      natgrads_cell_26 lib]"
  have rest: "list_all (\<lambda>f. \<forall>u. grows (\<lambda>e. True) u (f u)) ?rest"
    by (simp add: natgrads_cells_grow)
  have start: "events (initial st) = []" by (simp add: initial_def)
  \<comment> \<open>the constructor of the first model\<close>
  let ?pre1 = "[library lib ''import'' [], stmt filterwarnings_ignore, library lib ''np.random'' [],
      library lib ''Matern52'' [], library lib ''Gaussian'' []]"
  let ?post1 = "[library lib ''Matern52'' [], library lib ''GPR'' [Model ''GPR'' ''gpr''],
      natgrads_cell_3 lib, natgrads_cell_4 lib, natgrads_cell_5 lib obj] @ ?rest"
  have split1: "final = statements ?post1
      (library lib ''VGP'' [Model ''VGP'' ''vgp''] (statements ?pre1 (initial st)))"
    by (simp add: final_def natural_gradients_def natgrads_cell_1_def natgrads_cell_2_def
        make_matern_kernel_def)
  have pre1: "grows (\<lambda>e. \<not> is_tool e) (initial st) (statements ?pre1 (initial st))"
    by (rule grows_statements_all) (simp add: grows_library grows_filterwarnings)
  have post1: "grows (\<lambda>e. True)
      (library lib ''VGP'' [Model ''VGP'' ''vgp''] (statements ?pre1 (initial st))) final"
    unfolding split1
    by (rule grows_statements_all) (simp add: natgrads_cells_grow grows_any_library)
  have "precedes is_model is_tool (events final)"
    by (rule precedes_established(1) [OF pre1 start _ post1]) simp_all
  then show "precedes is_model is_tool (events (natural_gradients lib obj niter nrange st))"
    by (simp add: final_def)
  \<comment> \<open>the exact likelihood of GPR, shown by cell 3\<close>
  let ?pre2 = "?pre1 @ [library lib ''VGP'' [Model ''VGP'' ''vgp''], library lib ''Matern52'' [],
      library lib ''GPR'' [Model ''GPR'' ''gpr'']]"
  let ?post2 = "[natgrads_cell_4 lib, natgrads_cell_5 lib obj] @ ?rest"
  have split2: "final = statements ?post2
      (library lib ''gpr.compute_log_likelihood'' [Output ''gpr.compute_log_likelihood()'']
        (statements ?pre2 (initial st)))"
    by (simp add: final_def natural_gradients_def natgrads_cell_1_def natgrads_cell_2_def
        natgrads_cell_3_def make_matern_kernel_def show_log_likelihood_def)
  have pre2: "grows (\<lambda>e. \<not> is_training e) (initial st) (statements ?pre2 (initial st))"
    by (rule grows_statements_all) (simp add: grows_library grows_filterwarnings)
  have post2: "grows (\<lambda>e. True)
      (library lib ''gpr.compute_log_likelihood'' [Output ''gpr.compute_log_likelihood()'']
        (statements ?pre2 (initial st))) final"
    unfolding split2
    by (rule grows_statements_all) (simp add: natgrads_cells_grow)
  have "precedes is_output is_training (events final)"
    by (rule precedes_established(1) [OF pre2 start _ post2]) simp_all
  then show "precedes is_output is_training (events (natural_gradients lib obj niter nrange st))"
    by (simp add: final_def)
  \<comment> \<open>the first optimiser, in cell 5\<close>
  let ?pre3 = "?pre2 @ [library lib ''gpr.compute_log_likelihood'' [Output ''gpr.compute_log_likelihood()''],
      library lib ''vgp.compute_log_likelihood'' [Output ''vgp.compute_log_likelihood()'']]"
  let ?post3 = "[NatGradOptimizer_minimize lib 1 (vgp obj) 1 [(q_mu (vgp obj), q_sqrt (vgp obj), None)],
      show_log_likelihood lib ''vgp''] @ ?rest"
  have split3: "final = statements ?post3
      (library lib ''NatGradOptimizer()'' [Tool ''NatGradOptimizer''] (statements ?pre3 (initial st)))"
    by (simp add: final_def natural_gradients_def natgrads_cell_1_def natgrads_cell_2_def
        natgrads_cell_3_def natgrads_cell_4_def natgrads_cell_5_def make_matern_kernel_def
        show_log_likelihood_def)
  have pre3: "grows (\<lambda>e. \<not> is_training e) (initial st) (statements ?pre3 (initial st))"
    by (rule grows_statements_all) (simp add: grows_library grows_filterwarnings)
  have post3: "grows (\<lambda>e. True)
      (library lib ''NatGradOptimizer()'' [Tool ''NatGradOptimizer''] (statements ?pre3 (initial st)))
      final"
    unfolding split3
    by (rule grows_statements_all) (simp add: natgrads_cells_grow grows_any_statements)
  have "precedes is_tool is_training (events final)"
    by (rule precedes_established(1) [OF pre3 start _ post3]) simp_all
  then show "precedes is_tool is_training (events (natural_gradients lib obj niter nrange st))"
    by (simp add: final_def)
qed

lemma natural_gradients_last:
  assumes "failed (natural_gradients lib obj niter nrange st) = None"
  shows "last (events (natural_gradients lib obj niter nrange st))
      = Output ''vgp_bernoulli_natgrads_xi.compute_log_likelihood()''"
proof -
  let ?cells = "[natgrads_cell_1 lib, natgrads_cell_2 lib, natgrads_cell_3 lib, natgrads_cell_4 lib,
        natgrads_cell_5 lib obj, natgrads_cell_8 lib obj, natgrads_cell_9 lib obj,
        natgrads_cell_10 lib, natgrads_cell_11 lib, natgrads_cell_12 lib, natgrads_cell_13 lib,
        natgrads_cell_14 lib obj, natgrads_cell_15 lib obj niter, natgrads_cell_16 lib nrange,
        natgrads_cell_17 lib, natgrads_cell_18 lib obj, natgrads_cell_19 lib nrange,
        natgrads_cell_20 lib nrange, natgrads_cell_21 lib, natgrads_cell_22 lib obj,
        natgrads_cell_23 lib, natgrads_cell_24 lib, natgrads_cell_25 lib obj]"
  have split: "natural_gradients lib obj niter nrange st =
      library lib ''vgp_bernoulli_natgrads_xi.compute_log_likelihood''
        [Output ''vgp_bernoulli_natgrads_xi.compute_log_likelihood()'']
        (statements ?cells (initial st))"
    by (simp add: natural_gradients_def natgrads_cell_26_def show_log_likelihood_def)
  from assms show ?thesis
    unfolding split by (simp add: library_last)
qed

section \<open>Completion: what each primitive needs\<close>

lemma completesI:
  assumes "\<And>u. failed u = None \<Longrightarrow> all_trainable T (store u)
      \<Longrightarrow> failed (f u) = None \<and> all_trainable T (store (f u))"
  shows "completes T f"
  using assms by (simp add: completes_def)

lemma completesD:
  assumes "completes T f" and "failed u = None" and "all_trainable T (store u)"
  shows "failed (f u) = None" and "all_trainable T (store (f u))"
  using assms by (simp_all add: completes_def)

lemma completes_id: "completes T (\<lambda>w. w)"
  by (simp add: completes_def)

lemma completes_lib_call:
  assumes "\<And>u. failed u = None \<Longrightarrow> all_trainable T (store u) \<Longrightarrow> \<not> isl (snd (call u))"
    and "\<And>u v x. snd (call u) = Inr x \<Longrightarrow> all_trainable T (store u) \<Longrightarrow> failed v = None
      \<Longrightarrow> store v = store u \<Longrightarrow> failed (cont x v) = None \<and> all_trainable T (store (cont x v))"
  shows "completes T (lib_call call cont)"
proof (rule completesI)
  fix u :: "'a world"
  assume u: "failed u = None" "all_trainable T (store u)"
  obtain msgs r where c: "call u = (msgs, r)" by (cases "call u")
  with assms(1) [OF u] obtain x where r: "r = Inr x" by (cases r) simp_all
  have "failed (cont x (show_warnings msgs u)) = None
      \<and> all_trainable T (store (cont x (show_warnings msgs u)))"
    using c r u by (intro assms(2) [of u]) simp_all
  then show "failed (lib_call call cont u) = None \<and> all_trainable T (store (lib_call call cont u))"
    using u c r by (simp add: lib_call_def)
qed

lemma completes_emit: "completes T (emit es)"
  by (rule completesI) simp

lemma completes_library:
  assumes "never_raises lib" and "keeps_trainable lib T"
  shows "completes T (library lib c es)"
proof -
  have "completes T (lib_call (\<lambda>w. api lib c (store w)) (\<lambda>st w. emit es (w\<lparr>store := st\<rparr>)))"
  proof (rule completes_lib_call)
    show "\<not> isl (snd (api lib c (store u)))" for u :: "'a world"
      using assms(1) by (simp add: never_raises_def)
    show "failed (emit es (v\<lparr>store := st\<rparr>)) = None
        \<and> all_trainable T (store (emit es (v\<lparr>store := st\<rparr>)))"
      if "snd (api lib c (store u)) = Inr st" "all_trainable T (store u)" "failed v = None"
      for u v :: "'a world" and st
      using that assms(2) unfolding keeps_trainable_def by auto
  qed
  then show ?thesis by (simp add: library_def [abs_def])
qed

lemma completes_stmt: "completes T f \<Longrightarrow> completes T (stmt f)"
  by (simp add: completes_def stmt_def)

lemma completes_filterwarnings: "completes T (stmt filterwarnings_ignore)"
  by (simp add: completes_def stmt_def filterwarnings_ignore_def)

lemma completes_set_trainable: "p \<notin> T \<Longrightarrow> completes T (stmt (set_trainable p b))"
  by (rule completes_stmt) (auto simp: completes_def all_trainable_def)

lemma completes_statements:
  assumes "list_all (completes T) fs"
  shows "completes T (statements fs)"
proof (rule completesI)
  fix u :: "'a world"
  assume "failed u = None" "all_trainable T (store u)"
  with assms show "failed (statements fs u) = None \<and> all_trainable T (store (statements fs u))"
  proof (induction fs arbitrary: u)
    case Nil
    then show ?case by simp
  next
    case (Cons f fs)
    from Cons.prems(1) have f: "completes T f" and fs: "list_all (completes T) fs" by simp_all
    note completesD [OF f Cons.prems(2,3)]
    with fs have "failed (statements fs (f u)) = None
        \<and> all_trainable T (store (statements fs (f u)))"
      by (intro Cons.IH)
    then show ?case by (simp add: statements_simps)
  qed
qed

lemma completes_assign: "completes T (assign vars new)"
  by (rule completesI) (simp add: all_trainable_def)

lemma completes_step:
  assumes "\<And>u. \<not> isl (snd (call u))"
  shows "completes T (lib_call call (assign vars))"
proof (rule completes_lib_call)
  show "\<not> isl (snd (call u))" for u :: "'a world" by (rule assms)
  show "failed (assign vars x v) = None \<and> all_trainable T (store (assign vars x v))"
    if "all_trainable T (store u)" "failed v = None" "store v = store u"
    for u v :: "'a world" and x
    using that by (simp add: all_trainable_def)
qed

lemma completes_run_action:
  assumes "never_raises lib" and "\<And>f. a = Action f \<Longrightarrow> completes T (f i)"
  shows "completes T (run_action lib a i)"
proof (cases a)
  case (Adam_action lr vars)
  have "completes T (lib_call (\<lambda>w. adam_step lib lr i vars (store w)) (assign vars))"
    using assms(1) by (intro completes_step) (simp add: never_raises_def)
  then show ?thesis using Adam_action by (simp add: completes_def)
next
  case (NatGrad_action gamma vl)
  have "completes T (lib_call (\<lambda>w. natgrad_step lib gamma i vl (store w)) (assign (natgrad_vars vl)))"
    using assms(1) by (intro completes_step) (simp add: never_raises_def)
  then show ?thesis using NatGrad_action by (simp add: completes_def)
next
  case (Action f)
  with assms(2) have "completes T (stmt (f i))" by (simp add: completes_stmt)
  then show ?thesis using Action by (simp add: completes_def)
qed

lemma completes_run_actions:
  assumes "\<And>a. a \<in> set actions \<Longrightarrow> completes T (run_action lib a i)"
  shows "completes T (run_actions lib actions i)"
proof (rule completesI)
  fix u :: "'a world"
  assume "failed u = None" "all_trainable T (store u)"
  with assms show "failed (run_actions lib actions i u) = None
      \<and> all_trainable T (store (run_actions lib actions i u))"
  proof (induction actions arbitrary: u)
    case Nil
    then show ?case by simp
  next
    case (Cons a actions)
    have a: "completes T (run_action lib a i)" by (rule Cons.prems(1)) simp
    note completesD [OF a Cons.prems(2,3)]
    moreover have "completes T (run_action lib a' i)" if "a' \<in> set actions" for a'
      using that by (intro Cons.prems(1)) simp
    ultimately have "failed (run_actions lib actions i (run_action lib a i u)) = None
        \<and> all_trainable T (store (run_actions lib actions i (run_action lib a i u)))"
      by (intro Cons.IH)
    then show ?case by simp
  qed
qed

lemma completes_iterate:
  assumes "\<And>a i. a \<in> set actions \<Longrightarrow> completes T (run_action lib a i)"
  shows "completes T (iterate lib actions n)"
proof (rule completesI)
  fix u :: "'a world"
  assume u: "failed u = None" "all_trainable T (store u)"
  have "failed (foldl (\<lambda>w i. run_actions lib actions i w) u is) = None
      \<and> all_trainable T (store (foldl (\<lambda>w i. run_actions lib actions i w) u is))" for "is"
    using u
  proof (induction "is" arbitrary: u)
    case Nil
    then show ?case by simp
  next
    case (Cons i "is")
    have "completes T (run_actions lib actions i)"
      using assms by (rule completes_run_actions)
    note completesD [OF this Cons.prems]
    then have "failed (foldl (\<lambda>w i. run_actions lib actions i w) (run_actions lib actions i u) is) = None
        \<and> all_trainable T (store (foldl (\<lambda>w i. run_actions lib actions i w)
              (run_actions lib actions i u) is))"
      by (rule Cons.IH)
    then show ?case by simp
  qed
  then show "failed (iterate lib actions n u) = None
      \<and> all_trainable T (store (iterate lib actions n u))"
    by (simp add: iterate_def)
qed

lemma completes_anchor: "completes T (stmt (anchor m))"
  by (simp add: completes_def)

lemma completes_Loop:
  assumes "\<And>a i. a \<in> set actions \<Longrightarrow> completes T (run_action lib a i)"
  shows "completes T (Loop lib actions n)"
proof -
  have "completes T (iterate lib actions n)" using assms by (rule completes_iterate)
  then have "completes T (statements [stmt (emit [Training ''Loop'']), iterate lib actions n])"
    by (intro completes_statements) (simp add: completes_stmt completes_emit)
  then show ?thesis by (simp add: Loop_def [abs_def] completes_def statements_simps)
qed

lemma completes_PrintAction_run:
  assumes "never_raises lib"
  shows "completes T (PrintAction_run lib self i)"
proof -
  have "completes T (lib_call
      (\<lambda>w. likelihood_tensor lib (name (model self)) (parameters (model self)) (store w))
      (\<lambda>likelihood. emit [Print_likelihood (text' self) i likelihood]))"
  proof (rule completes_lib_call)
    show "\<not> isl (snd (likelihood_tensor lib (name (model self)) (parameters (model self)) (store u)))"
      for u :: "'a world"
      using assms by (simp add: never_raises_def)
  qed simp
  then show ?thesis by (simp add: PrintAction_run_def [abs_def])
qed

section \<open>Completion of natural gradients\<close>

lemma completes_optimise_actions:
  assumes "never_raises lib"
  shows "completes T (run_action lib (NatGradOptimizer_make_optimize_action gamma m vl) i)"
    and "completes T (run_action lib (Adam_action lr vars) i)"
    and "completes T (run_action lib (NatGrad_action gamma vl) i)"
    and "completes T (run_action lib (Action (PrintAction_run lib self)) i)"
  unfolding NatGradOptimizer_make_optimize_action_def
  using assms by (auto intro!: completes_run_action completes_PrintAction_run)

text \<open>With a parameter of the model in \<open>T\<close>, Adam has a variable to optimise.\<close>

lemma completes_with_adam:
  fixes rest :: "'v action \<Rightarrow> 'v world \<Rightarrow> 'v world"
  assumes "set (parameters m) \<inter> T \<noteq> {}" and "\<And>vars. completes T (rest (Adam_action lr vars))"
  shows "completes T (lib_call (\<lambda>w. ([], AdamOptimizer_make_optimize_action lr m w)) rest)"
proof (rule completes_lib_call)
  fix u :: "'v world"
  assume "all_trainable T (store u)"
  with assms(1) have "filter (\<lambda>p. trainable (store u p)) (parameters m) \<noteq> []"
    by (auto simp: all_trainable_def filter_empty_conv)
  then show "\<not> isl (snd ([], AdamOptimizer_make_optimize_action lr m u))"
    by (simp add: AdamOptimizer_make_optimize_action_def)
next
  fix u v :: "'v world" and adam
  assume "snd ([], AdamOptimizer_make_optimize_action lr m u) = Inr adam"
    and v: "all_trainable T (store u)" "failed v = None" "store v = store u"
  then obtain vars where "adam = Adam_action lr vars"
    using AdamOptimizer_make_optimize_action_Inr [of lr m u adam] by auto
  moreover note completesD [OF assms(2) [of vars] v(2)]
  ultimately show "failed (rest adam v) = None \<and> all_trainable T (store (rest adam v))"
    using v by simp
qed

lemma completes_run_adam:
  assumes "never_raises lib" and "set (parameters m) \<inter> T \<noteq> {}"
    and "callback = None \<or> (\<exists>self. callback = Some (Action (PrintAction_run lib self)))"
  shows "completes T (run_adam lib m lr n callback)"
proof -
  define actions where "actions = (\<lambda>adam.
      case callback of None \<Rightarrow> [adam] | Some cb \<Rightarrow> [adam, cb])"
  have rest: "completes T (statements [Loop lib (actions (Adam_action lr vars)) n, stmt (anchor m)])"
    for vars
  proof -
    have "completes T (run_action lib a i)" if "a \<in> set (actions (Adam_action lr vars))" for a i
      using that assms(1,3)
      by (auto simp: actions_def completes_optimise_actions simp del: run_action.simps)
    then have "completes T (Loop lib (actions (Adam_action lr vars)) n)" by (rule completes_Loop)
    then show ?thesis by (intro completes_statements) (simp add: completes_anchor)
  qed
  have "completes T (lib_call (\<lambda>w. ([], AdamOptimizer_make_optimize_action lr m w))
      (\<lambda>adam. statements [Loop lib (actions adam) n, stmt (anchor m)]))"
    by (rule completes_with_adam [where rest = "\<lambda>adam. statements
          [Loop lib (actions adam) n, stmt (anchor m)]", OF assms(2)]) (rule rest)
  then have "completes T (statements
      [stmt (emit [Tool ''AdamOptimizer'']),
       lib_call (\<lambda>w. ([], AdamOptimizer_make_optimize_action lr m w))
         (\<lambda>adam. statements [Loop lib (actions adam) n, stmt (anchor m)])])"
    by (intro completes_statements) (simp add: completes_stmt completes_emit)
  then show ?thesis by (simp add: run_adam_def [abs_def] actions_def)
qed

lemma completes_run_nat_grads_with_adam:
  assumes "never_raises lib" and "set (parameters m) \<inter> T \<noteq> {}"
    and "q_mu m \<notin> T" and "q_sqrt m \<notin> T"
    and "callback = None \<or> (\<exists>self. callback = Some (Action (PrintAction_run lib self)))"
  shows "completes T (run_nat_grads_with_adam lib m lr gamma n var_list callback)"
proof -
  define vl where "vl = (case var_list of None \<Rightarrow> [(q_mu m, q_sqrt m, None)] | Some vl \<Rightarrow> vl)"
  define actions where "actions = (\<lambda>adam.
      case callback of None \<Rightarrow> [adam, NatGrad_action gamma vl]
      | Some cb \<Rightarrow> [adam, NatGrad_action gamma vl] @ [cb])"
  have rest: "completes T (statements
      [stmt (emit [Tool ''NatGradOptimizer'']), Loop lib (actions (Adam_action lr vars)) n,
       stmt (anchor m)])" for vars
  proof -
    have "completes T (run_action lib a i)" if "a \<in> set (actions (Adam_action lr vars))" for a i
      using that assms(1,5)
      by (auto simp: actions_def completes_optimise_actions simp del: run_action.simps)
    then have "completes T (Loop lib (actions (Adam_action lr vars)) n)" by (rule completes_Loop)
    then show ?thesis
      by (intro completes_statements) (simp add: completes_stmt completes_emit completes_anchor)
  qed
  have "completes T (lib_call (\<lambda>w. ([], AdamOptimizer_make_optimize_action lr m w))
      (\<lambda>adam. statements
         [stmt (emit [Tool ''NatGradOptimizer'']), Loop lib (actions adam) n, stmt (anchor m)]))"
    by (rule completes_with_adam [where rest = "\<lambda>adam. statements
          [stmt (emit [Tool ''NatGradOptimizer'']), Loop lib (actions adam) n, stmt (anchor m)]",
          OF assms(2)]) (rule rest)
  then have "completes T (statements
      [stmt (set_trainable (q_mu m) False), stmt (set_trainable (q_sqrt m) False),
       stmt (emit [Tool ''AdamOptimizer'']),
       lib_call (\<lambda>w. ([], AdamOptimizer_make_optimize_action lr m w))
         (\<lambda>adam. statements
            [stmt (emit [Tool ''NatGradOptimizer'']), Loop lib (actions adam) n,
             stmt (anchor m)])])"
    using assms(3,4)
    by (intro completes_statements)
      (simp add: completes_set_trainable completes_stmt completes_emit)
  then show ?thesis
    by (simp add: run_nat_grads_with_adam_def [abs_def] vl_def actions_def Let_def
        NatGradOptimizer_make_optimize_action_def cong: option.case_cong)
qed

lemma completes_AdamOptimizer_minimize:
  assumes "never_raises lib" and "set (parameters m) \<inter> T \<noteq> {}"
    and "\<And>cb i. step_callback = Some cb \<Longrightarrow> completes T (cb i)"
  shows "completes T (AdamOptimizer_minimize lib lr m n step_callback)"
proof -
  define actions where "actions = (\<lambda>adam.
      case step_callback of None \<Rightarrow> [adam] | Some cb \<Rightarrow> [adam, Action (\<lambda>i. cb (Suc i))])"
  have rest: "completes T (statements [iterate lib (actions (Adam_action lr vars)) n, stmt (anchor m)])"
    for vars
  proof -
    have "completes T (run_action lib a i)" if "a \<in> set (actions (Adam_action lr vars))" for a i
    proof (cases step_callback)
      case None
      with that assms(1) show ?thesis
        by (simp add: actions_def completes_optimise_actions del: run_action.simps)
    next
      case (Some cb)
      with that consider "a = Adam_action lr vars" | "a = Action (\<lambda>i. cb (Suc i))"
        by (auto simp: actions_def)
      then show ?thesis
      proof cases
        case 1
        with assms(1) show ?thesis by (simp add: completes_optimise_actions del: run_action.simps)
      next
        case 2
        have "completes T (stmt (cb (Suc i)))" using assms(3) Some by (simp add: completes_stmt)
        with 2 show ?thesis by (simp add: completes_def)
      qed
    qed
    then have "completes T (iterate lib (actions (Adam_action lr vars)) n)"
      by (rule completes_iterate)
    then show ?thesis by (intro completes_statements) (simp add: completes_anchor)
  qed
  have "completes T (lib_call (\<lambda>w. ([], AdamOptimizer_make_optimize_action lr m w))
      (\<lambda>adam. statements [iterate lib (actions adam) n, stmt (anchor m)]))"
    by (rule completes_with_adam [where rest = "\<lambda>adam. statements
          [iterate lib (actions adam) n, stmt (anchor m)]", OF assms(2)]) (rule rest)
  then have "completes T (statements
      [stmt (emit [Training ''minimize'']),
       lib_call (\<lambda>w. ([], AdamOptimizer_make_optimize_action lr m w))
         (\<lambda>adam. statements [iterate lib (actions adam) n, stmt (anchor m)])])"
    by (intro completes_statements) (simp add: completes_stmt completes_emit)
  then show ?thesis by (simp add: AdamOptimizer_minimize_def [abs_def] actions_def)
qed

lemma completes_NatGradOptimizer_minimize:
  assumes "never_raises lib"
  shows "completes T (NatGradOptimizer_minimize lib gamma m n vl)"
proof -
  let ?actions = "[NatGradOptimizer_make_optimize_action gamma m vl]"
  have "completes T (run_action lib a i)" if "a \<in> set ?actions" for a i
    using that assms by (simp add: completes_optimise_actions del: run_action.simps)
  then have "completes T (iterate lib ?actions n)" by (rule completes_iterate)
  then have "completes T (statements [stmt (emit [Training ''minimize'']), iterate lib ?actions n])"
    by (intro completes_statements) (simp add: completes_stmt completes_emit)
  then show ?thesis
    by (simp add: NatGradOptimizer_minimize_def [abs_def] completes_def stmt_def Let_def
        statements_simps anchor_def)
qed

lemma completes_notebook_calls:
  assumes "never_raises lib"
  shows "set (parameters m) \<inter> T \<noteq> {}
      \<Longrightarrow> completes T (run_adam lib m lr n (Some (Action (PrintAction_run lib self))))"
    and "set (parameters m') \<inter> T \<noteq> {} \<and> q_mu m' \<notin> T \<and> q_sqrt m' \<notin> T
      \<Longrightarrow> completes T (run_nat_grads_with_adam lib m' lr gamma n var_list
           (Some (Action (PrintAction_run lib self'))))"
    and "set (parameters m') \<inter> T \<noteq> {} \<and> q_mu m' \<notin> T \<and> q_sqrt m' \<notin> T
      \<Longrightarrow> completes T (run_nat_grads_with_adam lib m' lr gamma n var_list None)"
    and "set (parameters m) \<inter> T \<noteq> {} \<Longrightarrow> completes T (AdamOptimizer_minimize lib lr m n None)"
proof -
  show "completes T (run_adam lib m lr n (Some (Action (PrintAction_run lib self))))"
    if "set (parameters m) \<inter> T \<noteq> {}"
    using assms that by (rule completes_run_adam) blast
  show "completes T (run_nat_grads_with_adam lib m' lr gamma n var_list
      (Some (Action (PrintAction_run lib self'))))"
    if "set (parameters m') \<inter> T \<noteq> {} \<and> q_mu m' \<notin> T \<and> q_sqrt m' \<notin> T"
    by (rule completes_run_nat_grads_with_adam) (use assms that in blast)+
  show "completes T (run_nat_grads_with_adam lib m' lr gamma n var_list None)"
    if "set (parameters m') \<inter> T \<noteq> {} \<and> q_mu m' \<notin> T \<and> q_sqrt m' \<notin> T"
    by (rule completes_run_nat_grads_with_adam) (use assms that in simp_all)
  show "completes T (AdamOptimizer_minimize lib lr m n None)"
    if "set (parameters m) \<inter> T \<noteq> {}"
    using assms that by (rule completes_AdamOptimizer_minimize) simp
qed

lemma completes_show:
  assumes "never_raises lib" and "keeps_trainable lib T"
  shows "completes T (show_log_likelihood lib v)"
    and "completes T (show_average_log_likelihood lib v n)"
    and "completes T (make_matern_kernel lib)"
  unfolding show_log_likelihood_def show_average_log_likelihood_def make_matern_kernel_def
  using assms
  by (simp_all add: completes_library completes_statements list_all_iff)

lemma completes_natgrads_cells:
  assumes "never_raises lib" and "keeps_trainable lib T" and "hyperparameters_in obj T"
  shows "completes T (natgrads_cell_1 lib)"
  "completes T (natgrads_cell_2 lib)"
  "completes T (natgrads_cell_3 lib)"
  "completes T (natgrads_cell_4 lib)"
  "completes T (natgrads_cell_5 lib obj)"
  "completes T (natgrads_cell_8 lib obj)"
  "completes T (natgrads_cell_9 lib obj)"
  "completes T (natgrads_cell_10 lib)"
  "completes T (natgrads_cell_11 lib)"
  "completes T (natgrads_cell_12 lib)"
  "completes T (natgrads_cell_13 lib)"
  "completes T (natgrads_cell_14 lib obj)"
  "completes T (natgrads_cell_15 lib obj niter)"
  "completes T (natgrads_cell_16 lib nrange)"
  "completes T (natgrads_cell_17 lib)"
  "completes T (natgrads_cell_18 lib obj)"
  "completes T (natgrads_cell_19 lib nrange)"
  "completes T (natgrads_cell_20 lib nrange)"
  "completes T (natgrads_cell_21 lib)"
  "completes T (natgrads_cell_22 lib obj)"
  "completes T (natgrads_cell_23 lib)"
  "completes T (natgrads_cell_24 lib)"
  "completes T (natgrads_cell_25 lib obj)"
  "completes T (natgrads_cell_26 lib)"
  unfolding natgrads_cell_1_def natgrads_cell_2_def natgrads_cell_3_def natgrads_cell_4_def
    natgrads_cell_5_def natgrads_cell_8_def natgrads_cell_9_def natgrads_cell_10_def
    natgrads_cell_11_def natgrads_cell_12_def natgrads_cell_13_def natgrads_cell_14_def
    natgrads_cell_15_def natgrads_cell_16_def natgrads_cell_17_def natgrads_cell_18_def
    natgrads_cell_19_def natgrads_cell_20_def natgrads_cell_21_def natgrads_cell_22_def
    natgrads_cell_23_def natgrads_cell_24_def natgrads_cell_25_def natgrads_cell_26_def
  using assms
  by (simp_all add: completes_statements completes_library completes_show
      completes_filterwarnings completes_NatGradOptimizer_minimize
      completes_notebook_calls hyperparameters_in_def)

lemma natural_gradients_completes:
  assumes "never_raises lib" and "keeps_trainable lib T" and "hyperparameters_in obj T"
    and "all_trainable T st"
  shows "failed (natural_gradients lib obj niter nrange st) = None"
proof -
  have "completes T (statements
       [natgrads_cell_1 lib, natgrads_cell_2 lib, natgrads_cell_3 lib, natgrads_cell_4 lib,
        natgrads_cell_5 lib obj, natgrads_cell_8 lib obj, natgrads_cell_9 lib obj,
        natgrads_cell_10 lib, natgrads_cell_11 lib, natgrads_cell_12 lib, natgrads_cell_13 lib,
        natgrads_cell_14 lib obj, natgrads_cell_15 lib obj niter, natgrads_cell_16 lib nrange,
        natgrads_cell_17 lib, natgrads_cell_18 lib obj, natgrads_cell_19 lib nrange,
        natgrads_cell_20 lib nrange, natgrads_cell_21 lib, natgrads_cell_22 lib obj,
        natgrads_cell_23 lib, natgrads_cell_24 lib, natgrads_cell_25 lib obj,
        natgrads_cell_26 lib])"
    by (rule completes_statements) (simp add: completes_natgrads_cells [OF assms(1-3)])
  moreover have "failed (initial st) = None" "all_trainable T (store (initial st))"
    using assms(4) by (simp_all add: initial_def)
  ultimately show ?thesis
    unfolding natural_gradients_def by (rule completesD(1))
qed

section \<open>Completion of monitor-tensorboard\<close>

lemma comprehension_total:
  assumes "\<And>x. x \<in> set xs \<Longrightarrow> \<not> isl (f x)"
  shows "\<exists>ys. comprehension f xs = Inr ys \<and> length ys = length xs"
  using assms
proof (induction xs)
  case Nil
  then show ?case by simp
next
  case (Cons x xs)
  from Cons.prems [of x] obtain y where y: "f x = Inr y" by (cases "f x") simp_all
  from Cons obtain ys where "comprehension f xs = Inr ys" "length ys = length xs" by auto
  with y show ?case by simp
qed

lemma CustomTensorBoardTask_run_total:
  assumes predict: "\<And>m xs. \<not> isl (predict_y lb m xs)"
    and rmse: "\<And>ys ps. \<not> isl (np_rmse lb ys ps)"
    and data: "global_Xt g \<noteq> []"
  shows "\<not> isl (CustomTensorBoardTask_run lb g (CustomTensorBoardTask_init fw m xt yt) context)"
proof -
  let ?self = "CustomTensorBoardTask_init fw m xt yt"
  let ?f = "\<lambda>mb. case predict_y lb m (minibatch (global_Xt g) mb) of
      Inl e \<Rightarrow> Inl e | Inr p \<Rightarrow> Inr (fst p)"
  let ?r = "py_range (n_minibatches (global_Xt g))"
  have "\<not> isl (?f mb)" for mb
    using predict [of m "minibatch (global_Xt g) mb"]
    by (cases "predict_y lb m (minibatch (global_Xt g) mb)") simp_all
  then obtain arrays where arrays: "comprehension ?f ?r = Inr arrays" "length arrays = length ?r"
    using comprehension_total [of ?r ?f] by blast
  from data have "?r \<noteq> []" by (simp add: py_range_def n_minibatches_nat n_minibatches_pos)
  with arrays(2) have "arrays \<noteq> []" by auto
  with arrays(1) have ps: "preds lb m (global_Xt g) = Inr (concat arrays)"
    by (simp add: preds_def np_vstack_def)
  obtain err where err: "np_rmse lb (global_Yt g) (concat arrays) = Inr err"
    using rmse [of "global_Yt g" "concat arrays"]
    by (cases "np_rmse lb (global_Yt g) (concat arrays)") simp_all
  show ?thesis
    using ps err
    by (simp add: CustomTensorBoardTask_run_def CustomTensorBoardTask_init_def eval_summary_def)
qed

lemma completes_run_task:
  fixes g :: "'x globals" and predictor :: "(pid \<Rightarrow> 'v parameter) \<Rightarrow> (gp_model, 'x) library"
  assumes "never_raises lib" and "keeps_trainable lib T" and "predicts predictor"
    and "global_Xt g \<noteq> []" and t: "kind t \<in> kind ` set (monitor_tasks m g)"
  shows "completes T (run_task lib predictor g t i)"
proof (cases "kind t")
  case (Custom_task self)
  with t have self: "self = CustomTensorBoardTask_init file_writer_dir m (global_Xt g) (global_Yt g)"
    by (auto simp: monitor_tasks_def print_task_def model_tboard_task_def lml_tboard_task_def
        custom_tboard_task_def saver_task_def sleep_task_def new_task_def with_name_def
        with_condition_def with_exit_condition_def)
  have "completes T (lib_call
      (\<lambda>w. ([], CustomTensorBoardTask_run (predictor (store w)) g self
                   \<lparr>iteration_no = i, global_step = session_global_step lib (store w),
                    session_float32 = float32 lib\<rparr>))
      (\<lambda>ev w. w))"
  proof (rule completes_lib_call)
    fix u :: "'v world"
    show "\<not> isl (snd ([], CustomTensorBoardTask_run (predictor (store u)) g self
        \<lparr>iteration_no = i, global_step = session_global_step lib (store u),
         session_float32 = float32 lib\<rparr>))"
      unfolding self snd_conv
      using assms(3,4) by (intro CustomTensorBoardTask_run_total) (simp_all add: predicts_def)
  qed simp
  then show ?thesis using Custom_task by (simp add: run_task_def [abs_def])
qed (use assms(1,2) in \<open>simp_all add: run_task_def [abs_def] completes_library\<close>)

lemma completes_Monitor_call:
  fixes g :: "'x globals" and predictor :: "(pid \<Rightarrow> 'v parameter) \<Rightarrow> (gp_model, 'x) library"
  assumes "never_raises lib" and "keeps_trainable lib T" and "predicts predictor"
    and "global_Xt g \<noteq> []" and "kind ` set tasks \<subseteq> kind ` set (monitor_tasks m g)"
  shows "completes T (Monitor_call lib predictor g tasks i)"
proof (rule completesI)
  fix u :: "'v world"
  assume "failed u = None" "all_trainable T (store u)"
  with assms(5) show "failed (Monitor_call lib predictor g tasks i u) = None
      \<and> all_trainable T (store (Monitor_call lib predictor g tasks i u))"
  proof (induction tasks arbitrary: u)
    case Nil
    then show ?case by simp
  next
    case (Cons t tasks)
    let ?u1 = "if condition t i then run_task lib predictor g t i u else u"
    have "completes T (run_task lib predictor g t i)"
      using assms(1-4) Cons.prems(1) by (intro completes_run_task) auto
    note completesD [OF this Cons.prems(2,3)]
    with Cons.prems(2,3) have "failed ?u1 = None" "all_trainable T (store ?u1)" by simp_all
    moreover from Cons.prems(1) have "kind ` set tasks \<subseteq> kind ` set (monitor_tasks m g)" by simp
    ultimately have "failed (Monitor_call lib predictor g tasks i ?u1) = None
        \<and> all_trainable T (store (Monitor_call lib predictor g tasks i ?u1))"
      by (intro Cons.IH)
    then show ?case by simp
  qed
qed

lemma completes_Monitor_exit:
  fixes g :: "'x globals" and predictor :: "(pid \<Rightarrow> 'v parameter) \<Rightarrow> (gp_model, 'x) library"
  assumes "never_raises lib" and "keeps_trainable lib T" and "predicts predictor"
    and "global_Xt g \<noteq> []"
  shows "completes T (Monitor_exit lib predictor g (monitor_tasks m g) b i)"
proof -
  let ?tasks = "map (\<lambda>t. t\<lparr>condition := (\<lambda>i. exit_condition t)\<rparr>) (monitor_tasks m g)"
  have "kind ` set ?tasks \<subseteq> kind ` set (monitor_tasks m g)" by auto
  with assms have 1: "completes T (Monitor_call lib predictor g ?tasks i)"
    by (rule completes_Monitor_call)
  have 2: "completes T (library lib ''print_summary'' [Output ''Tasks execution time summary''])"
    using assms(1,2) by (rule completes_library)
  have "completes T (statements [Monitor_call lib predictor g ?tasks i,
      library lib ''print_summary'' [Output ''Tasks execution time summary'']])"
    by (intro completes_statements) (simp add: 1 2)
  with 1 show ?thesis
    by (cases b) (simp_all add: Monitor_exit_def [abs_def] Let_def completes_def)
qed

lemma completes_with_block:
  assumes "completes T body" and "completes T exit"
  shows "completes T (with_block body exit)"
  using assms by (simp add: completes_def with_block_def Let_def)

lemma monitor_tensorboard_completes:
  fixes g :: "'x globals" and predictor :: "(pid \<Rightarrow> 'v parameter) \<Rightarrow> (gp_model, 'x) library"
  assumes "never_raises lib" and "keeps_trainable lib T" and "predicts predictor"
    and "global_Xt g \<noteq> []" and "set (parameters m) \<inter> T \<noteq> {}" and "all_trainable T st"
  shows "failed (monitor_tensorboard lib predictor isdir g m st) = None"
proof -
  have call: "completes T (Monitor_call lib predictor g (monitor_tasks m g) i)" for i
    using assms(1-4) by (rule completes_Monitor_call [where m = m]) simp
  have "completes T (AdamOptimizer_minimize lib lr m n
      (Some (Monitor_call lib predictor g (monitor_tasks m g))))" for lr n
    using assms(1,5) by (rule completes_AdamOptimizer_minimize) (auto simp: call)
  moreover have "completes T (Monitor_exit lib predictor g (monitor_tasks m g) b i)" for b i
    using assms(1-4) by (rule completes_Monitor_exit)
  ultimately have block: "completes T (with_block
      (AdamOptimizer_minimize lib lr m n (Some (Monitor_call lib predictor g (monitor_tasks m g))))
      (Monitor_exit lib predictor g (monitor_tasks m g) b i))" for lr n b i
    by (rule completes_with_block)
  have cell_8: "completes T (monitor_cell_8 lib isdir)"
  proof (cases "isdir ''./monitor-saves''")
    case True
    then show ?thesis
      using completes_library [OF assms(1,2), of "''restore_session''" "[Restore ''./monitor-saves'']"]
      by (simp add: monitor_cell_8_def [abs_def])
  next
    case False
    then show ?thesis by (simp add: monitor_cell_8_def [abs_def] completes_def)
  qed
  have cells: "completes T (monitor_cell_1 lib)" "completes T (monitor_cell_2 lib)"
    "completes T (monitor_cell_3 lib)" "completes T (monitor_cell_4 lib)"
    "completes T (monitor_cell_5 lib)" "completes T (monitor_cell_6 lib)"
    "completes T (monitor_cell_7 lib)"
    "completes T (monitor_cell_9 lib predictor g m)" "completes T (monitor_cell_10 lib)"
    unfolding monitor_cell_1_def monitor_cell_2_def monitor_cell_3_def monitor_cell_4_def
      monitor_cell_5_def monitor_cell_6_def monitor_cell_7_def
      monitor_cell_9_def monitor_cell_10_def
    using assms(1,2)
    by (simp_all add: completes_statements completes_library block)
  have "completes T (statements
       [monitor_cell_1 lib, monitor_cell_2 lib, monitor_cell_3 lib, monitor_cell_4 lib,
        monitor_cell_5 lib, monitor_cell_6 lib, monitor_cell_7 lib, monitor_cell_8 lib isdir,
        monitor_cell_9 lib predictor g m, monitor_cell_10 lib])"
    by (rule completes_statements) (simp add: cells cell_8)
  moreover have "failed (initial st) = None" "all_trainable T (store (initial st))"
    using assms(6) by (simp_all add: initial_def)
  ultimately show ?thesis
    unfolding monitor_tensorboard_def by (rule completesD(1))
qed

lemma never_raises_lib0:
  "never_raises lib0" "never_raises lib_warning"
  "keeps_trainable lib0 T" "keeps_trainable lib_warning T"
  by (simp_all add: never_raises_def keeps_trainable_def lib0_def lib_warning_def)

lemma predicts_predictor0: "predicts predictor0"
  by (simp add: predicts_def predictor0_def)

lemma hyperparameters_objects0: "hyperparameters_in objects0 {2}" "all_trainable {2} store0"
  "set (parameters svgp0) \<inter> {2} \<noteq> {}"
  by (simp_all add: hyperparameters_in_def objects0_def vgp0_def svgp0_def all_trainable_def
      store0_def)

section \<open>The start of training in monitor-tensorboard\<close>

lemma with_block_events:
  assumes "failed w = None" and "\<And>u. extends P u (exit u)"
  shows "\<exists>es. events (with_block body exit w) = events (body w) @ es"
proof (cases "failed (body w)")
  case None
  from assms(2) [of "body w"] obtain es where "events (exit (body w)) = events (body w) @ es"
    unfolding extends_def by blast
  then show ?thesis using assms(1) None by (simp add: with_block_def Let_def)
next
  case (Some e)
  from extends_clear_failed [OF assms(2) Some] obtain es where
    "events (exit (body w\<lparr>failed := None\<rparr>)) = events (body w) @ es"
    by blast
  then show ?thesis
    using assms(1) Some by (simp add: with_block_def Let_def split: option.splits)
qed

lemma AdamOptimizer_minimize_events:
  fixes w :: "'v world"
  assumes "failed w = None"
    and "\<And>cb i u. step_callback = Some cb \<Longrightarrow> failed u = None \<Longrightarrow> extends P u (cb i u)"
  shows "\<exists>es. events (AdamOptimizer_minimize lib lr m n step_callback w)
      = events w @ Training ''minimize'' # es"
proof -
  let ?w1 = "emit [Training ''minimize''] w"
  let ?rest = "lib_call (\<lambda>w. ([], AdamOptimizer_make_optimize_action lr m w))
      (\<lambda>adam. statements
         [iterate lib (case step_callback of None \<Rightarrow> [adam]
            | Some cb \<Rightarrow> [adam, Action (\<lambda>i. cb (Suc i))]) n,
          stmt (anchor m)])"
  have "extends P ?w1 (?rest ?w1)"
  proof (rule extends_with_adam)
    fix vars and v :: "'v world"
    let ?actions = "case step_callback of None \<Rightarrow> [Adam_action lr vars]
      | Some cb \<Rightarrow> [Adam_action lr vars, Action (\<lambda>i. cb (Suc i))]"
    have "extends P u' (run_action lib a i u')" if "a \<in> set ?actions" for a i and u' :: "'v world"
      using that assms(2)
      by (cases step_callback) (auto simp: extends_lib_call extends_assign intro!: extends_stmt)
    then have "extends P v (iterate lib ?actions n v)" by (rule extends_iterate)
    then show "extends P v (statements [iterate lib ?actions n, stmt (anchor m)] v)"
      by simp
  qed
  then obtain es where "events (?rest ?w1) = events ?w1 @ es"
    unfolding extends_def by blast
  then show ?thesis
    using assms(1) by (simp add: AdamOptimizer_minimize_def stmt_def)
qed

lemma monitor_tensorboard_split:
  "monitor_tensorboard lib predictor isdir g m st =
     statements [library lib ''file_writer.close'' [], monitor_cell_10 lib]
       (with_block
          (AdamOptimizer_minimize lib 0.01 m 450
             (Some (Monitor_call lib predictor g (monitor_tasks m g))))
          (Monitor_exit lib predictor g (monitor_tasks m g) True 450)
          (monitor_before_training lib isdir st))"
  by (simp add: monitor_tensorboard_def monitor_before_training_def monitor_cell_9_def)

lemma monitor_tensorboard_training:
  fixes g :: "'x globals" and st :: "pid \<Rightarrow> 'v parameter"
  assumes "failed (monitor_before_training lib isdir st) = None"
  shows "\<exists>es. events (monitor_tensorboard lib predictor isdir g m st)
      = events (monitor_before_training lib isdir st) @ Training ''minimize'' # es"
proof -
  let ?w = "monitor_before_training lib isdir st"
  let ?body = "AdamOptimizer_minimize lib 0.01 m 450
      (Some (Monitor_call lib predictor g (monitor_tasks m g)))"
  let ?exit = "Monitor_exit lib predictor g (monitor_tasks m g) True 450"
  have "extends (monitor_event isdir) u (cb i u)"
    if "Some (Monitor_call lib predictor g (monitor_tasks m g)) = Some cb" for cb i and u :: "'v world"
  proof -
    from that have cb: "cb = Monitor_call lib predictor g (monitor_tasks m g)" by simp
    show ?thesis unfolding cb by (rule extends_Monitor_call) (rule monitor_tasks_events)
  qed
  with assms obtain es1 where 1: "events (?body ?w) = events ?w @ Training ''minimize'' # es1"
    using AdamOptimizer_minimize_events [of ?w _ "monitor_event isdir"] by blast
  have exit: "extends (monitor_event isdir) u (?exit u)" for u :: "'v world"
  proof (rule extends_Monitor_exit)
    show "monitor_event isdir (Output ''Tasks execution time summary'')" by simp
    show "list_all (monitor_event isdir) (task_events (kind t))"
      if "t \<in> set (monitor_tasks m g)" for t :: "'x monitor_task"
      using that by (rule monitor_tasks_events)
  qed
  from with_block_events [OF assms exit] obtain es2 where
    2: "events (with_block ?body ?exit ?w) = events (?body ?w) @ es2"
    by blast
  have "grows (\<lambda>e. True) (with_block ?body ?exit ?w)
      (statements [library lib ''file_writer.close'' [], monitor_cell_10 lib]
        (with_block ?body ?exit ?w))"
    by (rule grows_statements_all) (simp add: grows_any_library monitor_cells_grow)
  then obtain es3 where 3: "events (statements [library lib ''file_writer.close'' [], monitor_cell_10 lib]
        (with_block ?body ?exit ?w)) = events (with_block ?body ?exit ?w) @ es3"
    unfolding grows_def by blast
  show ?thesis
    unfolding monitor_tensorboard_split using 1 2 3 by simp
qed

lemma monitor_before_training_lib0:
  "events (monitor_before_training lib0 (\<lambda>d. False) store0) =
     [Model ''SVGP'' ''m'', Output ''LML before the optimisation'', Tool ''global_step'',
      Tool ''PrintTimingsTask'', Tool ''SleepTask'', Tool ''CheckpointTask'',
      Tool ''LogdirWriter'', Tool ''ModelToTensorBoardTask'', Tool ''LmlToTensorBoardTask'',
      Tool ''CustomTensorBoardTask'', Tool ''Monitor'', Tool ''AdamOptimizer'', Tool ''Monitor'']"
  "failed (monitor_before_training lib0 (\<lambda>d. False) store0) = None"
  by (simp_all add: monitor_before_training_def monitor_cell_1_def monitor_cell_2_def
      monitor_cell_3_def monitor_cell_4_def monitor_cell_5_def monitor_cell_6_def
      monitor_cell_7_def monitor_cell_8_def library_def lib_call_def lib0_def initial_def
      emit_def file_writer_dir_def)

section \<open>The start of training in natural gradients\<close>

lemma grows_failed: "grows P w w' \<Longrightarrow> failed w' = None \<Longrightarrow> failed w = None"
  unfolding grows_def by (cases "failed w") auto

lemma with_block_failed: "failed w \<noteq> None \<Longrightarrow> with_block body exit w = w"
  by (auto simp: with_block_def)

lemma monitor_before_training_failed:
  fixes g :: "'x globals" and st :: "pid \<Rightarrow> 'v parameter"
  assumes "failed (monitor_tensorboard lib predictor isdir g m st) = None"
  shows "failed (monitor_before_training lib isdir st) = None"
proof (rule ccontr)
  let ?w = "monitor_before_training lib isdir st"
  let ?rest = "[library lib ''file_writer.close'' [], monitor_cell_10 lib]"
  assume f: "failed ?w \<noteq> None"
  have "grows (\<lambda>e. True) ?w (statements ?rest ?w)"
    by (rule grows_statements_all) (simp add: grows_any_library monitor_cells_grow)
  with f have "statements ?rest ?w = ?w" unfolding grows_def by blast
  with f assms show False
    unfolding monitor_tensorboard_split by (simp only: with_block_failed [OF f])
qed

lemma natural_gradients_minimize_split:
  "natural_gradients lib obj niter nrange st =
     statements
       [show_log_likelihood lib ''vgp'', natgrads_cell_8 lib obj, natgrads_cell_9 lib obj,
        natgrads_cell_10 lib, natgrads_cell_11 lib, natgrads_cell_12 lib, natgrads_cell_13 lib,
        natgrads_cell_14 lib obj, natgrads_cell_15 lib obj niter, natgrads_cell_16 lib nrange,
        natgrads_cell_17 lib, natgrads_cell_18 lib obj, natgrads_cell_19 lib nrange,
        natgrads_cell_20 lib nrange, natgrads_cell_21 lib, natgrads_cell_22 lib obj,
        natgrads_cell_23 lib, natgrads_cell_24 lib, natgrads_cell_25 lib obj,
        natgrads_cell_26 lib]
       (NatGradOptimizer_minimize lib 1 (vgp obj) 1 [(q_mu (vgp obj), q_sqrt (vgp obj), None)]
          (natgrads_before_training lib st))"
  by (simp add: natural_gradients_def natgrads_before_training_def natgrads_cell_5_def)

lemma NatGradOptimizer_minimize_events:
  fixes w :: "'v world"
  assumes "failed w = None"
  shows "\<exists>es. events (NatGradOptimizer_minimize lib gamma m n vl w)
      = events w @ Training ''minimize'' # es"
proof -
  let ?actions = "[NatGradOptimizer_make_optimize_action gamma m vl]"
  let ?w1 = "emit [Training ''minimize''] w"
  have "extends (\<lambda>e. True) u (run_action lib a i u)" if "a \<in> set ?actions" for a i and u :: "'v world"
    using that by (auto simp: extends_optimise_action)
  then have "extends (\<lambda>e. True) ?w1 (iterate lib ?actions n ?w1)" by (rule extends_iterate)
  then obtain es where "events (iterate lib ?actions n ?w1) = events ?w1 @ es"
    unfolding extends_def by blast
  then show ?thesis
    using assms by (simp add: NatGradOptimizer_minimize_def Let_def stmt_def anchor_def)
qed

lemma natgrads_rest_grows:
  "grows (\<lambda>e. True) w (statements
       [show_log_likelihood lib ''vgp'', natgrads_cell_8 lib obj, natgrads_cell_9 lib obj,
        natgrads_cell_10 lib, natgrads_cell_11 lib, natgrads_cell_12 lib, natgrads_cell_13 lib,
        natgrads_cell_14 lib obj, natgrads_cell_15 lib obj niter, natgrads_cell_16 lib nrange,
        natgrads_cell_17 lib, natgrads_cell_18 lib obj, natgrads_cell_19 lib nrange,
        natgrads_cell_20 lib nrange, natgrads_cell_21 lib, natgrads_cell_22 lib obj,
        natgrads_cell_23 lib, natgrads_cell_24 lib, natgrads_cell_25 lib obj,
        natgrads_cell_26 lib] w)"
  by (rule grows_statements_all) (simp add: natgrads_cells_grow grows_any_statements)

lemma natural_gradients_training:
  fixes st :: "pid \<Rightarrow> 'v parameter"
  assumes "failed (natgrads_before_training lib st) = None"
  shows "\<exists>es. events (natural_gradients lib obj niter nrange st)
      = events (natgrads_before_training lib st) @ Training ''minimize'' # es"
proof -
  let ?w = "natgrads_before_training lib st"
  let ?t = "NatGradOptimizer_minimize lib 1 (vgp obj) 1 [(q_mu (vgp obj), q_sqrt (vgp obj), None)] ?w"
  from NatGradOptimizer_minimize_events [OF assms] obtain es1 where
    1: "events ?t = events ?w @ Training ''minimize'' # es1" by blast
  from natgrads_rest_grows [of ?t lib obj niter nrange] obtain es2 where
    2: "events (natural_gradients lib obj niter nrange st) = events ?t @ es2"
    unfolding natural_gradients_minimize_split grows_def by blast
  show ?thesis using 1 2 by simp
qed

lemma natgrads_before_training_failed:
  fixes st :: "pid \<Rightarrow> 'v parameter"
  assumes "failed (natural_gradients lib obj niter nrange st) = None"
  shows "failed (natgrads_before_training lib st) = None"
proof -
  let ?w = "natgrads_before_training lib st"
  let ?t = "NatGradOptimizer_minimize lib 1 (vgp obj) 1 [(q_mu (vgp obj), q_sqrt (vgp obj), None)] ?w"
  have "failed ?t = None"
    using natgrads_rest_grows [of ?t lib obj niter nrange] assms
    unfolding natural_gradients_minimize_split by (rule grows_failed)
  with grows_any_statements(1) [of ?w] show ?thesis by (rule grows_failed)
qed

lemma natgrads_before_training_lib0:
  "events (natgrads_before_training lib0 store0) =
     [Model ''VGP'' ''vgp'', Model ''GPR'' ''gpr'', Output ''gpr.compute_log_likelihood()'',
      Output ''vgp.compute_log_likelihood()'', Tool ''NatGradOptimizer'']"
  "failed (natgrads_before_training lib0 store0) = None"
  by (simp_all add: natgrads_before_training_def natgrads_cell_1_def natgrads_cell_2_def
      natgrads_cell_3_def natgrads_cell_4_def library_def lib_call_def lib0_def initial_def
      emit_def make_matern_kernel_def show_log_likelihood_def stmt_def filterwarnings_ignore_def)

lemma list_ex_training: "es = es1 @ Training t # es2 \<Longrightarrow> list_ex is_training es"
  by simp

section \<open>The order of the phases\<close>

lemma precedes_split:
  assumes "precedes P Q es" and "list_ex Q es"
  shows "\<exists>es1 e es2. es = es1 @ e # es2 \<and> P e \<and> \<not> list_ex Q es1 \<and> list_ex Q (e # es2)"
  using assms
proof (induction es)
  case Nil
  then show ?case by simp
next
  case (Cons a es)
  show ?case
  proof (cases "P a")
    case True
    with Cons.prems(2) have "a # es = [] @ a # es \<and> P a \<and> \<not> list_ex Q [] \<and> list_ex Q (a # es)"
      by simp
    then show ?thesis by blast
  next
    case False
    with Cons.prems have "\<not> Q a" "precedes P Q es" "list_ex Q es" by auto
    with Cons.IH obtain es1 e es2 where
      "es = es1 @ e # es2" "P e" "\<not> list_ex Q es1" "list_ex Q (e # es2)" by blast
    with \<open>\<not> Q a\<close> have "a # es = (a # es1) @ e # es2 \<and> P e \<and> \<not> list_ex Q (a # es1)
        \<and> list_ex Q (e # es2)"
      by simp
    then show ?thesis by blast
  qed
qed

lemma output_before_training:
  assumes "precedes is_output is_training es" and "es = pre @ Training t # post"
  shows "\<exists>es1 e es2. es = es1 @ e # es2 \<and> is_output e \<and> \<not> list_ex is_training es1
      \<and> list_ex is_training es2"
proof -
  from assms(2) have "list_ex is_training es" by simp
  from precedes_split [OF assms(1) this] obtain es1 e es2 where
    *: "es = es1 @ e # es2" "is_output e" "\<not> list_ex is_training es1" "list_ex is_training (e # es2)"
    by blast
  from *(2) have "\<not> is_training e" by (cases e) simp_all
  with * show ?thesis by auto
qed

text \<open>
  C5, as the notebooks run. In both notebooks, for every behaviour of the library, no
  optimiser, monitor or task is constructed before the first model, and no training loop is
  invoked before the first optimiser is constructed. But results are printed before
  training, not only after it: no training loop is invoked before the first result is shown,
  so that a run that completes has a result in its trace, then its first invocation of a
  training loop, and ends with a result (monitor-tensorboard prints the likelihood "before
  the optimisation" in cell 3 and trains in cell 9; natural gradients shows two likelihoods
  in cells 3 and 4 and takes its first natural gradient step in cell 5).
\<close>

theorem notebook_phases:
  fixes g :: "'x globals" and st :: "pid \<Rightarrow> 'v parameter"
  shows "precedes is_model is_tool (events (monitor_tensorboard lib predictor isdir g m st))
    \<and> precedes is_tool is_training (events (monitor_tensorboard lib predictor isdir g m st))
    \<and> precedes is_output is_training (events (monitor_tensorboard lib predictor isdir g m st))
    \<and> (failed (monitor_tensorboard lib predictor isdir g m st) = None \<longrightarrow>
         (\<exists>es1 e es2. events (monitor_tensorboard lib predictor isdir g m st) = es1 @ e # es2
            \<and> is_output e \<and> \<not> list_ex is_training es1 \<and> list_ex is_training es2)
         \<and> last (events (monitor_tensorboard lib predictor isdir g m st))
             = Output ''LML after the optimisation'')
    \<and> precedes is_model is_tool (events (natural_gradients lib obj niter nrange st))
    \<and> precedes is_tool is_training (events (natural_gradients lib obj niter nrange st))
    \<and> precedes is_output is_training (events (natural_gradients lib obj niter nrange st))
    \<and> (failed (natural_gradients lib obj niter nrange st) = None \<longrightarrow>
         (\<exists>es1 e es2. events (natural_gradients lib obj niter nrange st) = es1 @ e # es2
            \<and> is_output e \<and> \<not> list_ex is_training es1 \<and> list_ex is_training es2)
         \<and> last (events (natural_gradients lib obj niter nrange st))
             = Output ''vgp_bernoulli_natgrads_xi.compute_log_likelihood()'')"
proof -
  let ?M = "monitor_tensorboard lib predictor isdir g m st"
  let ?N = "natural_gradients lib obj niter nrange st"
  note M = monitor_tensorboard_order [of lib predictor isdir g m st]
  note N = natural_gradients_order [of lib obj niter nrange st]
  have M': "\<exists>es1 e es2. events ?M = es1 @ e # es2
      \<and> is_output e \<and> \<not> list_ex is_training es1 \<and> list_ex is_training es2"
    if "failed ?M = None"
  proof -
    from that have "failed (monitor_before_training lib isdir st) = None"
      by (rule monitor_before_training_failed)
    from monitor_tensorboard_training [OF this] obtain es where
      "events ?M = events (monitor_before_training lib isdir st) @ Training ''minimize'' # es"
      by blast
    with M(2) show ?thesis by (rule output_before_training)
  qed
  have N': "\<exists>es1 e es2. events ?N = es1 @ e # es2
      \<and> is_output e \<and> \<not> list_ex is_training es1 \<and> list_ex is_training es2"
    if "failed ?N = None"
  proof -
    from that have "failed (natgrads_before_training lib st) = None"
      by (rule natgrads_before_training_failed)
    from natural_gradients_training [OF this] obtain es where
      "events ?N = events (natgrads_before_training lib st) @ Training ''minimize'' # es"
      by blast
    with N(2) show ?thesis by (rule output_before_training)
  qed
  show ?thesis
    using M N M' N' monitor_tensorboard_last [of lib predictor isdir g m st]
      natural_gradients_last [of lib obj niter nrange st]
    by blast
qed

theorem notebook_phases_witness:
  "failed (monitor_tensorboard lib0 predictor0 (\<lambda>d. False) globals0 svgp0 store0) = None
   \<and> last (events (monitor_tensorboard lib0 predictor0 (\<lambda>d. False) globals0 svgp0 store0))
       = Output ''LML after the optimisation''
   \<and> failed (natural_gradients lib0 objects0 1 1 store0) = None
   \<and> last (events (natural_gradients lib0 objects0 1 1 store0))
       = Output ''vgp_bernoulli_natgrads_xi.compute_log_likelihood()''"
proof -
  have 1: "failed (monitor_tensorboard lib0 predictor0 (\<lambda>d. False) globals0 svgp0 store0) = None"
    by (rule monitor_tensorboard_completes [where T = "{2}"])
      (simp_all add: never_raises_lib0 predicts_predictor0 globals0_def svgp0_def
        all_trainable_def store0_def)
  have 2: "failed (natural_gradients lib0 objects0 1 1 store0) = None"
    by (rule natural_gradients_completes [where T = "{2}"])
      (simp_all add: never_raises_lib0 hyperparameters_objects0)
  from 1 2 notebook_phases [of lib0 predictor0 "\<lambda>d. False" globals0 svgp0 store0 objects0 1 1]
  show ?thesis by simp
qed

text \<open>
  C5 as claimed fails on both notebooks: with a library that raises nothing,
  monitor-tensorboard has printed the likelihood before any optimiser, monitor or task
  exists, twelve events before \<^verbatim>\<open>minimize\<close> is invoked, and natural gradients has shown
  two likelihoods when its first training loop starts.
\<close>

theorem results_printed_before_training:
  "take 14 (events (monitor_tensorboard lib0 predictor0 (\<lambda>d. False) globals0 svgp0 store0)) =
     [Model ''SVGP'' ''m'', Output ''LML before the optimisation'', Tool ''global_step'',
      Tool ''PrintTimingsTask'', Tool ''SleepTask'', Tool ''CheckpointTask'',
      Tool ''LogdirWriter'', Tool ''ModelToTensorBoardTask'', Tool ''LmlToTensorBoardTask'',
      Tool ''CustomTensorBoardTask'', Tool ''Monitor'', Tool ''AdamOptimizer'', Tool ''Monitor'',
      Training ''minimize'']
   \<and> take 6 (events (natural_gradients lib0 objects0 1 1 store0)) =
     [Model ''VGP'' ''vgp'', Model ''GPR'' ''gpr'', Output ''gpr.compute_log_likelihood()'',
      Output ''vgp.compute_log_likelihood()'', Tool ''NatGradOptimizer'', Training ''minimize'']"
proof -
  from monitor_tensorboard_training [OF monitor_before_training_lib0(2)] obtain es where
    "events (monitor_tensorboard lib0 predictor0 (\<lambda>d. False) globals0 svgp0 store0)
      = events (monitor_before_training lib0 (\<lambda>d. False) store0) @ Training ''minimize'' # es"
    by blast
  moreover
  from natural_gradients_training [OF natgrads_before_training_lib0(2)] obtain es' where
    "events (natural_gradients lib0 objects0 1 1 store0)
      = events (natgrads_before_training lib0 store0) @ Training ''minimize'' # es'"
    by blast
  ultimately show ?thesis
    by (simp add: monitor_before_training_lib0(1) natgrads_before_training_lib0(1))
qed

section \<open>Exceptions: what each primitive lets through\<close>

lemma surfacesI:
  assumes "failed w = None \<Longrightarrow>
      raised w' = raised w @ (case failed w' of None \<Rightarrow> [] | Some e \<Rightarrow> [e])"
    and "failed w \<noteq> None \<Longrightarrow> w' = w"
  shows "surfaces w w'"
  using assms unfolding surfaces_def by blast

lemma surfaces_refl: "surfaces w w"
  by (rule surfacesI) simp_all

lemma surfaces_failed: "surfaces w w' \<Longrightarrow> failed w \<noteq> None \<Longrightarrow> w' = w"
  by (simp add: surfaces_def)

lemma surfaces_trans:
  assumes "surfaces w u" and "surfaces u v"
  shows "surfaces w v"
proof (rule surfacesI)
  show "v = w" if "failed w \<noteq> None"
    using that assms by (auto simp: surfaces_def)
  show "raised v = raised w @ (case failed v of None \<Rightarrow> [] | Some e \<Rightarrow> [e])" if w: "failed w = None"
  proof (cases "failed u")
    case None
    with assms w show ?thesis by (simp add: surfaces_def)
  next
    case (Some e)
    with assms(2) have "v = u" by (simp add: surfaces_def)
    with assms(1) w show ?thesis by (simp add: surfaces_def)
  qed
qed

lemma surfaces_quiet:
  assumes "failed w = None" and "failed w' = None" and "raised w' = raised w"
  shows "surfaces w w'"
  using assms by (intro surfacesI) simp_all

lemma surfaces_raise_exn:
  assumes "failed w = None"
  shows "surfaces w (raise_exn e w)"
  using assms by (intro surfacesI) simp_all

lemma surfaces_stmt:
  assumes "\<And>u. failed u = None \<Longrightarrow> surfaces u (f u)"
  shows "surfaces w (stmt f w)"
  using assms by (simp add: stmt_def surfaces_refl)

lemma surfaces_lib_call:
  assumes "\<And>x u. failed u = None \<Longrightarrow> surfaces u (cont x u)"
  shows "surfaces w (lib_call call cont w)"
proof (cases "failed w = None")
  case False
  then have "lib_call call cont w = w" by (auto simp: lib_call_def)
  then show ?thesis by (simp add: surfaces_refl)
next
  case True
  obtain msgs r where c: "call w = (msgs, r)" by (cases "call w")
  let ?w1 = "show_warnings msgs w"
  have w1: "surfaces w ?w1" using True by (intro surfaces_quiet) simp_all
  have f1: "failed ?w1 = None" using True by simp
  show ?thesis
  proof (cases r)
    case (Inl e)
    have "surfaces ?w1 (raise_exn e ?w1)" using f1 by (rule surfaces_raise_exn)
    with w1 have "surfaces w (raise_exn e ?w1)" by (rule surfaces_trans)
    then show ?thesis using True c Inl by (simp add: lib_call_def)
  next
    case (Inr x)
    have "surfaces ?w1 (cont x ?w1)" using f1 by (rule assms)
    with w1 have "surfaces w (cont x ?w1)" by (rule surfaces_trans)
    then show ?thesis using True c Inr by (simp add: lib_call_def)
  qed
qed




lemma surfaces_step:
  "surfaces w (lib_call call (assign vars) w)"
  by (rule surfaces_lib_call) (rule surfaces_quiet, simp_all)

lemma surfaces_run_action:
  assumes "\<And>f u. a = Action f \<Longrightarrow> failed u = None \<Longrightarrow> surfaces u (f i u)"
  shows "surfaces w (run_action lib a i w)"
proof (cases a)
  case (Action f)
  then show ?thesis using assms by (simp add: surfaces_stmt)
qed (simp_all add: surfaces_step)




lemma surfaces_PrintAction_run: "surfaces w (PrintAction_run lib self i w)"
  unfolding PrintAction_run_def
  by (rule surfaces_lib_call) (rule surfaces_quiet, simp_all)

lemma surfaces_PrintAction_action:
  "surfaces w (run_action lib (Action (PrintAction_run lib self)) i w)"
  by (simp add: surfaces_stmt surfaces_PrintAction_run)


section \<open>Exceptions in the functions of natural gradients\<close>




section \<open>Exceptions in \<open>CustomTensorBoardTask.run\<close>\<close>





section \<open>Restored sessions and shown warnings\<close>


lemma restores_map_warnings [simp]: "restores (map Warning_shown msgs) = []"
  by (induction msgs) simp_all







section \<open>No handler, one branch that resumes, one filter on warnings\<close>




end
